(* ===== verification/Prelude.thy ===== *)
theory Prelude
  imports Complex_Main "HOL-Library.Signed_Division" "HOL-Library.AList"
begin

text \<open>
  Shared vocabulary of the development: Go's signed 64-bit integers, Go maps, Go error results,
  and the generic facts on integers, lists and association lists that the component theories use.

  \<^item> An \<open>int64\<close> is an \<open>int\<close> in the range \<open>-2^63 .. 2^63 - 1\<close>; every arithmetic operation of the
    code is followed by \<open>wrap64\<close>, the two's complement wrap-around Go prescribes. Integer division
    is \<open>sdiv\<close>, which truncates towards zero as Go's \<open>/\<close> does.
  \<^item> A Go map is an association list with lookup \<open>map_of\<close> and update \<open>AList.update\<close>; the nil map
    is the empty list, which Go reads like the empty map.
  \<^item> A Go result \<open>(value, error)\<close> is a value of \<open>string + 'a\<close>, with \<open>Inl\<close> for a non-nil error.
\<close>

section \<open>Simplification collections\<close>

named_theorems i64_simps \<open>int64 arithmetic inside its range\<close>
named_theorems f64_simps \<open>binary64 arithmetic on finite values\<close>
named_theorems const_defs \<open>the constants of the source\<close>

section \<open>Signed 64-bit integers\<close>

type_synonym i64 = int

definition wrap64 :: "int \<Rightarrow> i64" where
  "wrap64 x = (x + 2 ^ 63) mod 2 ^ 64 - 2 ^ 63"

definition in_i64 :: "int \<Rightarrow> bool" where
  "in_i64 x \<longleftrightarrow> - (2 ^ 63) \<le> x \<and> x < 2 ^ 63"

lemma wrap64_in [simp]: "in_i64 (wrap64 x)"
  by (simp add: wrap64_def in_i64_def)

lemma wrap64_id [i64_simps]: "in_i64 x \<Longrightarrow> wrap64 x = x"
  by (simp add: wrap64_def in_i64_def)

lemma wrap64_idem [simp]: "wrap64 (wrap64 x) = wrap64 x"
  by (simp add: wrap64_id)

lemma wrap64_range: "- (2 ^ 63) \<le> wrap64 x" "wrap64 x < 2 ^ 63"
  using wrap64_in [of x] by (simp_all add: in_i64_def)

type_synonym i32 = int

definition wrap32 :: "int \<Rightarrow> i32" where
  "wrap32 x = (x + 2 ^ 31) mod 2 ^ 32 - 2 ^ 31"

lemma wrap32_id [i64_simps]: "- (2 ^ 31) \<le> x \<Longrightarrow> x < 2 ^ 31 \<Longrightarrow> wrap32 x = x"
  by (simp add: wrap32_def)

lemma in_i64_between: "in_i64 a \<Longrightarrow> in_i64 b \<Longrightarrow> a \<le> x \<Longrightarrow> x \<le> b \<Longrightarrow> in_i64 x"
  by (simp add: in_i64_def)

lemma in_i64_zero: "in_i64 0"
  by (simp add: in_i64_def)

lemma in_i64_nonneg: "0 \<le> x \<Longrightarrow> x < 2 ^ 63 \<Longrightarrow> in_i64 x"
  by (simp add: in_i64_def)

lemma sdiv_nonneg [i64_simps]: "0 \<le> (a::int) \<Longrightarrow> 0 < b \<Longrightarrow> a sdiv b = a div b"
  by (simp add: signed_divide_int_def sgn_if)

section \<open>Go maps as association lists\<close>

type_synonym ('k, 'v) gomap = "('k \<times> 'v) list"

abbreviation gomap_wf :: "('k, 'v) gomap \<Rightarrow> bool" where
  "gomap_wf m \<equiv> distinct (map fst m)"

definition gomap_keys :: "('k, 'v) gomap \<Rightarrow> 'k list" where
  "gomap_keys m = map fst m"

definition map_zero :: "'v \<Rightarrow> ('k, 'v) gomap \<Rightarrow> 'k \<Rightarrow> 'v" where
  \<comment> \<open>\<open>m[k]\<close> read as a value: the element type's zero value when the key is absent.\<close>
  "map_zero z m k = (case map_of m k of Some v \<Rightarrow> v | None \<Rightarrow> z)"

lemma map_zero_Some [simp]: "map_of m k = Some v \<Longrightarrow> map_zero z m k = v"
  by (simp add: map_zero_def)

lemma map_zero_None [simp]: "map_of m k = None \<Longrightarrow> map_zero z m k = z"
  by (simp add: map_zero_def)

lemma map_of_update: "map_of (AList.update k v m) = (map_of m)(k \<mapsto> v)"
  by (simp add: update_conv')

lemma map_zero_update [simp]:
  "map_zero z (AList.update k v m) k' = (if k' = k then v else map_zero z m k')"
  by (simp add: map_zero_def map_of_update)

lemma gomap_wf_update [simp]: "gomap_wf m \<Longrightarrow> gomap_wf (AList.update k v m)"
  by (rule distinct_update)

lemma set_gomap_keys: "set (gomap_keys m) = dom (map_of m)"
  by (simp add: gomap_keys_def dom_map_of_conv_image_fst)

lemma gomap_keys_update:
  "set (gomap_keys (AList.update k v m)) = insert k (set (gomap_keys m))"
  by (auto simp: set_gomap_keys map_of_update)

section \<open>Error results\<close>

type_synonym 'a go_result = "string + 'a"

lemma sum_case_Inr_iff:
  "(case r of Inl e \<Rightarrow> Inl e | Inr a \<Rightarrow> f a) = Inr b \<longleftrightarrow> (\<exists>a. r = Inr a \<and> f a = Inr b)"
  by (cases r) auto

section \<open>Lists\<close>

lemma filter_map_Some_set:
  "set (List.map_filter f xs) = {y. \<exists>x \<in> set xs. f x = Some y}"
  by (induction xs) (auto simp: map_filter_simps split: option.splits)

lemma map_filter_Nil_iff: "List.map_filter f xs = [] \<longleftrightarrow> (\<forall>x \<in> set xs. f x = None)"
  by (induction xs) (auto simp: map_filter_simps split: option.splits)

lemma find_Some_sat: "List.find P xs = Some x \<Longrightarrow> P x \<and> x \<in> set xs"
  by (auto simp: find_Some_iff)

end
