(* ===== verification/F64.thy ===== *)
theory F64
  imports Prelude "HOL-Library.Log_Nat"
begin

text \<open>
  Go's \<open>float64\<close>: IEEE 754 binary64 with round-to-nearest, ties to even. A value is a finite
  rational, an infinity or NaN; the sign of zero is not kept, because no operation of the program
  tells the two zeros apart. Every arithmetic result is the exact rational result rounded by
  \<open>round64\<close> (53 significant bits, smallest exponent \<open>-1074\<close>) and overflows to an infinity at
  \<open>2^1024\<close>.

  The lemmas give the facts the components need: rounding is monotone, keeps sign, leaves every
  number of at most 53 significant bits unchanged (so integers up to \<open>2^53\<close> are exact), and its
  relative error is at most \<open>2^-53\<close> on normal numbers.
\<close>

section \<open>The exponent of a positive rational\<close>

definition expo :: "rat \<Rightarrow> int" where
  "expo x = (let (n, d) = quotient_of x; k = bitlen n - bitlen d
             in if 2 powi k \<le> x then k else k - 1)"

lemma two_powi_pos [simp]: "0 < (2::rat) powi k"
  by (simp add: zero_less_power_int)

lemma two_powi_nz [simp]: "(2::rat) powi k \<noteq> 0"
  using two_powi_pos [of k] by linarith

lemma two_powi_add: "(2::rat) powi (a + b) = 2 powi a * 2 powi b"
  by (simp add: power_int_add)

lemma two_powi_Suc: "(2::rat) powi (a + 1) = 2 * 2 powi a"
  by (simp add: power_int_add)

lemma two_powi_diff: "(2::rat) powi (a - b) = 2 powi a / 2 powi b"
  by (simp add: power_int_diff)

lemma two_powi_mono: "a \<le> b \<Longrightarrow> (2::rat) powi a \<le> 2 powi b"
  by (rule power_int_increasing) simp_all

lemma two_powi_strict: "a < b \<Longrightarrow> (2::rat) powi a < 2 powi b"
  by (rule power_int_strict_increasing) simp_all

lemma two_powi_less_iff: "(2::rat) powi a < 2 powi b \<longleftrightarrow> a < b"
  by (meson linorder_not_less two_powi_mono two_powi_strict)

lemma bitlen_bounds_powi:
  assumes "0 < n"
  shows "2 powi (bitlen n - 1) \<le> (of_int n :: rat)" "(of_int n :: rat) < 2 powi (bitlen n)"
proof -
  have b: "2 ^ nat (bitlen n - 1) \<le> n" "n < 2 ^ nat (bitlen n)"
    using bitlen_bounds [OF assms] by auto
  have nn: "0 \<le> bitlen n - 1"
    using assms by (metis bitlen_eq_zero_iff bitlen_nonneg int_one_le_iff_zero_less
        diff_ge_0_iff_ge linorder_not_le order_le_less)
  have "(of_int (2 ^ nat (bitlen n - 1)) :: rat) \<le> of_int n"
    using b(1) by (simp only: of_int_le_iff)
  then show "2 powi (bitlen n - 1) \<le> (of_int n :: rat)"
    using nn by (simp add: power_int_nonneg_exp)
  have "(of_int n :: rat) < of_int (2 ^ nat (bitlen n))"
    using b(2) by (simp only: of_int_less_iff)
  then show "(of_int n :: rat) < 2 powi (bitlen n)"
    by (simp add: power_int_nonneg_exp bitlen_nonneg)
qed

lemma expo_bounds:
  assumes "0 < x"
  shows "2 powi (expo x) \<le> x" "x < 2 powi (expo x + 1)"
proof -
  obtain n d where q: "quotient_of x = (n, d)" by (cases "quotient_of x")
  then have x: "x = of_int n / of_int d" and d: "0 < d"
    by (auto dest: quotient_of_div quotient_of_denom_pos)
  with assms have n: "0 < n" by (simp add: zero_less_divide_iff)
  define k where "k = bitlen n - bitlen d"
  note bn = bitlen_bounds_powi [OF n] and bd = bitlen_bounds_powi [OF d]
  have dp: "(0::rat) < of_int d" using d by simp
  have up: "x < 2 powi (k + 1)"
  proof -
    have "of_int n < (2::rat) powi (bitlen n)" by (rule bn)
    also have "\<dots> = 2 powi (k + 1) * 2 powi (bitlen d - 1)"
      by (simp add: k_def flip: two_powi_add)
    also have "\<dots> \<le> 2 powi (k + 1) * of_int d"
      using bd(1) by (intro mult_left_mono) (simp_all add: less_imp_le)
    finally show ?thesis using dp by (simp add: x pos_divide_less_eq)
  qed
  have lo: "2 powi (k - 1) \<le> x"
  proof -
    have "(2::rat) powi (k - 1) * of_int d \<le> 2 powi (k - 1) * 2 powi (bitlen d)"
      using bd(2) by (intro mult_left_mono) (simp_all add: less_imp_le)
    also have "\<dots> = (2::rat) powi (bitlen n - 1)"
      by (simp add: k_def flip: two_powi_add)
    also have "\<dots> \<le> of_int n" by (rule bn)
    finally show ?thesis using dp by (simp add: x pos_le_divide_eq)
  qed
  have e: "expo x = (if 2 powi k \<le> x then k else k - 1)"
    by (simp add: expo_def q k_def Let_def)
  show "2 powi (expo x) \<le> x" using lo e by simp
  show "x < 2 powi (expo x + 1)" using up e by simp
qed

lemma expo_unique:
  assumes "2 powi e \<le> x" "x < 2 powi (e + 1)"
  shows "expo x = e"
proof -
  have "0 < x" using assms(1) two_powi_pos [of e] by linarith
  note b = expo_bounds [OF this]
  have "(2::rat) powi e < 2 powi (expo x + 1)" "(2::rat) powi expo x < 2 powi (e + 1)"
    using assms b by linarith+
  then have "e < expo x + 1" "expo x < e + 1" by (simp_all only: two_powi_less_iff)
  then show ?thesis by linarith
qed

lemma expo_mono:
  assumes "0 < x" "x \<le> y"
  shows "expo x \<le> expo y"
proof -
  have "(2::rat) powi expo x < 2 powi (expo y + 1)"
    using expo_bounds [of x] expo_bounds [of y] assms by linarith
  then have "expo x < expo y + 1" by (simp only: two_powi_less_iff)
  then show ?thesis by linarith
qed

section \<open>Rounding to the nearest integer, ties to even\<close>

definition rne :: "rat \<Rightarrow> int" where
  "rne x = (let f = \<lfloor>x\<rfloor>; r = x - of_int f
            in if r < 1 / 2 then f else if 1 / 2 < r then f + 1 else if even f then f else f + 1)"

lemma rne_of_int [simp]: "rne (of_int n) = n"
  by (simp add: rne_def)

lemma rne_dist: "\<bar>of_int (rne x) - x\<bar> \<le> 1 / 2"
proof -
  have a: "of_int \<lfloor>x\<rfloor> \<le> x" "x < of_int \<lfloor>x\<rfloor> + 1"
    by linarith+
  then show ?thesis
    by (simp add: rne_def Let_def abs_le_iff)
qed

lemma rne_mono:
  assumes "x \<le> y"
  shows "rne x \<le> rne y"
proof (cases "\<lfloor>x\<rfloor> = \<lfloor>y\<rfloor>")
  case True
  then show ?thesis using assms by (auto simp: rne_def Let_def)
next
  case False
  then have l: "\<lfloor>x\<rfloor> + 1 \<le> \<lfloor>y\<rfloor>" using floor_mono [OF assms] by simp
  have "rne x \<le> \<lfloor>x\<rfloor> + 1" "\<lfloor>y\<rfloor> \<le> rne y" by (simp_all add: rne_def Let_def)
  with l show ?thesis by linarith
qed

lemma rne_nonneg: "0 \<le> x \<Longrightarrow> 0 \<le> rne x"
  using rne_mono [of 0 x] rne_of_int [of 0] by simp

lemma rne_le: "x \<le> of_int n \<Longrightarrow> rne x \<le> n"
  using rne_mono [of x "of_int n"] by simp

lemma rne_ge: "of_int n \<le> x \<Longrightarrow> n \<le> rne x"
  using rne_mono [of "of_int n" x] by simp

lemma rne_minus: "rne (- x) = - rne x"
proof (cases "x = of_int \<lfloor>x\<rfloor>")
  case True
  then show ?thesis by (metis of_int_minus rne_of_int)
next
  case False
  then have f: "\<lfloor>- x\<rfloor> = - \<lfloor>x\<rfloor> - 1"
    by (metis ceiling_altdef floor_minus minus_add_distrib uminus_add_conv_diff add.commute)
  show ?thesis
    by (auto simp: rne_def Let_def f)
qed

section \<open>Rounding to 53 significant bits\<close>

definition ulp_exp :: "rat \<Rightarrow> int" where
  "ulp_exp x = max (expo \<bar>x\<bar> - 52) (- 1074)"

definition rnd :: "rat \<Rightarrow> rat" where
  "rnd x = (if x = 0 then 0 else of_int (rne (x / 2 powi ulp_exp x)) * 2 powi ulp_exp x)"

definition is_f64 :: "rat \<Rightarrow> bool" where
  "is_f64 x \<longleftrightarrow> (\<exists>m e. x = of_int m * 2 powi e \<and> \<bar>m\<bar> \<le> 2 ^ 53 \<and> - 1074 \<le> e)"

lemma rnd_0 [simp, f64_simps]: "rnd 0 = 0"
  by (simp add: rnd_def)

lemma ulp_exp_minus [simp]: "ulp_exp (- x) = ulp_exp x"
  by (simp add: ulp_exp_def)

lemma rnd_minus: "rnd (- x) = - rnd x"
  by (simp add: rnd_def rne_minus)

lemma ulp_exp_ge: "- 1074 \<le> ulp_exp x"
  by (simp add: ulp_exp_def)

lemma ulp_exp_mono: "0 < x \<Longrightarrow> x \<le> y \<Longrightarrow> ulp_exp x \<le> ulp_exp y"
  using expo_mono [of x y] by (auto simp: ulp_exp_def)

lemma below_ulp_53:
  assumes "0 < x"
  shows "x < 2 powi (ulp_exp x + 53)"
proof -
  have "x < 2 powi (expo x + 1)" by (rule expo_bounds [OF assms])
  also have "\<dots> \<le> 2 powi (ulp_exp x + 53)"
    using assms by (intro two_powi_mono) (simp add: ulp_exp_def)
  finally show ?thesis .
qed

lemma rnd_le_pow:
  assumes "0 < x"
  shows "rnd x \<le> 2 powi (ulp_exp x + 53)"
proof -
  have "x / 2 powi ulp_exp x \<le> of_int (2 ^ 53)"
    using below_ulp_53 [OF assms] by (simp add: pos_divide_le_eq two_powi_add mult.commute)
  then have "rne (x / 2 powi ulp_exp x) \<le> 2 ^ 53" by (rule rne_le)
  then have "(of_int (rne (x / 2 powi ulp_exp x)) :: rat) \<le> of_int (2 ^ 53)"
    by (simp only: of_int_le_iff)
  then have "of_int (rne (x / 2 powi ulp_exp x)) * 2 powi ulp_exp x \<le> (2 ^ 53 :: rat) * 2 powi ulp_exp x"
    by (intro mult_right_mono) (simp_all add: less_imp_le)
  then show ?thesis using assms by (simp add: rnd_def two_powi_add mult.commute)
qed

lemma rnd_mono_pos:
  assumes x: "0 < x" and xy: "x \<le> y"
  shows "rnd x \<le> rnd y"
proof (cases "ulp_exp x = ulp_exp y")
  case True
  have "x / 2 powi ulp_exp y \<le> y / 2 powi ulp_exp y"
    using xy by (intro divide_right_mono) (simp_all add: less_imp_le)
  then have "rne (x / 2 powi ulp_exp y) \<le> rne (y / 2 powi ulp_exp y)" by (rule rne_mono)
  then have "(of_int (rne (x / 2 powi ulp_exp y)) :: rat) \<le> of_int (rne (y / 2 powi ulp_exp y))"
    by (simp only: of_int_le_iff)
  then have "of_int (rne (x / 2 powi ulp_exp y)) * (2::rat) powi ulp_exp y
      \<le> of_int (rne (y / 2 powi ulp_exp y)) * 2 powi ulp_exp y"
    by (intro mult_right_mono) (simp_all add: less_imp_le)
  then show ?thesis using x xy True by (simp add: rnd_def)
next
  case False
  have y: "0 < y" using x xy by linarith
  have lt: "ulp_exp x < ulp_exp y" using ulp_exp_mono [OF x xy] False by linarith
  then have uy: "ulp_exp y = expo y - 52"
    using y ulp_exp_ge [of x] by (simp add: ulp_exp_def max_def split: if_splits)
  have "rnd x \<le> 2 powi (ulp_exp x + 53)" by (rule rnd_le_pow [OF x])
  also have "\<dots> \<le> 2 powi (ulp_exp y + 52)" using lt by (intro two_powi_mono) simp
  also have "\<dots> = of_int (2 ^ 52) * 2 powi ulp_exp y" by (simp add: two_powi_add)
  also have "\<dots> \<le> rnd y"
  proof -
    have "2 powi (ulp_exp y + 52) \<le> y" using expo_bounds(1) [OF y] by (simp add: uy)
    then have "of_int (2 ^ 52) \<le> y / 2 powi ulp_exp y"
      by (simp add: pos_le_divide_eq two_powi_add mult.commute)
    then have "2 ^ 52 \<le> rne (y / 2 powi ulp_exp y)" by (rule rne_ge)
    then have "(of_int (2 ^ 52) :: rat) \<le> of_int (rne (y / 2 powi ulp_exp y))"
      by (simp only: of_int_le_iff)
    then show ?thesis using y
      by (simp add: rnd_def mult_right_mono less_imp_le)
  qed
  finally show ?thesis .
qed

lemma rnd_nonneg: "0 \<le> x \<Longrightarrow> 0 \<le> rnd x"
  by (simp add: rnd_def rne_nonneg less_imp_le)

lemma rnd_mono:
  assumes "x \<le> y"
  shows "rnd x \<le> rnd y"
proof -
  consider "0 < x" | "x \<le> 0" "0 \<le> y" | "y < 0" by linarith
  then show ?thesis
  proof cases
    case 1
    then show ?thesis using assms by (rule rnd_mono_pos)
  next
    case 2
    then have "0 \<le> rnd (- x)" "0 \<le> rnd y" by (simp_all add: rnd_nonneg)
    then show ?thesis by (simp add: rnd_minus)
  next
    case 3
    then have "rnd (- y) \<le> rnd (- x)" using assms by (intro rnd_mono_pos) simp_all
    then show ?thesis by (simp add: rnd_minus)
  qed
qed

lemma rnd_is_f64_pos:
  assumes x: "x = of_int m * 2 powi e" and m: "0 < m" "m \<le> 2 ^ 53" and e: "- 1074 \<le> e"
  shows "rnd x = x"
proof -
  have x0: "0 < x" using x m by simp
  have int: "rnd x = x" if k: "x = of_int k * 2 powi ulp_exp x" for k
  proof -
    have "x / 2 powi ulp_exp x = of_int k" using k by (simp add: field_simps)
    then show ?thesis using x0 k by (simp add: rnd_def)
  qed
  show ?thesis
  proof (cases "m = 2 ^ 53")
    case True
    then have xe: "x = 2 powi (e + 53)" using x by (simp add: two_powi_add mult.commute)
    then have "expo x = e + 53" by (intro expo_unique) (simp_all add: two_powi_less_iff)
    then have "ulp_exp x = e + 1" using x0 e by (simp add: ulp_exp_def)
    then show ?thesis by (intro int [of "2 ^ 52"]) (simp add: xe two_powi_add)
  next
    case False
    then have "(of_int m :: rat) < of_int (2 ^ 53)" using m by (simp only: of_int_less_iff)
    then have "x < 2 powi (e + 53)" by (simp add: x two_powi_add mult.commute)
    then have "(2::rat) powi expo x < 2 powi (e + 53)" using expo_bounds(1) [OF x0] by linarith
    then have "expo x < e + 53" by (simp only: two_powi_less_iff)
    then have u: "ulp_exp x \<le> e" using e x0 by (simp add: ulp_exp_def)
    have "(2::rat) powi e = of_int (2 ^ nat (e - ulp_exp x)) * 2 powi ulp_exp x"
      using u by (simp add: power_int_nonneg_exp [symmetric] flip: two_powi_add)
    then have "x = of_int (m * 2 ^ nat (e - ulp_exp x)) * 2 powi ulp_exp x"
      by (simp add: x)
    then show ?thesis by (rule int)
  qed
qed

lemma rnd_is_f64:
  assumes "is_f64 x"
  shows "rnd x = x"
proof -
  obtain m e where x: "x = of_int m * 2 powi e" and m: "\<bar>m\<bar> \<le> 2 ^ 53" and e: "- 1074 \<le> e"
    using assms by (auto simp: is_f64_def)
  consider "m = 0" | "0 < m" | "m < 0" by linarith
  then show ?thesis
  proof cases
    case 1
    then show ?thesis by (simp add: x)
  next
    case 2
    then show ?thesis using x m e by (intro rnd_is_f64_pos) simp_all
  next
    case 3
    have "rnd (- x) = - x"
      using 3 x m e by (intro rnd_is_f64_pos [of _ "- m" e]) simp_all
    then show ?thesis by (simp add: rnd_minus)
  qed
qed

lemma is_f64_rnd [simp]: "is_f64 (rnd x)"
proof (cases "x = 0")
  case True
  then show ?thesis by (auto simp: is_f64_def intro: exI [of _ 0])
next
  case False
  have le: "\<bar>x\<bar> / 2 powi ulp_exp x \<le> of_int (2 ^ 53)"
    using below_ulp_53 [of "\<bar>x\<bar>"] False
    by (simp add: pos_divide_le_eq two_powi_add mult.commute ulp_exp_def)
  have "x / 2 powi ulp_exp x \<le> of_int (2 ^ 53)" "of_int (- (2 ^ 53)) \<le> x / 2 powi ulp_exp x"
    using le by (simp_all add: pos_divide_le_eq pos_le_divide_eq abs_le_iff)
  then have "\<bar>rne (x / 2 powi ulp_exp x)\<bar> \<le> 2 ^ 53"
    using rne_le [of _ "2 ^ 53"] rne_ge [of "- (2 ^ 53)"] by (intro abs_leI) force+
  then show ?thesis
    using False ulp_exp_ge [of x] by (auto simp: is_f64_def rnd_def)
qed

lemma rnd_idem [simp]: "rnd (rnd x) = rnd x"
  by (simp add: rnd_is_f64)

lemma is_f64_int: "\<bar>n\<bar> \<le> 2 ^ 53 \<Longrightarrow> is_f64 (of_int n)"
  unfolding is_f64_def by (rule exI [of _ n], rule exI [of _ 0]) simp

lemma rnd_int: "\<bar>n\<bar> \<le> 2 ^ 53 \<Longrightarrow> rnd (of_int n) = of_int n"
  by (intro rnd_is_f64 is_f64_int)

lemma rnd_pow2: "- 1074 \<le> e \<Longrightarrow> rnd (2 powi e) = 2 powi e"
  by (rule rnd_is_f64, unfold is_f64_def, rule exI [of _ 1], rule exI [of _ e]) simp

lemma rnd_dist: "\<bar>rnd x - x\<bar> \<le> 2 powi ulp_exp x / 2"
proof (cases "x = 0")
  case False
  let ?u = "2 powi ulp_exp x"
  have "rnd x - x = (of_int (rne (x / ?u)) - x / ?u) * ?u"
    using False by (simp add: rnd_def algebra_simps)
  then have "\<bar>rnd x - x\<bar> = \<bar>of_int (rne (x / ?u)) - x / ?u\<bar> * ?u"
    by (simp add: abs_mult)
  also have "\<dots> \<le> 1 / 2 * ?u"
    using rne_dist by (intro mult_right_mono) (simp_all add: less_imp_le)
  finally show ?thesis by simp
qed simp

lemma rnd_rel_error:
  assumes "2 powi (- 1022) \<le> \<bar>x\<bar>"
  shows "\<bar>rnd x - x\<bar> \<le> \<bar>x\<bar> / 2 ^ 53"
proof -
  have x0: "0 < \<bar>x\<bar>" using assms two_powi_pos [of "- 1022"] by linarith
  have "(2::rat) powi (- 1022) < 2 powi (expo \<bar>x\<bar> + 1)"
    using expo_bounds(2) [OF x0] assms by linarith
  then have "ulp_exp x = expo \<bar>x\<bar> - 52"
    by (simp only: two_powi_less_iff) (simp add: ulp_exp_def)
  then have "(2::rat) powi ulp_exp x / 2 = 2 powi expo \<bar>x\<bar> / 2 ^ 53"
    by (simp add: two_powi_diff)
  also have "\<dots> \<le> \<bar>x\<bar> / 2 ^ 53"
    using expo_bounds(1) [OF x0] by (intro divide_right_mono) simp_all
  finally show ?thesis using rnd_dist [of x] by linarith
qed

lemma rnd_upper:
  assumes "1 \<le> x"
  shows "rnd x \<le> x + x / 2 ^ 53" "x - x / 2 ^ 53 \<le> rnd x" "rnd x \<le> 2 * x"
proof -
  have "2 powi (- 1022) \<le> (2::rat) powi 0" by (rule two_powi_mono) simp
  then have "2 powi (- 1022) \<le> \<bar>x\<bar>" using assms by (simp only: power_int_0_right)
  then have "\<bar>rnd x - x\<bar> \<le> \<bar>x\<bar> / 2 ^ 53" by (rule rnd_rel_error)
  then show "rnd x \<le> x + x / 2 ^ 53" "x - x / 2 ^ 53 \<le> rnd x"
    using assms abs_ge_self [of "rnd x - x"] abs_ge_minus_self [of "rnd x - x"]
      abs_of_nonneg [of x] by linarith+
  then show "rnd x \<le> 2 * x" using assms by (simp add: field_simps)
qed

lemma rnd_le_iff_f64: "is_f64 y \<Longrightarrow> x \<le> y \<Longrightarrow> rnd x \<le> y"
  using rnd_mono [of x y] rnd_is_f64 [of y] by simp

lemma rnd_ge_iff_f64: "is_f64 y \<Longrightarrow> y \<le> x \<Longrightarrow> y \<le> rnd x"
  using rnd_mono [of y x] rnd_is_f64 [of y] by simp

lemma rnd_abs: "\<bar>rnd x\<bar> = rnd \<bar>x\<bar>"
proof (cases "0 \<le> x")
  case True
  then show ?thesis using rnd_nonneg [of x] by simp
next
  case False
  then have "0 \<le> rnd (- x)" by (intro rnd_nonneg) simp
  then show ?thesis using False by (simp add: rnd_minus abs_if)
qed

section \<open>Values and operations\<close>

datatype f64 = Fin rat | PInf | NInf | NaN

definition f64_limit :: rat where
  "f64_limit = 2 ^ 1024"

definition f64_half_limit :: rat where
  "f64_half_limit = 2 ^ 1023"

definition round64 :: "rat \<Rightarrow> f64" where
  \<comment> \<open>A rounded result of magnitude \<open>2^1024\<close> or more overflows to an infinity.\<close>
  "round64 x = (let r = rnd x in
     if r \<noteq> 0 \<and> 1024 \<le> expo \<bar>r\<bar> then (if 0 < r then PInf else NInf) else Fin r)"

fun f_neg :: "f64 \<Rightarrow> f64" where
  "f_neg (Fin a) = Fin (- a)"
| "f_neg PInf = NInf"
| "f_neg NInf = PInf"
| "f_neg NaN = NaN"

fun f_add :: "f64 \<Rightarrow> f64 \<Rightarrow> f64" where
  "f_add (Fin a) (Fin b) = round64 (a + b)"
| "f_add NaN _ = NaN"
| "f_add _ NaN = NaN"
| "f_add PInf NInf = NaN"
| "f_add NInf PInf = NaN"
| "f_add PInf _ = PInf"
| "f_add _ PInf = PInf"
| "f_add NInf _ = NInf"
| "f_add _ NInf = NInf"

definition f_inf :: "bool \<Rightarrow> f64" where
  "f_inf pos = (if pos then PInf else NInf)"

fun f_mul :: "f64 \<Rightarrow> f64 \<Rightarrow> f64" where
  "f_mul (Fin a) (Fin b) = round64 (a * b)"
| "f_mul NaN _ = NaN"
| "f_mul _ NaN = NaN"
| "f_mul PInf (Fin b) = (if b = 0 then NaN else f_inf (0 < b))"
| "f_mul NInf (Fin b) = (if b = 0 then NaN else f_inf (b < 0))"
| "f_mul (Fin a) PInf = (if a = 0 then NaN else f_inf (0 < a))"
| "f_mul (Fin a) NInf = (if a = 0 then NaN else f_inf (a < 0))"
| "f_mul PInf PInf = PInf"
| "f_mul NInf NInf = PInf"
| "f_mul PInf NInf = NInf"
| "f_mul NInf PInf = NInf"

fun f_div :: "f64 \<Rightarrow> f64 \<Rightarrow> f64" where
  "f_div (Fin a) (Fin b) =
     (if b = 0 then (if a = 0 then NaN else f_inf (0 < a)) else round64 (a / b))"
| "f_div NaN _ = NaN"
| "f_div _ NaN = NaN"
| "f_div (Fin a) _ = Fin 0"
| "f_div PInf (Fin b) = f_inf (0 \<le> b)"
| "f_div NInf (Fin b) = f_inf (b < 0)"
| "f_div _ _ = NaN"

fun f_le :: "f64 \<Rightarrow> f64 \<Rightarrow> bool" where
  "f_le (Fin a) (Fin b) \<longleftrightarrow> a \<le> b"
| "f_le NaN _ \<longleftrightarrow> False"
| "f_le _ NaN \<longleftrightarrow> False"
| "f_le NInf _ \<longleftrightarrow> True"
| "f_le _ PInf \<longleftrightarrow> True"
| "f_le _ _ \<longleftrightarrow> False"

fun f_lt :: "f64 \<Rightarrow> f64 \<Rightarrow> bool" where
  "f_lt (Fin a) (Fin b) \<longleftrightarrow> a < b"
| "f_lt NaN _ \<longleftrightarrow> False"
| "f_lt _ NaN \<longleftrightarrow> False"
| "f_lt NInf NInf \<longleftrightarrow> False"
| "f_lt PInf _ \<longleftrightarrow> False"
| "f_lt NInf _ \<longleftrightarrow> True"
| "f_lt (Fin _) PInf \<longleftrightarrow> True"
| "f_lt (Fin _) NInf \<longleftrightarrow> False"

definition f_max :: "f64 \<Rightarrow> f64 \<Rightarrow> f64" where
  \<comment> \<open>Go's built-in \<open>max\<close>: NaN when either argument is NaN.\<close>
  "f_max a b = (if a = NaN \<or> b = NaN then NaN else if f_le a b then b else a)"

fun f_ceil :: "f64 \<Rightarrow> f64" where
  "f_ceil (Fin a) = Fin (of_int \<lceil>a\<rceil>)"
| "f_ceil x = x"

definition f_of_i64 :: "i64 \<Rightarrow> f64" where
  "f_of_i64 n = round64 (of_int n)"

definition trunc_rat :: "rat \<Rightarrow> int" where
  "trunc_rat a = (if 0 \<le> a then \<lfloor>a\<rfloor> else \<lceil>a\<rceil>)"

fun i64_of_f :: "f64 \<Rightarrow> i64" where
  \<comment> \<open>\<open>int64(x)\<close>: truncation towards zero; a value that does not fit gives what amd64's
      conversion instruction gives, the smallest \<open>int64\<close> (Go leaves the result open).\<close>
  "i64_of_f (Fin a) = (if in_i64 (trunc_rat a) then trunc_rat a else - (2 ^ 63))"
| "i64_of_f _ = - (2 ^ 63)"

section \<open>Finite results\<close>

lemma is_f64_half_limit: "is_f64 f64_half_limit"
  unfolding is_f64_def f64_half_limit_def by (rule exI [of _ 1], rule exI [of _ 1023]) simp

lemma half_limit_less: "0 < f64_half_limit" "f64_half_limit < f64_limit"
  by (simp_all add: f64_half_limit_def f64_limit_def)

lemma expo_ge_limit:
  assumes "0 < x"
  shows "1024 \<le> expo x \<longleftrightarrow> f64_limit \<le> x"
proof
  assume "1024 \<le> expo x"
  then have "(2::rat) powi 1024 \<le> 2 powi expo x" by (rule two_powi_mono)
  then show "f64_limit \<le> x" using expo_bounds(1) [OF assms] by (simp add: f64_limit_def)
next
  assume "f64_limit \<le> x"
  then have "(2::rat) powi 1024 < 2 powi (expo x + 1)"
    using expo_bounds(2) [OF assms] by (simp add: f64_limit_def)
  then have "1024 < expo x + 1" by (simp only: two_powi_less_iff)
  then show "1024 \<le> expo x" by linarith
qed

lemma round64_alt: "round64 x = (let r = rnd x in
    if f64_limit \<le> r then PInf else if r \<le> - f64_limit then NInf else Fin r)"
proof -
  have "rnd x \<noteq> 0 \<and> 1024 \<le> expo \<bar>rnd x\<bar> \<longleftrightarrow> f64_limit \<le> \<bar>rnd x\<bar>"
    using expo_ge_limit [of "\<bar>rnd x\<bar>"] half_limit_less by auto
  then show ?thesis
    using half_limit_less by (auto simp: round64_def Let_def abs_if)
qed

lemma round64_Fin [f64_simps]:
  assumes "\<bar>x\<bar> \<le> f64_half_limit"
  shows "round64 x = Fin (rnd x)"
proof -
  have "rnd x \<le> f64_half_limit" "rnd (- x) \<le> f64_half_limit"
    using assms by (auto simp: abs_le_iff intro: rnd_le_iff_f64 [OF is_f64_half_limit])
  then have "\<not> f64_limit \<le> rnd x" "\<not> rnd x \<le> - f64_limit"
    using half_limit_less unfolding rnd_minus by linarith+
  then show ?thesis by (simp add: round64_alt Let_def)
qed

lemma le_half_limit: "x \<le> 2 ^ 200 \<Longrightarrow> x \<le> f64_half_limit"
  unfolding f64_half_limit_def by (erule order_trans) (rule power_increasing, simp_all)

lemma f_of_i64_Fin:
  assumes "in_i64 n"
  shows "f_of_i64 n = Fin (rnd (of_int n))"
proof -
  have "\<bar>n\<bar> \<le> 2 ^ 63" using assms by (auto simp: in_i64_def)
  then have "\<bar>of_int n :: rat\<bar> \<le> of_int (2 ^ 63)" by (simp only: of_int_abs [symmetric] of_int_le_iff)
  also have "\<dots> \<le> 2 ^ 200" by simp
  finally show ?thesis unfolding f_of_i64_def by (intro round64_Fin le_half_limit)
qed

lemma f_of_i64_exact:
  assumes "\<bar>n\<bar> \<le> 2 ^ 53"
  shows "f_of_i64 n = Fin (of_int n)"
  using assms by (subst f_of_i64_Fin) (auto simp: in_i64_def rnd_int)

lemma trunc_rat_of_int [simp]: "trunc_rat (of_int n) = n"
  by (simp add: trunc_rat_def)

lemma trunc_rat_nonneg: "0 \<le> a \<Longrightarrow> trunc_rat a = \<lfloor>a\<rfloor>"
  by (simp add: trunc_rat_def)

lemma i64_of_f_Fin [f64_simps]: "0 \<le> a \<Longrightarrow> a < 2 ^ 63 \<Longrightarrow> i64_of_f (Fin a) = \<lfloor>a\<rfloor>"
  by (auto simp: trunc_rat_def in_i64_def floor_less_iff)

lemma i64_of_f_in [simp]: "in_i64 (i64_of_f x)"
  by (cases x) (simp_all add: in_i64_def)

lemma f_le_lt: "x \<noteq> NaN \<Longrightarrow> y \<noteq> NaN \<Longrightarrow> f_lt x y \<longleftrightarrow> \<not> f_le y x"
  by (cases x; cases y) auto

lemma f_le_refl: "x \<noteq> NaN \<Longrightarrow> f_le x x"
  by (cases x) auto

lemma f_le_trans: "f_le x y \<Longrightarrow> f_le y z \<Longrightarrow> f_le x z"
  by (cases x; cases y; cases z) auto

lemma f_le_not_NaN: "f_le x y \<Longrightarrow> x \<noteq> NaN \<and> y \<noteq> NaN"
  by (cases x; cases y) auto

lemma round64_not_NaN [simp]: "round64 x \<noteq> NaN"
  by (simp add: round64_def Let_def)

lemma round64_mono: "x \<le> y \<Longrightarrow> f_le (round64 x) (round64 y)"
  using rnd_mono [of x y] half_limit_less by (auto simp: round64_alt Let_def)

lemma i64_of_f_int: "in_i64 k \<Longrightarrow> i64_of_f (Fin (of_int k)) = k"
  by simp

end
