(* ===== verification/GoTime.thy ===== *)
theory GoTime
  imports F64
begin

text \<open>
  The parts of Go's \<open>time\<close> package the program uses. A \<open>time.Time\<close> is an \<open>int\<close>, the
  nanoseconds since the zero time (midnight of January 1, year 1), so \<open>IsZero\<close> is equality with 0.
  A \<open>time.Duration\<close> is an \<open>int64\<close> of nanoseconds; \<open>Sub\<close> saturates at the ends of that range.
\<close>

type_synonym time = int
type_synonym duration = i64

definition nanosecond :: duration where [const_defs]: "nanosecond = 1"
definition second :: duration where [const_defs]: "second = 1000000000"
definition minute :: duration where [const_defs]: "minute = 60000000000"
definition hour :: duration where [const_defs]: "hour = 3600000000000"

definition time_is_zero :: "time \<Rightarrow> bool" where
  "time_is_zero t \<longleftrightarrow> t = 0"

definition time_sub :: "time \<Rightarrow> time \<Rightarrow> duration" where
  "time_sub t u = max (- (2 ^ 63)) (min (2 ^ 63 - 1) (t - u))"

definition time_after :: "time \<Rightarrow> time \<Rightarrow> bool" where
  "time_after t u \<longleftrightarrow> u < t"

definition dur_seconds :: "duration \<Rightarrow> f64" where
  "dur_seconds d = f_add (f_of_i64 (d sdiv second)) (f_div (f_of_i64 (d smod second)) (Fin 1000000000))"

lemma time_sub_in [simp]: "in_i64 (time_sub t u)"
  by (simp add: time_sub_def in_i64_def)

lemma time_sub_id [i64_simps]: "in_i64 (t - u) \<Longrightarrow> time_sub t u = t - u"
  by (simp add: time_sub_def in_i64_def)

lemma time_sub_mono: "t \<le> t' \<Longrightarrow> time_sub t u \<le> time_sub t' u"
  by (simp add: time_sub_def)

lemma time_sub_le_iff: "c < 2 ^ 63 - 1 \<Longrightarrow> - (2 ^ 63) \<le> c \<Longrightarrow> time_sub t u \<le> c \<longleftrightarrow> t - u \<le> c"
  by (auto simp: time_sub_def)

lemma time_sub_ge_iff: "c \<le> 2 ^ 63 - 1 \<Longrightarrow> - (2 ^ 63) < c \<Longrightarrow> c \<le> time_sub t u \<longleftrightarrow> c \<le> t - u"
  by (auto simp: time_sub_def)

end
