(* ===== verification/Quantity.thy ===== *)
theory Quantity
  imports F64
begin

text \<open>
  \<open>resource.Quantity\<close> comes from \<open>k8s.io/apimachinery\<close>, not from this repository, so the model takes
  it as a parameter: a record \<open>Q\<close> of the operations the program calls on a quantity type \<open>'q\<close>.
  The locale \<open>quantity_laws\<close> states what the package documents of them, over the exact value
  \<open>qv\<close> of a quantity: \<open>MilliValue\<close> and \<open>Value\<close> round up, \<open>Cmp\<close> compares exact values,
  \<open>NewQuantity\<close> and \<open>NewMilliQuantity\<close> are exact. It is interpreted on \<open>exact_api\<close>, quantities
  kept as an exact rational with their print format, on which the witnesses of the development run.
\<close>

datatype qformat = DecimalExponent | BinarySI | DecimalSI

record 'q quantity_api =
  q_zero :: 'q
  q_isZero :: "'q \<Rightarrow> bool"
  q_cmp :: "'q \<Rightarrow> 'q \<Rightarrow> int"
  q_milli :: "'q \<Rightarrow> i64"
  q_value :: "'q \<Rightarrow> i64"
  q_approx :: "'q \<Rightarrow> f64"
  q_format :: "'q \<Rightarrow> qformat"
  q_newMilli :: "i64 \<Rightarrow> qformat \<Rightarrow> 'q"
  q_new :: "i64 \<Rightarrow> qformat \<Rightarrow> 'q"

locale quantity_laws =
  fixes Q :: "'q quantity_api"
    and qv :: "'q \<Rightarrow> rat"
  assumes zero_val: "qv (q_zero Q) = 0"
    and isZero_iff: "q_isZero Q a \<longleftrightarrow> qv a = 0"
    and cmp_val: "q_cmp Q a b = (if qv a < qv b then - 1 else if qv a = qv b then 0 else 1)"
    and milli_val: "0 \<le> qv a \<Longrightarrow> in_i64 \<lceil>qv a * 1000\<rceil> \<Longrightarrow> q_milli Q a = \<lceil>qv a * 1000\<rceil>"
    and value_val: "0 \<le> qv a \<Longrightarrow> in_i64 \<lceil>qv a\<rceil> \<Longrightarrow> q_value Q a = \<lceil>qv a\<rceil>"
    and milli_in: "in_i64 (q_milli Q a)"
    and value_in: "in_i64 (q_value Q a)"
    and newMilli_val: "in_i64 n \<Longrightarrow> qv (q_newMilli Q n f) = of_int n / 1000"
    and new_val: "in_i64 n \<Longrightarrow> qv (q_new Q n f) = of_int n"
begin

lemma cmp_pos_iff: "0 < q_cmp Q a b \<longleftrightarrow> qv b < qv a"
  by (auto simp: cmp_val)

lemma cmp_neg_iff: "q_cmp Q a b < 0 \<longleftrightarrow> qv a < qv b"
  by (auto simp: cmp_val)

lemma cmp_zero_iff: "q_cmp Q a b = 0 \<longleftrightarrow> qv a = qv b"
  by (auto simp: cmp_val)

lemma cmp_refl: "q_cmp Q a a = 0"
  by (simp add: cmp_zero_iff)

lemma milli_newMilli: "0 \<le> n \<Longrightarrow> in_i64 n \<Longrightarrow> q_milli Q (q_newMilli Q n f) = n"
  by (simp add: milli_val newMilli_val)

lemma value_new: "0 \<le> n \<Longrightarrow> in_i64 n \<Longrightarrow> q_value Q (q_new Q n f) = n"
  by (simp add: value_val new_val)

lemma milli_pos:
  assumes "0 < qv a" "in_i64 \<lceil>qv a * 1000\<rceil>"
  shows "0 < q_milli Q a"
  using assms by (simp add: milli_val zero_less_ceiling)

lemma value_pos:
  assumes "0 < qv a" "in_i64 \<lceil>qv a\<rceil>"
  shows "0 < q_value Q a"
  using assms by (simp add: value_val zero_less_ceiling)

lemma milli_mono:
  assumes "0 \<le> qv a" "qv a \<le> qv b" "in_i64 \<lceil>qv b * 1000\<rceil>"
  shows "q_milli Q a \<le> q_milli Q b"
proof -
  have "qv a * 1000 \<le> qv b * 1000" using assms by simp
  then have le: "\<lceil>qv a * 1000\<rceil> \<le> \<lceil>qv b * 1000\<rceil>" by (rule ceiling_mono)
  have nn: "0 \<le> \<lceil>qv a * 1000\<rceil>" using assms(1) by (simp add: zero_le_ceiling)
  have "in_i64 \<lceil>qv a * 1000\<rceil>" by (rule in_i64_between [OF in_i64_zero assms(3) nn le])
  then show ?thesis using assms le by (simp add: milli_val)
qed

lemma value_mono:
  assumes "0 \<le> qv a" "qv a \<le> qv b" "in_i64 \<lceil>qv b\<rceil>"
  shows "q_value Q a \<le> q_value Q b"
proof -
  have le: "\<lceil>qv a\<rceil> \<le> \<lceil>qv b\<rceil>" using assms(2) by (rule ceiling_mono)
  have nn: "0 \<le> \<lceil>qv a\<rceil>" using assms(1) by (simp add: zero_le_ceiling)
  have "in_i64 \<lceil>qv a\<rceil>" by (rule in_i64_between [OF in_i64_zero assms(3) nn le])
  then show ?thesis using assms le by (simp add: value_val)
qed

lemma newMilli_not_zero: "0 < n \<Longrightarrow> in_i64 n \<Longrightarrow> \<not> q_isZero Q (q_newMilli Q n f)"
  by (simp add: isZero_iff newMilli_val)

lemma new_not_zero: "0 < n \<Longrightarrow> in_i64 n \<Longrightarrow> \<not> q_isZero Q (q_new Q n f)"
  by (simp add: isZero_iff new_val)

end

section \<open>The exact reference instance\<close>

type_synonym exact_q = "rat \<times> qformat"

definition exact_api :: "exact_q quantity_api" where
  "exact_api = \<lparr>
     q_zero = (0, DecimalSI),
     q_isZero = (\<lambda>a. fst a = 0),
     q_cmp = (\<lambda>a b. if fst a < fst b then - 1 else if fst a = fst b then 0 else 1),
     q_milli = (\<lambda>a. wrap64 \<lceil>fst a * 1000\<rceil>),
     q_value = (\<lambda>a. wrap64 (if 0 \<le> fst a then \<lceil>fst a\<rceil> else \<lfloor>fst a\<rfloor>)),
     q_approx = (\<lambda>a. round64 (fst a)),
     q_format = snd,
     q_newMilli = (\<lambda>n f. (of_int n / 1000, f)),
     q_new = (\<lambda>n f. (of_int n, f)) \<rparr>"

interpretation exq: quantity_laws exact_api fst
  by unfold_locales (auto simp: exact_api_def wrap64_id)

lemma exact_api_simps [simp]:
  "q_zero exact_api = (0, DecimalSI)"
  "q_isZero exact_api a \<longleftrightarrow> fst a = 0"
  "q_cmp exact_api a b = (if fst a < fst b then - 1 else if fst a = fst b then 0 else 1)"
  "q_milli exact_api a = wrap64 \<lceil>fst a * 1000\<rceil>"
  "q_value exact_api a = wrap64 (if 0 \<le> fst a then \<lceil>fst a\<rceil> else \<lfloor>fst a\<rfloor>)"
  "q_approx exact_api a = round64 (fst a)"
  "q_format exact_api a = snd a"
  "q_newMilli exact_api n f = (of_int n / 1000, f)"
  "q_new exact_api n f = (of_int n, f)"
  by (simp_all add: exact_api_def)

definition mq :: "int \<Rightarrow> exact_q" where
  \<comment> \<open>a CPU quantity of so many millicores, for concrete examples\<close>
  "mq n = (of_int n / 1000, DecimalSI)"

definition bq :: "int \<Rightarrow> exact_q" where
  \<comment> \<open>a memory quantity of so many bytes, for concrete examples\<close>
  "bq n = (of_int n, BinarySI)"

lemma mq_simps [simp]:
  "fst (mq n) = of_int n / 1000" "snd (mq n) = DecimalSI"
  "(of_int n / 1000, DecimalSI) = mq n"
  by (simp_all add: mq_def)

lemma bq_simps [simp]:
  "fst (bq n) = of_int n" "snd (bq n) = BinarySI"
  by (simp_all add: bq_def)

lemma exact_milli_mq [simp]: "q_milli exact_api (mq n) = wrap64 n"
  by simp

lemma exact_value_bq [simp]: "q_value exact_api (bq n) = wrap64 n"
  by simp

end
