(* ===== verification/Api.thy ===== *)
theory Api
  imports GoTime Quantity
begin

text \<open>
  The data the program works on. The first section holds the types of
  \<open>api/v1alpha1/dynamicresource_types.go\<close>, field by field; a pointer field is an \<open>option\<close>, and a
  string enum is a datatype whose \<open>..Unset\<close> constructor is the empty string (the API server's
  enum validation admits no other value). The second section holds those fields of the Kubernetes
  core, apps and autoscaling objects that the program reads.
\<close>

type_synonym 'q rlist = "(string, 'q) gomap"  \<comment> \<open>\<open>corev1.ResourceList\<close>\<close>

definition ResourceCPU :: string where [const_defs]: "ResourceCPU = ''cpu''"
definition ResourceMemory :: string where [const_defs]: "ResourceMemory = ''memory''"

lemma resource_names_distinct [simp]: "ResourceCPU \<noteq> ResourceMemory" "ResourceMemory \<noteq> ResourceCPU"
  by (simp_all add: const_defs)

section \<open>The DynamicResource API\<close>

datatype update_mode = UpdateModeUnset | UpdateModeOff | UpdateModeInPlaceOnly | UpdateModeInPlaceOrRecreate

datatype controlled_values = ControlledValuesUnset | ControlledValuesRequestsAndLimits | ControlledValuesRequestsOnly

datatype container_mode = ContainerModeUnset | ContainerModeAuto | ContainerModeOff

datatype metrics_provider = MetricsProviderUnset | MetricsProviderMetricsServer | MetricsProviderPrometheus

datatype hpa_mode = HPAModeUnset | HPAModeCooperative | HPAModeIgnore

datatype hpa_state = HPAStateUnset | HPAStateIdle | HPAStateScaling | HPAStateAtMaxVertical

record 'q resource_bounds =
  Min :: 'q
  Max :: 'q

record 'q resource_policy =
  rp_CPU :: "'q resource_bounds"
  rp_Memory :: "'q resource_bounds"
  ControlledValues :: controlled_values

record 'q container_override =
  co_ContainerName :: string
  co_Mode :: container_mode
  co_CPU :: "'q resource_bounds option"
  co_Memory :: "'q resource_bounds option"

record metrics_config =
  Provider :: metrics_provider
  PollingInterval :: "duration option"
  CPUPercentile :: i32
  MemoryPercentile :: i32
  PrometheusURL :: string

record scaling_policy =
  StabilizationWindow :: "duration option"
  MaxStepPercent :: i32
  Cooldown :: "duration option"

record behavior_spec =
  ScaleUp :: "scaling_policy option"
  ScaleDown :: "scaling_policy option"

record hpa_coordination =
  hc_Mode :: hpa_mode
  ReserveHeadroomPercent :: i32
  PauseWhileHPAScaling :: "bool option"
  CooldownAfterHPA :: "duration option"

record ('q, 'ls) dr_spec =
  \<comment> \<open>\<open>'ls\<close> is the type of \<open>metav1.LabelSelector\<close>\<close>
  Selector :: 'ls
  UpdateMode :: update_mode
  Resources :: "'q resource_policy"
  ContainerOverrides :: "'q container_override list"
  MetricsCfg :: "metrics_config option"
  Behavior :: "behavior_spec option"
  HPA :: "hpa_coordination option"

record workload_reference =
  wr_Kind :: string
  wr_Name :: string

record 'q container_recommendation =
  ContainerName :: string
  Target :: "'q rlist"
  Applied :: "'q rlist"

record 'q workload_recommendation =
  Workload :: string
  Containers :: "'q container_recommendation list"

datatype condition_status = ConditionTrue | ConditionFalse | ConditionUnknown

record condition =
  \<comment> \<open>\<open>metav1.Condition\<close>, without the transition time that \<open>meta.SetStatusCondition\<close> keeps\<close>
  cond_Type :: string
  cond_Status :: condition_status
  cond_Reason :: string
  cond_Message :: string
  cond_Generation :: i64

definition ConditionReady :: string where [const_defs]: "ConditionReady = ''Ready''"
definition ConditionConflicted :: string where [const_defs]: "ConditionConflicted = ''Conflicted''"
definition ConditionResizeInfeasible :: string where [const_defs]: "ConditionResizeInfeasible = ''ResizeInfeasible''"

lemma condition_types_distinct [simp]:
  "ConditionReady \<noteq> ConditionConflicted" "ConditionConflicted \<noteq> ConditionReady"
  "ConditionReady \<noteq> ConditionResizeInfeasible" "ConditionResizeInfeasible \<noteq> ConditionReady"
  "ConditionConflicted \<noteq> ConditionResizeInfeasible" "ConditionResizeInfeasible \<noteq> ConditionConflicted"
  by (simp_all add: const_defs)

record 'q dr_status =
  Conditions :: "condition list"
  MatchedWorkloads :: "workload_reference list"
  Recommendations :: "'q workload_recommendation list"
  LastResizeTime :: "time option"
  HPAState :: hpa_state
  ObservedGeneration :: i64

record ('q, 'ls) dynamic_resource =
  dr_Namespace :: string
  dr_Name :: string
  dr_CreationTimestamp :: time
  dr_Generation :: i64
  Spec :: "('q, 'ls) dr_spec"
  Status :: "'q dr_status"

section \<open>Kubernetes objects\<close>

datatype qos_class = QOSUnset | PodQOSGuaranteed | PodQOSBurstable | PodQOSBestEffort

datatype pod_phase = PodPending | PodRunning | PodSucceeded | PodFailed | PodUnknown

record 'q container =
  c_Name :: string
  Requests :: "'q rlist"
  Limits :: "'q rlist"

record terminated_state =
  Reason :: string
  FinishedAt :: time

record container_status =
  cs_Name :: string
  LastTerminated :: "terminated_state option"

record pod_condition =
  pc_Type :: string
  pc_Reason :: string

record 'q pod =
  p_Name :: string
  DeletionTimestamp :: "time option"
  Phase :: pod_phase
  QOSClass :: qos_class
  PodConditions :: "pod_condition list"
  ContainerStatuses :: "container_status list"
  PodContainers :: "'q container list"

datatype metric_target_type = UtilizationMetricType | ValueMetricType | AverageValueMetricType

record metric_target =
  mt_Type :: metric_target_type
  AverageUtilization :: "i32 option"

datatype metric_source_type =
    ResourceMetricSourceType | ContainerResourceMetricSourceType | PodsMetricSourceType
  | ObjectMetricSourceType | ExternalMetricSourceType

record metric_spec =
  ms_Type :: metric_source_type
  ms_Resource :: "(string \<times> metric_target) option"
  ms_ContainerResource :: "(string \<times> metric_target) option"

record hpa =
  RefKind :: string
  RefName :: string
  Metrics :: "metric_spec list"
  DesiredReplicas :: i32
  CurrentReplicas :: i32
  LastScaleTime :: "time option"

record 'ls deployment =
  d_Name :: string
  d_Labels :: "(string, string) gomap"
  PodSelector :: 'ls

end
