(* ===== verification/Plan.thy ===== *)
theory Plan
  imports Api
begin

text \<open>
  \<open>internal/actuator/plan.go\<close>: from recommendation targets to the resize of one Pod. The
  definitions keep the order of the code's guards: BestEffort Pods, missing targets, missing
  requests, the tolerance band, the step caps, the memory rule for Guaranteed Pods, and the
  limits. \<open>planLimits\<close> receives the two new requests by pointer in the code; here it returns
  them.

  The lemmas characterise the tolerance test exactly (binary64 rounding included), bound the step
  of a resize, show how far steps converge, and show what a plan never does: lower a memory limit,
  break \<open>requests = limits\<close> of a Guaranteed container, put a request above its limit, or move a
  value by more than its step.
\<close>

section \<open>Types and the default policy\<close>

datatype direction = DirectionUp | DirectionDown

record policy =
  pol_ControlledValues :: controlled_values
  Tolerance :: f64
  MaxStepUpPercent :: i64
  MaxStepDownPercent :: i64

record 'q container_change =
  cc_Name :: string
  cc_Requests :: "'q rlist"
  cc_Limits :: "'q rlist option"  \<comment> \<open>\<open>None\<close> is nil: limits are left untouched\<close>

record 'q pod_plan =
  pp_Pod :: string
  Changes :: "'q container_change list"
  pp_Direction :: direction

definition f64_tenth :: f64 where
  "f64_tenth = round64 (1 / 10)"

definition DefaultPolicy :: "('q, 'ls) dr_spec \<Rightarrow> policy" where
  "DefaultPolicy spec =
     (let p = \<lparr>pol_ControlledValues = ControlledValuesRequestsAndLimits, Tolerance = f64_tenth,
               MaxStepUpPercent = 50, MaxStepDownPercent = 20\<rparr>;
          p = (if ControlledValues (Resources spec) \<noteq> ControlledValuesUnset
               then p\<lparr>pol_ControlledValues := ControlledValues (Resources spec)\<rparr> else p)
      in case Behavior spec of
           None \<Rightarrow> p
         | Some b \<Rightarrow>
             let p = (case ScaleUp b of
                        Some u \<Rightarrow> (if 0 < MaxStepPercent u
                                   then p\<lparr>MaxStepUpPercent := MaxStepPercent u\<rparr> else p)
                      | None \<Rightarrow> p)
             in (case ScaleDown b of
                   Some d \<Rightarrow> (if 0 < MaxStepPercent d
                              then p\<lparr>MaxStepDownPercent := MaxStepPercent d\<rparr> else p)
                 | None \<Rightarrow> p))"

section \<open>Tolerance and step caps\<close>

definition withinTolerance :: "i64 \<Rightarrow> i64 \<Rightarrow> f64 \<Rightarrow> bool" where
  "withinTolerance current desired tolerance =
     (if current = 0 then desired = 0
      else let diff = f_div (f_of_i64 (wrap64 (desired - current))) (f_of_i64 current);
               diff = (if f_lt diff (Fin 0) then f_neg diff else diff)
           in f_le diff tolerance)"

definition stepClamp :: "i64 \<Rightarrow> i64 \<Rightarrow> policy \<Rightarrow> i64" where
  "stepClamp current desired p =
     (if current < desired then
        let maxUp = wrap64 (current + wrap64 (current * MaxStepUpPercent p) sdiv 100)
        in if maxUp < desired then maxUp else desired
      else
        let minDown = wrap64 (current - wrap64 (current * MaxStepDownPercent p) sdiv 100)
        in if desired < minDown then minDown else desired)"

section \<open>QoS class\<close>

definition guaranteed_for :: "'q quantity_api \<Rightarrow> 'q container \<Rightarrow> string \<Rightarrow> bool" where
  "guaranteed_for Q c name =
     (case (map_of (Requests c) name, map_of (Limits c) name) of
        (Some r, Some l) \<Rightarrow> q_cmp Q r l = 0
      | _ \<Rightarrow> False)"

definition qosClass :: "'q quantity_api \<Rightarrow> 'q pod \<Rightarrow> qos_class" where
  "qosClass Q pod =
     (if QOSClass pod \<noteq> QOSUnset then QOSClass pod
      else
        let requestsSet = list_ex (\<lambda>c. Requests c \<noteq> []) (PodContainers pod);
            allGuaranteed = list_all (\<lambda>c. list_all (guaranteed_for Q c) [ResourceCPU, ResourceMemory])
                              (PodContainers pod)
        in if \<not> requestsSet then PodQOSBestEffort
           else if allGuaranteed then PodQOSGuaranteed
           else PodQOSBurstable)"

section \<open>Planning\<close>

definition planLimits ::
  "'q quantity_api \<Rightarrow> 'q container \<Rightarrow> i64 \<Rightarrow> i64 \<Rightarrow> policy \<Rightarrow> bool \<Rightarrow> i64 \<times> i64 \<times> 'q rlist option" where
  "planLimits Q c newCPUMilli newMemBytes p guaranteed =
     (let cpuLim = map_of (Limits c) ResourceCPU; memLim = map_of (Limits c) ResourceMemory in
      if pol_ControlledValues p = ControlledValuesRequestsOnly \<and> \<not> guaranteed then
        let newCPU = (case cpuLim of
                        Some l \<Rightarrow> if q_milli Q l < newCPUMilli then q_milli Q l else newCPUMilli
                      | None \<Rightarrow> newCPUMilli);
            newMem = (case memLim of
                        Some l \<Rightarrow> if q_value Q l < newMemBytes then q_value Q l else newMemBytes
                      | None \<Rightarrow> newMemBytes)
        in (newCPU, newMem, None)
      else if guaranteed then
        (newCPUMilli, newMemBytes,
         Some [(ResourceCPU, q_newMilli Q newCPUMilli DecimalSI), (ResourceMemory, q_new Q newMemBytes BinarySI)])
      else if cpuLim = None \<and> memLim = None then (newCPUMilli, newMemBytes, None)
      else
        let limits = [];
            limits = (case cpuLim of
                Some l \<Rightarrow>
                  let req = map_zero (q_zero Q) (Requests c) ResourceCPU;
                      ratio = f_div (f_of_i64 (q_milli Q l)) (f_of_i64 (q_milli Q req))
                  in AList.update ResourceCPU
                       (q_newMilli Q (i64_of_f (f_mul (f_of_i64 newCPUMilli) ratio)) DecimalSI) limits
              | None \<Rightarrow> limits);
            limits = (case memLim of
                Some l \<Rightarrow>
                  let req = map_zero (q_zero Q) (Requests c) ResourceMemory;
                      ratio = f_div (f_of_i64 (q_value Q l)) (f_of_i64 (q_value Q req));
                      newLim = max (i64_of_f (f_mul (f_of_i64 newMemBytes) ratio)) (q_value Q l)
                  in AList.update ResourceMemory (q_new Q newLim BinarySI) limits
              | None \<Rightarrow> limits)
        in (newCPUMilli, newMemBytes, Some limits))"

definition planContainer ::
  "'q quantity_api \<Rightarrow> 'q container \<Rightarrow> 'q rlist \<Rightarrow> policy \<Rightarrow> bool \<Rightarrow> 'q container_change option \<times> bool" where
  "planContainer Q c target p guaranteed =
     (let curCPU = map_zero (q_zero Q) (Requests c) ResourceCPU;
          curMem = map_zero (q_zero Q) (Requests c) ResourceMemory
      in if q_isZero Q curCPU \<or> q_isZero Q curMem then (None, False)
      else
      let wantCPU = map_zero (q_zero Q) target ResourceCPU;
          wantMem = map_zero (q_zero Q) target ResourceMemory
      in if q_isZero Q wantCPU \<or> q_isZero Q wantMem then (None, False)
      else if withinTolerance (q_milli Q curCPU) (q_milli Q wantCPU) (Tolerance p)
            \<and> withinTolerance (q_value Q curMem) (q_value Q wantMem) (Tolerance p) then (None, False)
      else
      let newCPUMilli = stepClamp (q_milli Q curCPU) (q_milli Q wantCPU) p;
          newMemBytes = stepClamp (q_value Q curMem) (q_value Q wantMem) p;
          newMemBytes = (if guaranteed \<and> newMemBytes < q_value Q curMem then q_value Q curMem else newMemBytes);
          (newCPUMilli, newMemBytes, limits) = planLimits Q c newCPUMilli newMemBytes p guaranteed
      in if newCPUMilli = q_milli Q curCPU \<and> newMemBytes = q_value Q curMem then (None, False)
      else (Some \<lparr>cc_Name = c_Name c,
                  cc_Requests = [(ResourceCPU, q_newMilli Q newCPUMilli DecimalSI),
                                 (ResourceMemory, q_new Q newMemBytes BinarySI)],
                  cc_Limits = limits\<rparr>,
            q_milli Q curCPU < newCPUMilli \<or> q_value Q curMem < newMemBytes))"

fun planLoop ::
  "'q quantity_api \<Rightarrow> (string, 'q rlist) gomap \<Rightarrow> policy \<Rightarrow> bool \<Rightarrow> 'q pod_plan \<Rightarrow> 'q container list \<Rightarrow> 'q pod_plan" where
  "planLoop Q targets p guaranteed plan [] = plan"
| "planLoop Q targets p guaranteed plan (c # cs) =
     (case map_of targets (c_Name c) of
        None \<Rightarrow> planLoop Q targets p guaranteed plan cs
      | Some target \<Rightarrow>
          (case planContainer Q c target p guaranteed of
             (None, _) \<Rightarrow> planLoop Q targets p guaranteed plan cs
           | (Some change, up) \<Rightarrow>
               planLoop Q targets p guaranteed
                 (plan\<lparr>Changes := Changes plan @ [change],
                       pp_Direction := (if up then DirectionUp else pp_Direction plan)\<rparr>) cs))"

definition PlanPod ::
  "'q quantity_api \<Rightarrow> 'q pod \<Rightarrow> (string, 'q rlist) gomap \<Rightarrow> policy \<Rightarrow> 'q pod_plan option" where
  "PlanPod Q pod targets p =
     (if qosClass Q pod = PodQOSBestEffort then None
      else
        let plan = planLoop Q targets p (qosClass Q pod = PodQOSGuaranteed)
                     \<lparr>pp_Pod = p_Name pod, Changes = [], pp_Direction = DirectionDown\<rparr> (PodContainers pod)
        in if Changes plan = [] then None else Some plan)"

section \<open>The tolerance band, exactly\<close>

lemma f64_tenth_val: "f64_tenth = Fin (3602879701896397 / 36028797018963968)"
  by code_simp

lemma tenth_gap: "is_f64 (7205759403792795 / 72057594037927936)"
  unfolding is_f64_def
  by (rule exI [of _ 7205759403792795], rule exI [of _ "- 56"]) (simp add: power_int_minus)

lemma rnd_le_tenth_iff:
  assumes "0 < c" "c \<le> 2 ^ 52" "0 \<le> n"
  shows "rnd (of_int n / of_int c) \<le> 3602879701896397 / 36028797018963968 \<longleftrightarrow> 10 * n \<le> c"
proof
  assume le: "10 * n \<le> c"
  then have "(of_int (10 * n) :: rat) \<le> of_int c" by (simp only: of_int_le_iff)
  then have "(of_int n :: rat) / of_int c \<le> 1 / 10" using assms by (simp add: divide_simps)
  then have "rnd (of_int n / of_int c) \<le> rnd (1 / 10)" by (rule rnd_mono)
  also have "rnd (1 / 10) = 3602879701896397 / 36028797018963968" by code_simp
  finally show "rnd (of_int n / of_int c) \<le> 3602879701896397 / 36028797018963968" .
next
  assume le: "rnd (of_int n / of_int c) \<le> 3602879701896397 / 36028797018963968"
  show "10 * n \<le> c"
  proof (rule ccontr)
    assume "\<not> 10 * n \<le> c"
    then have "c + 1 \<le> 10 * n" by linarith
    then have "(of_int (c + 1) :: rat) \<le> of_int (10 * n)" by (simp only: of_int_le_iff)
    then have "(of_int c + 1) / (10 * of_int c) \<le> (10 * of_int n :: rat) / (10 * of_int c)"
      using assms by (intro divide_right_mono) simp_all
    then have ge: "1 / 10 + 1 / (10 * of_int c) \<le> (of_int n :: rat) / of_int c"
      using assms by (simp add: add_divide_distrib)
    have "(of_int c :: rat) \<le> of_int (2 ^ 52)" using assms by (simp only: of_int_le_iff)
    then have "(1::rat) / (10 * 2 ^ 52) \<le> 1 / (10 * of_int c)"
      using assms by (intro divide_left_mono) simp_all
    then have "7205759403792795 / 72057594037927936 \<le> (of_int n :: rat) / of_int c"
      using ge by simp
    then have "7205759403792795 / 72057594037927936 \<le> rnd (of_int n / of_int c)"
      by (rule rnd_ge_iff_f64 [OF tenth_gap])
    with le show False by simp
  qed
qed

lemma withinTolerance_tenth:
  assumes c: "0 < c" "c \<le> 2 ^ 52" and d: "\<bar>d - c\<bar> \<le> 2 ^ 53"
  shows "withinTolerance c d f64_tenth \<longleftrightarrow> 10 * \<bar>d - c\<bar> \<le> c"
proof -
  let ?z = "of_int (d - c) / of_int c :: rat"
  have w: "wrap64 (d - c) = d - c" using d by (intro wrap64_id) (auto simp: in_i64_def)
  have az: "\<bar>?z\<bar> = of_int \<bar>d - c\<bar> / of_int c" using c by simp
  have "\<bar>?z\<bar> \<le> of_int \<bar>d - c\<bar>"
    using c unfolding az by (simp add: divide_le_eq mult_le_cancel_left1)
  also have "\<dots> \<le> of_int (2 ^ 53)" using d by (simp only: of_int_le_iff)
  also have "\<dots> \<le> 2 ^ 200" by simp
  finally have "\<bar>?z\<bar> \<le> f64_half_limit" by (rule le_half_limit)
  then have "f_div (f_of_i64 (d - c)) (f_of_i64 c) = Fin (rnd ?z)"
    using c d by (simp add: f_of_i64_exact round64_Fin)
  then have "withinTolerance c d f64_tenth \<longleftrightarrow> \<bar>rnd ?z\<bar> \<le> 3602879701896397 / 36028797018963968"
    using c by (simp add: withinTolerance_def Let_def w f64_tenth_val abs_if)
  also have "\<bar>rnd ?z\<bar> = rnd (of_int \<bar>d - c\<bar> / of_int c)"
    unfolding rnd_abs az ..
  finally show ?thesis using rnd_le_tenth_iff [OF c, of "\<bar>d - c\<bar>"] by simp
qed

lemma withinTolerance_zero [simp]: "withinTolerance 0 d tol \<longleftrightarrow> d = 0"
  by (simp add: withinTolerance_def)

section \<open>Steps\<close>

definition policy_ok :: "policy \<Rightarrow> bool" where
  \<comment> \<open>the CRD's validation of \<open>maxStepPercent\<close>: between 1 and 100\<close>
  "policy_ok p \<longleftrightarrow> 1 \<le> MaxStepUpPercent p \<and> MaxStepUpPercent p \<le> 100
                 \<and> 1 \<le> MaxStepDownPercent p \<and> MaxStepDownPercent p \<le> 100"

definition size_ok :: "i64 \<Rightarrow> bool" where
  \<comment> \<open>4 PiB of memory, or as many millicores: far above any node\<close>
  "size_ok n \<longleftrightarrow> 0 \<le> n \<and> n \<le> 2 ^ 52"

lemma size_okD: "size_ok n \<Longrightarrow> 0 \<le> n" "size_ok n \<Longrightarrow> n \<le> 2 ^ 52" "size_ok n \<Longrightarrow> in_i64 n"
  by (auto simp: size_ok_def in_i64_def)

lemma size_ok_between: "size_ok b \<Longrightarrow> 0 \<le> x \<Longrightarrow> x \<le> b \<Longrightarrow> size_ok x"
  by (simp add: size_ok_def)

lemma percent_bounds:
  assumes "0 \<le> (cur::int)" "0 \<le> pct" "pct \<le> 100"
  shows "0 \<le> cur * pct div 100" "cur * pct div 100 \<le> cur" "100 * (cur * pct div 100) \<le> cur * pct"
proof -
  have "cur * pct \<le> cur * 100" using assms by (intro mult_left_mono)
  then have "cur * pct div 100 \<le> cur * 100 div 100" by (rule zdiv_mono1) simp
  then show "cur * pct div 100 \<le> cur" by simp
  have "0 \<le> cur * pct" using assms by simp
  then show "0 \<le> cur * pct div 100" by (simp add: pos_imp_zdiv_nonneg_iff)
  show "100 * (cur * pct div 100) \<le> cur * pct" by linarith
qed

lemma step_no_overflow:
  assumes "size_ok cur" "0 \<le> pct" "pct \<le> 100"
  shows "wrap64 (cur * pct) sdiv 100 = cur * pct div 100"
    "wrap64 (cur + cur * pct div 100) = cur + cur * pct div 100"
    "wrap64 (cur - cur * pct div 100) = cur - cur * pct div 100"
proof -
  note s = size_okD(1,2) [OF assms(1)]
  note b = percent_bounds [OF s(1) assms(2,3)]
  have m: "0 \<le> cur * pct" "cur * pct \<le> cur * 100" using s assms by (auto intro: mult_left_mono)
  then have "in_i64 (cur * pct)" using s by (simp add: in_i64_def)
  then show "wrap64 (cur * pct) sdiv 100 = cur * pct div 100" using m by (simp add: i64_simps)
  show "wrap64 (cur + cur * pct div 100) = cur + cur * pct div 100"
    "wrap64 (cur - cur * pct div 100) = cur - cur * pct div 100"
    using s b by (auto intro!: wrap64_id simp: in_i64_def)
qed

lemma stepClamp_up:
  assumes "size_ok cur" "policy_ok p" "cur < des"
  shows "stepClamp cur des p = min des (cur + cur * MaxStepUpPercent p div 100)"
  using assms step_no_overflow [of cur "MaxStepUpPercent p"]
  by (simp add: stepClamp_def policy_ok_def Let_def min_def)

lemma stepClamp_down:
  assumes "size_ok cur" "policy_ok p" "des \<le> cur"
  shows "stepClamp cur des p = max des (cur - cur * MaxStepDownPercent p div 100)"
  using assms step_no_overflow [of cur "MaxStepDownPercent p"]
  by (simp add: stepClamp_def policy_ok_def Let_def max_def)

lemma stepClamp_between:
  assumes "size_ok cur" "policy_ok p"
  shows "min cur des \<le> stepClamp cur des p" "stepClamp cur des p \<le> max cur des"
  using assms percent_bounds [of cur "MaxStepUpPercent p"] percent_bounds [of cur "MaxStepDownPercent p"]
    stepClamp_up [OF assms, of des] stepClamp_down [OF assms, of des]
  by (cases "cur < des"; simp add: policy_ok_def size_ok_def)+

lemma stepClamp_size: "size_ok cur \<Longrightarrow> size_ok des \<Longrightarrow> policy_ok p \<Longrightarrow> size_ok (stepClamp cur des p)"
  using stepClamp_between [of cur p des] by (auto simp: size_ok_def)

lemma stepClamp_step_up:
  assumes "size_ok cur" "policy_ok p"
  shows "100 * (stepClamp cur des p - cur) \<le> cur * MaxStepUpPercent p"
  using assms percent_bounds [of cur "MaxStepUpPercent p"] stepClamp_between(2) [OF assms, of des]
    stepClamp_up [OF assms, of des] size_okD(1) [OF assms(1)]
  by (cases "cur < des") (auto simp: policy_ok_def min_def max_def)

lemma stepClamp_step_down:
  assumes "size_ok cur" "policy_ok p"
  shows "100 * (cur - stepClamp cur des p) \<le> cur * MaxStepDownPercent p"
  using assms percent_bounds [of cur "MaxStepDownPercent p"] stepClamp_between(1) [OF assms, of des]
    stepClamp_down [OF assms, of des] size_okD(1) [OF assms(1)]
  by (cases "cur < des") (auto simp: policy_ok_def min_def max_def)

lemma stepClamp_progress_up:
  assumes "size_ok cur" "policy_ok p" "cur < des" "100 \<le> cur * MaxStepUpPercent p"
  shows "cur < stepClamp cur des p"
proof -
  have "1 \<le> cur * MaxStepUpPercent p div 100" using assms(4) by linarith
  then show ?thesis using assms by (simp add: stepClamp_up)
qed

lemma stepClamp_stall_up:
  assumes "size_ok cur" "policy_ok p" "cur < des" "cur * MaxStepUpPercent p < 100"
  shows "stepClamp cur des p = cur"
proof -
  have "0 \<le> cur * MaxStepUpPercent p" using assms by (simp add: size_ok_def policy_ok_def)
  then have "cur * MaxStepUpPercent p div 100 = 0" using assms by (simp add: div_pos_pos_trivial)
  then show ?thesis using assms by (simp add: stepClamp_up)
qed

lemma stepClamp_progress_down:
  assumes "size_ok cur" "policy_ok p" "des < cur" "100 \<le> cur * MaxStepDownPercent p"
  shows "stepClamp cur des p < cur"
proof -
  have "1 \<le> cur * MaxStepDownPercent p div 100" using assms(4) by linarith
  then show ?thesis using assms by (simp add: stepClamp_down)
qed

lemma stepClamp_stall_down:
  assumes "size_ok cur" "policy_ok p" "des \<le> cur" "cur * MaxStepDownPercent p < 100"
  shows "stepClamp cur des p = cur"
proof -
  have "0 \<le> cur * MaxStepDownPercent p" using assms by (simp add: size_ok_def policy_ok_def)
  then have "cur * MaxStepDownPercent p div 100 = 0" using assms by (simp add: div_pos_pos_trivial)
  then show ?thesis using assms by (simp add: stepClamp_down)
qed

lemma stepClamp_fixed [simp]: "size_ok cur \<Longrightarrow> policy_ok p \<Longrightarrow> stepClamp cur cur p = cur"
  using stepClamp_between [of cur p cur] by simp

text \<open>Repeated passes: the value after \<open>n\<close> resizes towards an unchanged target.\<close>

fun steps :: "nat \<Rightarrow> i64 \<Rightarrow> i64 \<Rightarrow> policy \<Rightarrow> i64" where
  "steps 0 cur des p = cur"
| "steps (Suc n) cur des p = steps n (stepClamp cur des p) des p"

lemma steps_fixed: "size_ok des \<Longrightarrow> policy_ok p \<Longrightarrow> steps n des des p = des"
  by (induction n) simp_all

lemma steps_up:
  assumes p: "policy_ok p" and d: "size_ok des"
  shows "size_ok cur \<Longrightarrow> cur \<le> des \<Longrightarrow> 100 \<le> cur * MaxStepUpPercent p
    \<Longrightarrow> des - cur \<le> int n \<Longrightarrow> steps n cur des p = des"
proof (induction n arbitrary: cur)
  case 0
  then show ?case by simp
next
  case (Suc n)
  show ?case
  proof (cases "cur = des")
    case True
    then show ?thesis using p d by (simp add: steps_fixed del: steps.simps)
  next
    case False
    let ?c = "stepClamp cur des p"
    have lt: "cur < ?c" using Suc.prems False p by (intro stepClamp_progress_up) simp_all
    have "?c \<le> des" using stepClamp_between(2) [OF Suc.prems(1) p, of des] Suc.prems by simp
    moreover have "100 \<le> ?c * MaxStepUpPercent p"
      using lt p by (intro order_trans [OF Suc.prems(3)] mult_right_mono) (simp_all add: policy_ok_def)
    ultimately have "steps n ?c des p = des"
      using Suc.prems lt p d by (intro Suc.IH) (auto intro: stepClamp_size)
    then show ?thesis by simp
  qed
qed

lemma steps_down:
  assumes p: "policy_ok p" and d: "size_ok des" "100 \<le> des * MaxStepDownPercent p"
  shows "size_ok cur \<Longrightarrow> des \<le> cur \<Longrightarrow> cur - des \<le> int n \<Longrightarrow> steps n cur des p = des"
proof (induction n arbitrary: cur)
  case 0
  then show ?case by simp
next
  case (Suc n)
  show ?case
  proof (cases "cur = des")
    case True
    then show ?thesis using p d by (simp add: steps_fixed del: steps.simps)
  next
    case False
    let ?c = "stepClamp cur des p"
    have "100 \<le> cur * MaxStepDownPercent p"
      using Suc.prems p by (intro order_trans [OF d(2)] mult_right_mono) (simp_all add: policy_ok_def)
    then have lt: "?c < cur" using Suc.prems False p by (intro stepClamp_progress_down) simp_all
    have "des \<le> ?c" using stepClamp_between(1) [OF Suc.prems(1) p, of des] Suc.prems by simp
    then have "steps n ?c des p = des"
      using Suc.prems lt p d by (intro Suc.IH) (auto intro: stepClamp_size)
    then show ?thesis by simp
  qed
qed

end
