(* ===== verification/PlanLemmas.thy ===== *)
theory PlanLemmas
  imports Plan
begin

text \<open>
  The library of facts about \<open>plan.go\<close>: well-formed Pods and targets, the closed form of the
  planning loop, what \<open>planContainer\<close> and \<open>planLimits\<close> return branch by branch, and the effect of
  the resize patch on a Pod (\<open>apply_plan\<close>: Kubernetes merges the patched requests and limits of the
  named containers into the Pod and leaves the rest).
\<close>

section \<open>Well-formed inputs\<close>

definition cpu_ok :: "('q \<Rightarrow> rat) \<Rightarrow> 'q \<Rightarrow> bool" where
  "cpu_ok qv q \<longleftrightarrow> 0 \<le> qv q \<and> qv q * 1000 \<le> 2 ^ 52"

definition mem_ok :: "('q \<Rightarrow> rat) \<Rightarrow> 'q \<Rightarrow> bool" where
  "mem_ok qv q \<longleftrightarrow> 0 \<le> qv q \<and> qv q \<le> 2 ^ 52"

definition rlist_ok :: "('q \<Rightarrow> rat) \<Rightarrow> 'q rlist \<Rightarrow> bool" where
  "rlist_ok qv rl \<longleftrightarrow> pred_option (cpu_ok qv) (map_of rl ResourceCPU)
                     \<and> pred_option (mem_ok qv) (map_of rl ResourceMemory)"

definition request_below_limit :: "('q \<Rightarrow> rat) \<Rightarrow> string \<Rightarrow> 'q container \<Rightarrow> bool" where
  "request_below_limit qv name c \<longleftrightarrow>
     (case (map_of (Requests c) name, map_of (Limits c) name) of
        (Some r, Some l) \<Rightarrow> qv r \<le> qv l
      | _ \<Rightarrow> True)"

definition container_ok :: "('q \<Rightarrow> rat) \<Rightarrow> 'q container \<Rightarrow> bool" where
  "container_ok qv c \<longleftrightarrow> rlist_ok qv (Requests c) \<and> rlist_ok qv (Limits c)
     \<and> request_below_limit qv ResourceCPU c \<and> request_below_limit qv ResourceMemory c"

definition pod_ok :: "('q \<Rightarrow> rat) \<Rightarrow> 'q pod \<Rightarrow> bool" where
  \<comment> \<open>what the API server's validation guarantees of a Pod: container names are unique, no
      quantity is negative (or beyond 4 PiB), and no request exceeds its limit\<close>
  "pod_ok qv pod \<longleftrightarrow> distinct (map c_Name (PodContainers pod)) \<and> list_all (container_ok qv) (PodContainers pod)"

definition targets_ok :: "('q \<Rightarrow> rat) \<Rightarrow> (string, 'q rlist) gomap \<Rightarrow> bool" where
  "targets_ok qv targets \<longleftrightarrow> list_all (\<lambda>(_, t). rlist_ok qv t) targets"

definition qos_coherent :: "'q quantity_api \<Rightarrow> 'q pod \<Rightarrow> bool" where
  \<comment> \<open>a status that says Guaranteed is right: every container has requests equal to limits\<close>
  "qos_coherent Q pod \<longleftrightarrow>
     (qosClass Q pod = PodQOSGuaranteed \<longrightarrow>
        list_all (\<lambda>c. list_all (guaranteed_for Q c) [ResourceCPU, ResourceMemory]) (PodContainers pod))"

section \<open>The resize patch\<close>

definition apply_change :: "'q container_change \<Rightarrow> 'q container \<Rightarrow> 'q container" where
  "apply_change ch c =
     c\<lparr>Requests := AList.merge (Requests c) (cc_Requests ch),
       Limits := (case cc_Limits ch of None \<Rightarrow> Limits c | Some l \<Rightarrow> AList.merge (Limits c) l)\<rparr>"

definition apply_changes :: "'q container_change list \<Rightarrow> 'q container \<Rightarrow> 'q container" where
  "apply_changes chs c =
     (case List.find (\<lambda>ch. cc_Name ch = c_Name c) chs of None \<Rightarrow> c | Some ch \<Rightarrow> apply_change ch c)"

definition apply_plan :: "'q pod_plan \<Rightarrow> 'q pod \<Rightarrow> 'q pod" where
  "apply_plan plan pod = pod\<lparr>PodContainers := map (apply_changes (Changes plan)) (PodContainers pod)\<rparr>"

lemma apply_plan_simps [simp]:
  "p_Name (apply_plan plan pod) = p_Name pod"
  "QOSClass (apply_plan plan pod) = QOSClass pod"
  "PodContainers (apply_plan plan pod) = map (apply_changes (Changes plan)) (PodContainers pod)"
  by (simp_all add: apply_plan_def)

lemma apply_change_name [simp]: "c_Name (apply_change ch c) = c_Name c"
  by (simp add: apply_change_def)

lemma apply_changes_name [simp]: "c_Name (apply_changes chs c) = c_Name c"
  by (simp add: apply_changes_def split: option.split)

section \<open>The planning loop in closed form\<close>

definition planned ::
  "'q quantity_api \<Rightarrow> (string, 'q rlist) gomap \<Rightarrow> policy \<Rightarrow> bool \<Rightarrow> 'q container \<Rightarrow> 'q container_change option \<times> bool" where
  "planned Q targets p g c =
     (case map_of targets (c_Name c) of None \<Rightarrow> (None, False) | Some t \<Rightarrow> planContainer Q c t p g)"

lemma planContainer_None_up: "planContainer Q c t p g = (None, up) \<Longrightarrow> \<not> up"
  by (auto simp: planContainer_def Let_def split: if_splits prod.splits)

lemma planLoop_Changes:
  "Changes (planLoop Q targets p g plan cs) = Changes plan @ List.map_filter (fst \<circ> planned Q targets p g) cs"
  by (induction cs arbitrary: plan)
    (auto simp: planned_def List.map_filter_def split: option.splits prod.splits)

lemma planLoop_Pod: "pp_Pod (planLoop Q targets p g plan cs) = pp_Pod plan"
  by (induction cs arbitrary: plan) (auto split: option.splits prod.splits)

lemma planLoop_Direction:
  "pp_Direction (planLoop Q targets p g plan cs) =
     (if list_ex (snd \<circ> planned Q targets p g) cs then DirectionUp else pp_Direction plan)"
proof (induction cs arbitrary: plan)
  case (Cons c cs)
  show ?case
  proof (cases "map_of targets (c_Name c)")
    case None
    then show ?thesis by (simp add: Cons.IH planned_def)
  next
    case (Some t)
    obtain chg up where pc: "planContainer Q c t p g = (chg, up)" by (cases "planContainer Q c t p g")
    show ?thesis
    proof (cases chg)
      case None
      then show ?thesis using Some pc planContainer_None_up [of Q c t p g up]
        by (simp add: Cons.IH planned_def)
    next
      case (Some ch)
      then show ?thesis using \<open>map_of targets (c_Name c) = Some t\<close> pc
        by (simp add: Cons.IH planned_def)
    qed
  qed
qed simp

abbreviation plan_changes where
  "plan_changes Q pod targets p \<equiv>
     List.map_filter (fst \<circ> planned Q targets p (qosClass Q pod = PodQOSGuaranteed)) (PodContainers pod)"

lemma PlanPod_eq:
  "PlanPod Q pod targets p =
     (if qosClass Q pod = PodQOSBestEffort \<or> plan_changes Q pod targets p = [] then None
      else Some \<lparr>pp_Pod = p_Name pod, Changes = plan_changes Q pod targets p,
                 pp_Direction = (if list_ex (snd \<circ> planned Q targets p (qosClass Q pod = PodQOSGuaranteed)) (PodContainers pod)
                                 then DirectionUp else DirectionDown)\<rparr>)"
proof -
  have "planLoop Q targets p (qosClass Q pod = PodQOSGuaranteed)
          \<lparr>pp_Pod = p_Name pod, Changes = [], pp_Direction = DirectionDown\<rparr> (PodContainers pod)
      = \<lparr>pp_Pod = p_Name pod, Changes = plan_changes Q pod targets p,
         pp_Direction = (if list_ex (snd \<circ> planned Q targets p (qosClass Q pod = PodQOSGuaranteed)) (PodContainers pod)
                         then DirectionUp else DirectionDown)\<rparr>"
    by (rule pod_plan.equality) (simp_all add: planLoop_Changes planLoop_Pod planLoop_Direction)
  then show ?thesis by (simp add: PlanPod_def)
qed

lemma PlanPod_Some:
  assumes "PlanPod Q pod targets p = Some plan"
  shows "qosClass Q pod \<noteq> PodQOSBestEffort" "Changes plan = plan_changes Q pod targets p"
    "Changes plan \<noteq> []" "pp_Pod plan = p_Name pod"
    "pp_Direction plan = DirectionUp \<longleftrightarrow>
       list_ex (snd \<circ> planned Q targets p (qosClass Q pod = PodQOSGuaranteed)) (PodContainers pod)"
  using assms by (auto simp: PlanPod_eq split: if_splits)

lemma planContainer_name:
  "planContainer Q c t p g = (Some ch, up) \<Longrightarrow> cc_Name ch = c_Name c"
  by (auto simp: planContainer_def Let_def split: if_splits prod.splits)

lemma planned_name: "planned Q targets p g c = (Some ch, up) \<Longrightarrow> cc_Name ch = c_Name c"
  by (auto simp: planned_def split: option.splits dest: planContainer_name)

lemma find_changes:
  assumes "distinct (map c_Name cs)" "c \<in> set cs"
    and name: "\<And>c ch. f c = Some ch \<Longrightarrow> cc_Name ch = c_Name c"
  shows "List.find (\<lambda>ch. cc_Name ch = c_Name c) (List.map_filter f cs) = f c"
  using assms(1,2)
proof (induction cs)
  case (Cons d cs)
  have miss: "List.find (\<lambda>ch. cc_Name ch = c_Name d) (List.map_filter f cs) = None"
    unfolding find_None_iff filter_map_Some_set
  proof (rule notI, elim exE conjE)
    fix ch assume "ch \<in> {y. \<exists>x \<in> set cs. f x = Some y}" "cc_Name ch = c_Name d"
    then obtain e where "e \<in> set cs" "c_Name e = c_Name d" using name by fastforce
    then have "c_Name d \<in> c_Name ` set cs" by (metis image_eqI)
    then show False using Cons.prems(1) by simp
  qed
  show ?case
  proof (cases "c = d")
    case True
    then show ?thesis using miss name by (cases "f d") (auto simp: map_filter_simps)
  next
    case False
    then have "c \<in> set cs" using Cons.prems by simp
    moreover from this have "c_Name c \<noteq> c_Name d"
      using Cons.prems(1) by (metis distinct.simps(2) image_eqI list.map(2) list.set_map)
    ultimately show ?thesis using Cons name by (cases "f d") (auto simp: map_filter_simps)
  qed
qed simp

lemma find_planned:
  assumes "distinct (map c_Name cs)" "c \<in> set cs"
  shows "List.find (\<lambda>ch. cc_Name ch = c_Name c) (List.map_filter (fst \<circ> planned Q targets p g) cs)
    = fst (planned Q targets p g c)"
proof -
  have "cc_Name ch = c_Name d" if "(fst \<circ> planned Q targets p g) d = Some ch" for d ch
    using that planned_name [of Q targets p g d ch] by (cases "planned Q targets p g d") auto
  from find_changes [of cs c "fst \<circ> planned Q targets p g", OF assms this] show ?thesis by simp
qed

lemma apply_plan_containers:
  assumes plan: "PlanPod Q pod targets p = Some plan" and d: "distinct (map c_Name (PodContainers pod))"
  shows "PodContainers (apply_plan plan pod) =
    map (\<lambda>c. case fst (planned Q targets p (qosClass Q pod = PodQOSGuaranteed) c) of
               None \<Rightarrow> c | Some ch \<Rightarrow> apply_change ch c) (PodContainers pod)"
  using find_planned [OF d] by (auto simp: PlanPod_Some(2) [OF plan] apply_changes_def)

section \<open>Scaling a limit with its request\<close>

text \<open>
  The float64 computation \<open>int64(float64(new) * (limit / request))\<close> of a new limit. As long as the
  new request is at most twice the old one (a step is at most 100 percent) nothing overflows, and
  the new limit is not below the new request.
\<close>

definition scale_limit :: "i64 \<Rightarrow> i64 \<Rightarrow> i64 \<Rightarrow> i64" where
  "scale_limit l r n = i64_of_f (f_mul (f_of_i64 n) (f_div (f_of_i64 l) (f_of_i64 r)))"

lemma scale_limit_bounds:
  assumes r: "0 < r" "r \<le> l" and l: "size_ok l" and n: "0 \<le> n" "n \<le> 2 * r"
  shows "n \<le> scale_limit l r n" "scale_limit l r n \<le> 2 ^ 55"
proof -
  let ?q = "of_int l / of_int r :: rat"
  have lb: "l \<le> 2 ^ 52" using l by (simp add: size_ok_def)
  have rn: "\<bar>r\<bar> \<le> 2 ^ 53" "\<bar>l\<bar> \<le> 2 ^ 53" "\<bar>n\<bar> \<le> 2 ^ 53" using r n lb by (simp_all add: abs_le_iff)
  have rp: "(0::rat) < of_int r" using r by simp
  have "(of_int r :: rat) \<le> of_int l" using r by (simp only: of_int_le_iff)
  then have q1: "1 \<le> ?q" using rp by simp
  have "(of_int l :: rat) \<le> of_int (2 ^ 52)" using lb by (simp only: of_int_le_iff)
  then have lq: "(of_int l :: rat) \<le> 2 ^ 52" by simp
  have "(1::rat) \<le> of_int r" using r by simp
  then have "?q \<le> of_int l / 1" using r by (intro divide_left_mono) simp_all
  then have q2: "?q \<le> 2 ^ 52" using lq by simp
  have "\<bar>?q\<bar> \<le> f64_half_limit" using q1 q2 by (intro le_half_limit) simp
  then have d: "f_div (f_of_i64 l) (f_of_i64 r) = Fin (rnd ?q)"
    using rn r by (simp add: f_of_i64_exact round64_Fin)
  have rq1: "1 \<le> rnd ?q" using rnd_ge_iff_f64 [OF is_f64_int [of 1]] q1 by simp
  have rq2: "rnd ?q \<le> 2 * ?q" using q1 by (rule rnd_upper)
  have n0: "(0::rat) \<le> of_int n" using n by simp
  have "(of_int n :: rat) \<le> of_int (2 * r)" using n by (simp only: of_int_le_iff)
  then have "of_int n * rnd ?q \<le> of_int (2 * r) * (2 * ?q)"
    using n0 rq1 rq2 r by (intro mult_mono) simp_all
  also have "\<dots> = 4 * of_int l" using r by simp
  also have "\<dots> \<le> 2 ^ 54" using lq by simp
  finally have m2: "of_int n * rnd ?q \<le> 2 ^ 54" .
  have m1: "of_int n \<le> of_int n * rnd ?q" using n0 rq1 by (simp add: mult_le_cancel_left1)
  have "\<bar>of_int n * rnd ?q\<bar> \<le> f64_half_limit"
    using m1 m2 n0 by (intro le_half_limit) (simp add: abs_of_nonneg)
  then have m: "f_mul (f_of_i64 n) (f_div (f_of_i64 l) (f_of_i64 r)) = Fin (rnd (of_int n * rnd ?q))"
    using rn unfolding d by (simp add: f_of_i64_exact round64_Fin)
  have lo: "of_int n \<le> rnd (of_int n * rnd ?q)"
    using rn m1 by (intro rnd_ge_iff_f64 is_f64_int)
  have "is_f64 (2 ^ 54)" unfolding is_f64_def by (rule exI [of _ 1], rule exI [of _ 54]) simp
  then have hi: "rnd (of_int n * rnd ?q) \<le> 2 ^ 54" using m2 by (rule rnd_le_iff_f64)
  have e: "scale_limit l r n = \<lfloor>rnd (of_int n * rnd ?q)\<rfloor>"
    unfolding scale_limit_def m using lo hi n0 by (intro i64_of_f_Fin) simp_all
  show "n \<le> scale_limit l r n" using lo by (simp add: e le_floor_iff)
  have "\<lfloor>rnd (of_int n * rnd ?q)\<rfloor> \<le> \<lfloor>2 ^ 54 :: rat\<rfloor>" using hi by (rule floor_mono)
  then show "scale_limit l r n \<le> 2 ^ 55" by (simp add: e)
qed

section \<open>One container\<close>

abbreviation cur_cpu where "cur_cpu Q c \<equiv> q_milli Q (map_zero (q_zero Q) (Requests c) ResourceCPU)"
abbreviation cur_mem where "cur_mem Q c \<equiv> q_value Q (map_zero (q_zero Q) (Requests c) ResourceMemory)"
abbreviation want_cpu where "want_cpu Q t \<equiv> q_milli Q (map_zero (q_zero Q) t ResourceCPU)"
abbreviation want_mem where "want_mem Q t \<equiv> q_value Q (map_zero (q_zero Q) t ResourceMemory)"

definition step_cpu :: "'q quantity_api \<Rightarrow> 'q container \<Rightarrow> 'q rlist \<Rightarrow> policy \<Rightarrow> i64" where
  "step_cpu Q c t p = stepClamp (cur_cpu Q c) (want_cpu Q t) p"

definition step_mem :: "'q quantity_api \<Rightarrow> 'q container \<Rightarrow> 'q rlist \<Rightarrow> policy \<Rightarrow> bool \<Rightarrow> i64" where
  "step_mem Q c t p g =
     (let m = stepClamp (cur_mem Q c) (want_mem Q t) p in if g \<and> m < cur_mem Q c then cur_mem Q c else m)"

definition has_size :: "'q quantity_api \<Rightarrow> 'q rlist \<Rightarrow> bool" where
  "has_size Q rl \<longleftrightarrow> \<not> q_isZero Q (map_zero (q_zero Q) rl ResourceCPU)
                   \<and> \<not> q_isZero Q (map_zero (q_zero Q) rl ResourceMemory)"

lemma planContainer_SomeE:
  assumes "planContainer Q c t p g = (Some ch, up)"
  obtains ncpu nmem where
    "has_size Q (Requests c)" "has_size Q t"
    "\<not> (withinTolerance (cur_cpu Q c) (want_cpu Q t) (Tolerance p)
        \<and> withinTolerance (cur_mem Q c) (want_mem Q t) (Tolerance p))"
    "planLimits Q c (step_cpu Q c t p) (step_mem Q c t p g) p g = (ncpu, nmem, cc_Limits ch)"
    "ncpu \<noteq> cur_cpu Q c \<or> nmem \<noteq> cur_mem Q c"
    "cc_Name ch = c_Name c"
    "cc_Requests ch = [(ResourceCPU, q_newMilli Q ncpu DecimalSI), (ResourceMemory, q_new Q nmem BinarySI)]"
    "up \<longleftrightarrow> cur_cpu Q c < ncpu \<or> cur_mem Q c < nmem"
  using assms
  by (auto simp: planContainer_def step_cpu_def step_mem_def has_size_def Let_def
      split: if_splits prod.splits)

lemma planContainer_tolerance:
  "withinTolerance (cur_cpu Q c) (want_cpu Q t) (Tolerance p) \<Longrightarrow>
   withinTolerance (cur_mem Q c) (want_mem Q t) (Tolerance p) \<Longrightarrow> planContainer Q c t p g = (None, False)"
  by (simp add: planContainer_def Let_def)

lemma planLimits_requests:
  assumes "planLimits Q c n m p g = (n', m', ls)"
  shows "n' = (if pol_ControlledValues p = ControlledValuesRequestsOnly \<and> \<not> g
               then case map_of (Limits c) ResourceCPU of Some l \<Rightarrow> min n (q_milli Q l) | None \<Rightarrow> n else n)"
    and "m' = (if pol_ControlledValues p = ControlledValuesRequestsOnly \<and> \<not> g
               then case map_of (Limits c) ResourceMemory of Some l \<Rightarrow> min m (q_value Q l) | None \<Rightarrow> m else m)"
  using assms by (auto simp: planLimits_def Let_def split: if_splits option.splits)

lemma planLimits_guaranteed:
  "planLimits Q c n m p True =
     (n, m, Some [(ResourceCPU, q_newMilli Q n DecimalSI), (ResourceMemory, q_new Q m BinarySI)])"
  by (simp add: planLimits_def Let_def)

lemma planLimits_only:
  "planLimits Q c n m p False = (n', m', ls) \<Longrightarrow> pol_ControlledValues p = ControlledValuesRequestsOnly \<Longrightarrow> ls = None"
  by (simp add: planLimits_def Let_def)

lemma planLimits_scaled:
  assumes "planLimits Q c n m p False = (n', m', ls)" "pol_ControlledValues p \<noteq> ControlledValuesRequestsOnly"
  shows "ls = None \<Longrightarrow> map_of (Limits c) ResourceCPU = None \<and> map_of (Limits c) ResourceMemory = None"
    and "ls = Some lims \<Longrightarrow> map_of lims ResourceCPU =
      map_option (\<lambda>l. q_newMilli Q (scale_limit (q_milli Q l) (cur_cpu Q c) n) DecimalSI) (map_of (Limits c) ResourceCPU)"
    and "ls = Some lims \<Longrightarrow> map_of lims ResourceMemory =
      map_option (\<lambda>l. q_new Q (max (scale_limit (q_value Q l) (cur_mem Q c) m) (q_value Q l)) BinarySI)
        (map_of (Limits c) ResourceMemory)"
  using assms
  by (auto simp: planLimits_def Let_def scale_limit_def map_of_update split: if_splits option.splits)

definition within_limits :: "'q quantity_api \<Rightarrow> 'q container \<Rightarrow> bool" where
  "within_limits Q c \<longleftrightarrow>
     pred_option (\<lambda>l. cur_cpu Q c \<le> q_milli Q l) (map_of (Limits c) ResourceCPU)
   \<and> pred_option (\<lambda>l. cur_mem Q c \<le> q_value Q l) (map_of (Limits c) ResourceMemory)"

definition steady :: "'q quantity_api \<Rightarrow> ('q \<Rightarrow> rat) \<Rightarrow> policy \<Rightarrow> bool \<Rightarrow> 'q container \<Rightarrow> bool" where
  \<comment> \<open>what every pass keeps of a container: sane requests, and requests under the limits where
      the limits are never touched\<close>
  "steady Q qv p g c \<longleftrightarrow> rlist_ok qv (Requests c)
     \<and> (pol_ControlledValues p = ControlledValuesRequestsOnly \<and> \<not> g \<longrightarrow> within_limits Q c)"

context quantity_laws
begin

lemma cpu_ok_size: "cpu_ok qv q \<Longrightarrow> size_ok (q_milli Q q)"
  by (auto simp: cpu_ok_def size_ok_def milli_val in_i64_def ceiling_le_iff)

lemma mem_ok_size: "mem_ok qv q \<Longrightarrow> size_ok (q_value Q q)"
  by (auto simp: mem_ok_def size_ok_def value_val in_i64_def ceiling_le_iff)

lemma cpu_ok_pos:
  assumes "cpu_ok qv q" "\<not> q_isZero Q q"
  shows "0 < q_milli Q q"
  using assms by (intro milli_pos) (auto simp: cpu_ok_def isZero_iff in_i64_def ceiling_le_iff)

lemma mem_ok_pos:
  assumes "mem_ok qv q" "\<not> q_isZero Q q"
  shows "0 < q_value Q q"
  using assms by (intro value_pos) (auto simp: mem_ok_def isZero_iff in_i64_def ceiling_le_iff)

lemma cpu_ok_milli_mono: "cpu_ok qv a \<Longrightarrow> cpu_ok qv b \<Longrightarrow> qv a \<le> qv b \<Longrightarrow> q_milli Q a \<le> q_milli Q b"
  by (rule milli_mono) (auto simp: cpu_ok_def in_i64_def ceiling_le_iff)

lemma mem_ok_value_mono: "mem_ok qv a \<Longrightarrow> mem_ok qv b \<Longrightarrow> qv a \<le> qv b \<Longrightarrow> q_value Q a \<le> q_value Q b"
  by (rule value_mono) (auto simp: mem_ok_def in_i64_def ceiling_le_iff)

lemma rlist_ok_cpu: "rlist_ok qv rl \<Longrightarrow> cpu_ok qv (map_zero (q_zero Q) rl ResourceCPU)"
  by (cases "map_of rl ResourceCPU") (auto simp: rlist_ok_def cpu_ok_def zero_val)

lemma rlist_ok_mem: "rlist_ok qv rl \<Longrightarrow> mem_ok qv (map_zero (q_zero Q) rl ResourceMemory)"
  by (cases "map_of rl ResourceMemory") (auto simp: rlist_ok_def mem_ok_def zero_val)

lemma has_size_Some:
  assumes "has_size Q rl"
  obtains a b where "map_of rl ResourceCPU = Some a" "map_of rl ResourceMemory = Some b"
    "\<not> q_isZero Q a" "\<not> q_isZero Q b"
  using assms zero_val
  by (cases "map_of rl ResourceCPU"; cases "map_of rl ResourceMemory") (auto simp: has_size_def isZero_iff)

lemma mem_ok_le_value: "mem_ok qv q \<Longrightarrow> qv q \<le> of_int (q_value Q q)"
  by (auto simp: mem_ok_def value_val in_i64_def ceiling_le_iff)

lemma cpu_ok_le_milli: "cpu_ok qv q \<Longrightarrow> qv q * 1000 \<le> of_int (q_milli Q q)"
  by (auto simp: cpu_ok_def milli_val in_i64_def ceiling_le_iff)

lemma step_cpu_facts:
  assumes "rlist_ok qv (Requests c)" "rlist_ok qv t" "policy_ok p"
  shows "size_ok (cur_cpu Q c)" "size_ok (want_cpu Q t)" "size_ok (step_cpu Q c t p)"
    "min (cur_cpu Q c) (want_cpu Q t) \<le> step_cpu Q c t p"
    "step_cpu Q c t p \<le> max (cur_cpu Q c) (want_cpu Q t)"
    "100 * (step_cpu Q c t p - cur_cpu Q c) \<le> cur_cpu Q c * MaxStepUpPercent p"
    "100 * (cur_cpu Q c - step_cpu Q c t p) \<le> cur_cpu Q c * MaxStepDownPercent p"
proof -
  show s: "size_ok (cur_cpu Q c)" "size_ok (want_cpu Q t)"
    using assms by (auto intro: cpu_ok_size rlist_ok_cpu)
  show "size_ok (step_cpu Q c t p)" using s assms by (simp add: step_cpu_def stepClamp_size)
  show "min (cur_cpu Q c) (want_cpu Q t) \<le> step_cpu Q c t p"
    "step_cpu Q c t p \<le> max (cur_cpu Q c) (want_cpu Q t)"
    unfolding step_cpu_def by (rule stepClamp_between [OF s(1) assms(3)])+
  show "100 * (step_cpu Q c t p - cur_cpu Q c) \<le> cur_cpu Q c * MaxStepUpPercent p"
    "100 * (cur_cpu Q c - step_cpu Q c t p) \<le> cur_cpu Q c * MaxStepDownPercent p"
    unfolding step_cpu_def
    by (rule stepClamp_step_up [OF s(1) assms(3)], rule stepClamp_step_down [OF s(1) assms(3)])
qed

lemma step_mem_facts:
  assumes "rlist_ok qv (Requests c)" "rlist_ok qv t" "policy_ok p"
  shows "size_ok (cur_mem Q c)" "size_ok (want_mem Q t)" "size_ok (step_mem Q c t p g)"
    "min (cur_mem Q c) (want_mem Q t) \<le> step_mem Q c t p g"
    "step_mem Q c t p g \<le> max (cur_mem Q c) (want_mem Q t)"
    "100 * (step_mem Q c t p g - cur_mem Q c) \<le> cur_mem Q c * MaxStepUpPercent p"
    "100 * (cur_mem Q c - step_mem Q c t p g) \<le> cur_mem Q c * MaxStepDownPercent p"
    "g \<Longrightarrow> cur_mem Q c \<le> step_mem Q c t p g"
proof -
  show s: "size_ok (cur_mem Q c)" "size_ok (want_mem Q t)"
    using assms by (auto intro: mem_ok_size rlist_ok_mem)
  let ?m = "stepClamp (cur_mem Q c) (want_mem Q t) p"
  have nn: "0 \<le> cur_mem Q c * MaxStepUpPercent p" "0 \<le> cur_mem Q c * MaxStepDownPercent p"
    using s(1) assms(3) by (auto simp: size_ok_def policy_ok_def)
  note b = stepClamp_between [OF s(1) assms(3), of "want_mem Q t"]
    stepClamp_step_up [OF s(1) assms(3), of "want_mem Q t"]
    stepClamp_step_down [OF s(1) assms(3), of "want_mem Q t"]
  show "size_ok (step_mem Q c t p g)" using s assms by (simp add: step_mem_def Let_def stepClamp_size)
  show "min (cur_mem Q c) (want_mem Q t) \<le> step_mem Q c t p g"
    "step_mem Q c t p g \<le> max (cur_mem Q c) (want_mem Q t)"
    "100 * (step_mem Q c t p g - cur_mem Q c) \<le> cur_mem Q c * MaxStepUpPercent p"
    "100 * (cur_mem Q c - step_mem Q c t p g) \<le> cur_mem Q c * MaxStepDownPercent p"
    "g \<Longrightarrow> cur_mem Q c \<le> step_mem Q c t p g"
    using b nn by (auto simp: step_mem_def Let_def)
qed

lemma planLimits_between:
  assumes "planLimits Q c n m p g = (n', m', ls)" "steady Q qv p g c"
  shows "min (cur_cpu Q c) n \<le> n'" "n' \<le> n" "min (cur_mem Q c) m \<le> m'" "m' \<le> m"
  using assms(2) planLimits_requests [OF assms(1)]
  by (auto simp: steady_def within_limits_def split: option.splits)

lemma container_ok_within:
  assumes "container_ok qv c"
  shows "within_limits Q c"
proof -
  have ok: "pred_option (cpu_ok qv) (map_of (Limits c) ResourceCPU)"
    "pred_option (mem_ok qv) (map_of (Limits c) ResourceMemory)"
    "pred_option (cpu_ok qv) (map_of (Requests c) ResourceCPU)"
    "pred_option (mem_ok qv) (map_of (Requests c) ResourceMemory)"
    using assms by (simp_all add: container_ok_def rlist_ok_def)
  have z: "q_milli Q (q_zero Q) = 0" "q_value Q (q_zero Q) = 0"
    by (simp_all add: milli_val value_val zero_val in_i64_def)
  have "pred_option (\<lambda>l. cur_cpu Q c \<le> q_milli Q l) (map_of (Limits c) ResourceCPU)"
    using assms ok cpu_ok_size
    by (cases "map_of (Requests c) ResourceCPU"; cases "map_of (Limits c) ResourceCPU")
      (auto simp: container_ok_def request_below_limit_def z size_ok_def intro: cpu_ok_milli_mono)
  moreover have "pred_option (\<lambda>l. cur_mem Q c \<le> q_value Q l) (map_of (Limits c) ResourceMemory)"
    using assms ok mem_ok_size
    by (cases "map_of (Requests c) ResourceMemory"; cases "map_of (Limits c) ResourceMemory")
      (auto simp: container_ok_def request_below_limit_def z size_ok_def intro: mem_ok_value_mono)
  ultimately show ?thesis by (simp add: within_limits_def)
qed

lemma container_ok_steady: "container_ok qv c \<Longrightarrow> steady Q qv p g c"
  by (simp add: steady_def container_ok_within) (simp add: container_ok_def)

lemma has_size_cur_pos:
  assumes "rlist_ok qv (Requests c)" "has_size Q (Requests c)"
  shows "0 < cur_cpu Q c" "0 < cur_mem Q c"
  using assms by (auto simp: has_size_def intro: cpu_ok_pos mem_ok_pos rlist_ok_cpu rlist_ok_mem)

end

end
