(* ===== verification/PlanProps.thy ===== *)
theory PlanProps
  imports PlanLemmas
begin

text \<open>
  What a planned resize guarantees, stated on the Pod before and after the patch. Each property is
  a relation between a container and its patched version, proved once for \<open>planContainer\<close> inside the
  locale of the quantity laws and lifted to the Pod by \<open>apply_plan_all2\<close>.
\<close>

section \<open>Relations between a container and its patched version\<close>

definition mem_limit_kept :: "('q \<Rightarrow> rat) \<Rightarrow> 'q container \<Rightarrow> 'q container \<Rightarrow> bool" where
  "mem_limit_kept qv c c' \<longleftrightarrow>
     (case map_of (Limits c) ResourceMemory of
        None \<Rightarrow> True
      | Some l \<Rightarrow> (case map_of (Limits c') ResourceMemory of None \<Rightarrow> False | Some l' \<Rightarrow> qv l \<le> qv l'))"

definition step_respected :: "'q quantity_api \<Rightarrow> policy \<Rightarrow> 'q container \<Rightarrow> 'q container \<Rightarrow> bool" where
  "step_respected Q p c c' \<longleftrightarrow>
     100 * (cur_cpu Q c' - cur_cpu Q c) \<le> cur_cpu Q c * MaxStepUpPercent p
   \<and> 100 * (cur_cpu Q c - cur_cpu Q c') \<le> cur_cpu Q c * MaxStepDownPercent p
   \<and> 100 * (cur_mem Q c' - cur_mem Q c) \<le> cur_mem Q c * MaxStepUpPercent p
   \<and> 100 * (cur_mem Q c - cur_mem Q c') \<le> cur_mem Q c * MaxStepDownPercent p"

definition toward_target :: "'q quantity_api \<Rightarrow> (string, 'q rlist) gomap \<Rightarrow> 'q container \<Rightarrow> 'q container \<Rightarrow> bool" where
  "toward_target Q targets c c' \<longleftrightarrow>
     (case map_of targets (c_Name c) of
        None \<Rightarrow> c' = c
      | Some t \<Rightarrow>
          min (cur_cpu Q c) (want_cpu Q t) \<le> cur_cpu Q c' \<and> cur_cpu Q c' \<le> max (cur_cpu Q c) (want_cpu Q t)
        \<and> min (cur_mem Q c) (want_mem Q t) \<le> cur_mem Q c' \<and> cur_mem Q c' \<le> max (cur_mem Q c) (want_mem Q t))"

lemma map_of_merge: "map_of (AList.merge xs ys) = map_of xs ++ map_of ys"
  by (rule merge_conv')

lemma apply_plan_all2:
  assumes plan: "PlanPod Q pod targets p = Some plan"
    and d: "distinct (map c_Name (PodContainers pod))"
    and R: "\<And>c t ch up. c \<in> set (PodContainers pod) \<Longrightarrow> map_of targets (c_Name c) = Some t \<Longrightarrow>
              planContainer Q c t p (qosClass Q pod = PodQOSGuaranteed) = (Some ch, up) \<Longrightarrow> R c (apply_change ch c)"
    and r: "\<And>c. c \<in> set (PodContainers pod) \<Longrightarrow> R c c"
  shows "list_all2 R (PodContainers pod) (PodContainers (apply_plan plan pod))"
proof -
  have "R c (case fst (planned Q targets p (qosClass Q pod = PodQOSGuaranteed) c) of
               None \<Rightarrow> c | Some ch \<Rightarrow> apply_change ch c)" if c: "c \<in> set (PodContainers pod)" for c
    using r [OF c] R [OF c] by (auto simp: planned_def prod_eq_iff split: option.split)
  then show ?thesis
    unfolding apply_plan_containers [OF plan d] by (auto simp: list_all2_conv_all_nth)
qed

context quantity_laws
begin

lemma applied_requests:
  assumes "cc_Requests ch = [(ResourceCPU, q_newMilli Q n f), (ResourceMemory, q_new Q m f')]"
    and "size_ok n" "size_ok m"
  shows "cur_cpu Q (apply_change ch c) = n" "cur_mem Q (apply_change ch c) = m"
    "map_of (Requests (apply_change ch c)) ResourceCPU = Some (q_newMilli Q n f)"
    "map_of (Requests (apply_change ch c)) ResourceMemory = Some (q_new Q m f')"
proof -
  show r: "map_of (Requests (apply_change ch c)) ResourceCPU = Some (q_newMilli Q n f)"
    "map_of (Requests (apply_change ch c)) ResourceMemory = Some (q_new Q m f')"
    by (simp_all add: apply_change_def map_of_update assms(1))
  show "cur_cpu Q (apply_change ch c) = n" "cur_mem Q (apply_change ch c) = m"
    using r size_okD [OF assms(2)] size_okD [OF assms(3)]
    by (simp_all add: milli_newMilli value_new)
qed

lemma planContainer_facts:
  assumes c: "steady Q qv p g c" and t: "rlist_ok qv t" and p: "policy_ok p"
    and pc: "planContainer Q c t p g = (Some ch, up)"
  obtains n m where
    "cur_cpu Q (apply_change ch c) = n" "cur_mem Q (apply_change ch c) = m"
    "map_of (Requests (apply_change ch c)) ResourceCPU = Some (q_newMilli Q n DecimalSI)"
    "map_of (Requests (apply_change ch c)) ResourceMemory = Some (q_new Q m BinarySI)"
    "planLimits Q c (step_cpu Q c t p) (step_mem Q c t p g) p g = (n, m, cc_Limits ch)"
    "has_size Q (Requests c)" "has_size Q t" "size_ok n" "size_ok m"
    "min (cur_cpu Q c) (step_cpu Q c t p) \<le> n" "n \<le> step_cpu Q c t p"
    "min (cur_mem Q c) (step_mem Q c t p g) \<le> m" "m \<le> step_mem Q c t p g"
    "n \<noteq> cur_cpu Q c \<or> m \<noteq> cur_mem Q c" "up \<longleftrightarrow> cur_cpu Q c < n \<or> cur_mem Q c < m"
proof -
  obtain n m where
    f: "has_size Q (Requests c)" "has_size Q t"
      "planLimits Q c (step_cpu Q c t p) (step_mem Q c t p g) p g = (n, m, cc_Limits ch)"
      "n \<noteq> cur_cpu Q c \<or> m \<noteq> cur_mem Q c"
      "cc_Requests ch = [(ResourceCPU, q_newMilli Q n DecimalSI), (ResourceMemory, q_new Q m BinarySI)]"
      "up \<longleftrightarrow> cur_cpu Q c < n \<or> cur_mem Q c < m"
    by (rule planContainer_SomeE [OF pc]) blast
  have rc: "rlist_ok qv (Requests c)" using c by (simp add: steady_def)
  note b = planLimits_between [OF f(3) c]
  note sc = step_cpu_facts [OF rc t p] and sm = step_mem_facts [OF rc t p]
  have n: "size_ok n" using b(1,2) sc(1,3) by (auto simp: size_ok_def)
  have m: "size_ok m" using b(3,4) sm(1) sm(3) [of g] by (auto simp: size_ok_def)
  note a = applied_requests [OF f(5) n m]
  show ?thesis by (rule that [OF a f(3,1,2) n m b f(4,6)])
qed

lemma limits_mem_kept:
  assumes c: "container_ok qv c" and pl: "planLimits Q c n0 m0 p g = (n, m, cc_Limits ch)"
    and m: "size_ok m" and g: "g \<Longrightarrow> guaranteed_for Q c ResourceMemory" "g \<Longrightarrow> cur_mem Q c \<le> m"
  shows "mem_limit_kept qv c (apply_change ch c)"
proof (cases "map_of (Limits c) ResourceMemory")
  case None
  then show ?thesis by (simp add: mem_limit_kept_def)
next
  case (Some l)
  have ok: "mem_ok qv l" using c Some by (simp add: container_ok_def rlist_ok_def)
  have rc: "rlist_ok qv (Requests c)" using c by (simp add: container_ok_def)
  show ?thesis
  proof (cases g)
    case True
    then have lims: "cc_Limits ch = Some [(ResourceCPU, q_newMilli Q n DecimalSI), (ResourceMemory, q_new Q m BinarySI)]"
      using pl by (auto simp: planLimits_guaranteed)
    obtain r where r: "map_of (Requests c) ResourceMemory = Some r" "qv r = qv l"
      using g(1) [OF True] Some by (auto simp: guaranteed_for_def cmp_zero_iff split: option.splits)
    have "mem_ok qv r" using rc r by (simp add: rlist_ok_def)
    then have "qv l \<le> of_int (cur_mem Q c)" using mem_ok_le_value [of r] r by simp
    also have "cur_mem Q c \<le> m" by (rule g(2) [OF True])
    finally have "qv l \<le> of_int m" by simp
    then show ?thesis
      using m by (simp add: mem_limit_kept_def Some apply_change_def lims map_of_update new_val size_okD)
  next
    case False
    show ?thesis
    proof (cases "pol_ControlledValues p = ControlledValuesRequestsOnly")
      case True
      then have "cc_Limits ch = None" using pl False by (simp add: planLimits_only)
      then show ?thesis by (simp add: mem_limit_kept_def Some apply_change_def)
    next
      case nonly: False
      have pl': "planLimits Q c n0 m0 p False = (n, m, cc_Limits ch)" using pl False by simp
      obtain lims where lims: "cc_Limits ch = Some lims"
        using planLimits_scaled(1) [OF pl' nonly] Some by (cases "cc_Limits ch") auto
      let ?new = "max (scale_limit (q_value Q l) (cur_mem Q c) m0) (q_value Q l)"
      have "map_of lims ResourceMemory = Some (q_new Q ?new BinarySI)"
        using planLimits_scaled(3) [OF pl' nonly lims] Some by simp
      moreover have "in_i64 ?new"
        using mem_ok_size [OF ok] by (auto simp: scale_limit_def max_def dest: size_okD)
      moreover have "qv l \<le> of_int ?new" using mem_ok_le_value [OF ok] by (simp add: of_int_max le_max_iff_disj)
      ultimately show ?thesis
        by (simp add: mem_limit_kept_def Some apply_change_def lims map_of_merge new_val map_add_def)
    qed
  qed
qed

lemma applied_limit_mem:
  assumes c: "container_ok qv c" and t: "rlist_ok qv t" and p: "policy_ok p"
    and pc: "planContainer Q c t p g = (Some ch, up)"
    and g: "g \<Longrightarrow> guaranteed_for Q c ResourceMemory"
  shows "mem_limit_kept qv c (apply_change ch c)"
proof -
  obtain n m where
    f: "planLimits Q c (step_cpu Q c t p) (step_mem Q c t p g) p g = (n, m, cc_Limits ch)"
      "has_size Q (Requests c)" "size_ok m"
      "min (cur_mem Q c) (step_mem Q c t p g) \<le> m"
    by (rule planContainer_facts [OF container_ok_steady [OF c] t p pc]) blast
  have rc: "rlist_ok qv (Requests c)" using c by (simp add: container_ok_def)
  have "g \<Longrightarrow> cur_mem Q c \<le> m" using f(4) step_mem_facts(8) [OF rc t p, of g] by simp
  then show ?thesis by (intro limits_mem_kept [OF c f(1,3)] g)
qed

lemma applied_guaranteed:
  assumes "planContainer Q c t p True = (Some ch, up)"
  shows "guaranteed_for Q (apply_change ch c) ResourceCPU" "guaranteed_for Q (apply_change ch c) ResourceMemory"
    "Requests (apply_change ch c) \<noteq> []"
proof -
  obtain n m where
    f: "planLimits Q c (step_cpu Q c t p) (step_mem Q c t p True) p True = (n, m, cc_Limits ch)"
      "cc_Requests ch = [(ResourceCPU, q_newMilli Q n DecimalSI), (ResourceMemory, q_new Q m BinarySI)]"
    by (rule planContainer_SomeE [OF assms]) blast
  then have "cc_Limits ch = Some (cc_Requests ch)" by (auto simp: planLimits_guaranteed)
  then show "guaranteed_for Q (apply_change ch c) ResourceCPU" "guaranteed_for Q (apply_change ch c) ResourceMemory"
    using f(2) by (simp_all add: guaranteed_for_def apply_change_def map_of_update cmp_refl)
  have "map_of (Requests (apply_change ch c)) ResourceCPU \<noteq> None"
    using f(2) by (simp add: apply_change_def map_of_update)
  then show "Requests (apply_change ch c) \<noteq> []" by (cases "Requests (apply_change ch c)") simp_all
qed

lemma double_step:
  assumes "100 * (n - r) \<le> r * pct" "pct \<le> 100" "0 \<le> (r::int)"
  shows "n \<le> 2 * r"
proof -
  have "100 * (n - r) \<le> r * 100"
    using assms by (intro order_trans [OF assms(1)] mult_left_mono)
  then show ?thesis by simp
qed

lemma limits_within:
  assumes c: "container_ok qv c" and pl: "planLimits Q c n0 m0 p g = (n, m, cc_Limits ch)"
    and r: "cc_Requests ch = [(ResourceCPU, q_newMilli Q n f), (ResourceMemory, q_new Q m f')]"
    and s: "size_ok n" "size_ok m" and pos: "0 < cur_cpu Q c" "0 < cur_mem Q c"
    and two: "n0 \<le> 2 * cur_cpu Q c" "m0 \<le> 2 * cur_mem Q c"
  shows "within_limits Q (apply_change ch c)"
proof -
  note cm = applied_requests(1,2) [OF r s]
  have lim: "map_of (Limits c) ResourceCPU = Some l \<Longrightarrow> cur_cpu Q c \<le> q_milli Q l"
    "map_of (Limits c) ResourceMemory = Some l \<Longrightarrow> cur_mem Q c \<le> q_value Q l" for l
    using container_ok_within [OF c] by (simp_all add: within_limits_def)
  have okl: "map_of (Limits c) ResourceCPU = Some l \<Longrightarrow> size_ok (q_milli Q l)"
    "map_of (Limits c) ResourceMemory = Some l \<Longrightarrow> size_ok (q_value Q l)" for l
    using c by (auto simp: container_ok_def rlist_ok_def intro: cpu_ok_size mem_ok_size)
  consider g | "\<not> g" "pol_ControlledValues p = ControlledValuesRequestsOnly"
    | "\<not> g" "pol_ControlledValues p \<noteq> ControlledValuesRequestsOnly" by blast
  then show ?thesis
  proof cases
    case 1
    then have "cc_Limits ch = Some [(ResourceCPU, q_newMilli Q n DecimalSI), (ResourceMemory, q_new Q m BinarySI)]"
      using pl by (auto simp: planLimits_guaranteed)
    then have "map_of (Limits (apply_change ch c)) ResourceCPU = Some (q_newMilli Q n DecimalSI)"
      "map_of (Limits (apply_change ch c)) ResourceMemory = Some (q_new Q m BinarySI)"
      by (simp_all add: apply_change_def map_of_update)
    then show ?thesis using cm size_okD [OF s(1)] size_okD [OF s(2)]
      by (simp add: within_limits_def milli_newMilli value_new)
  next
    case 2
    have "Limits (apply_change ch c) = Limits c"
      using pl 2 by (auto simp: apply_change_def dest: planLimits_only)
    then show ?thesis
      unfolding within_limits_def cm using 2 planLimits_requests [OF pl] by (auto simp: pred_option_def)
  next
    case 3
    then have pl': "planLimits Q c n0 m0 p False = (n, m, cc_Limits ch)" using pl by simp
    have nm: "n = n0" "m = m0" using planLimits_requests [OF pl'] 3 by simp_all
    show ?thesis
    proof (cases "cc_Limits ch")
      case None
      then show ?thesis using planLimits_scaled(1) [OF pl' 3(2)]
        by (simp add: within_limits_def apply_change_def)
    next
      case (Some lims)
      note sl = planLimits_scaled(2,3) [OF pl' 3(2) Some]
      have cpu: "pred_option (\<lambda>l. n \<le> q_milli Q l) (map_of (Limits (apply_change ch c)) ResourceCPU)"
      proof (cases "map_of (Limits c) ResourceCPU")
        case None
        then show ?thesis using sl by (simp add: apply_change_def Some map_of_merge map_add_def)
      next
        case l: (Some l)
        have "n \<le> scale_limit (q_milli Q l) (cur_cpu Q c) n" "scale_limit (q_milli Q l) (cur_cpu Q c) n \<le> 2 ^ 55"
          using scale_limit_bounds [OF pos(1) lim(1) [OF l] okl(1) [OF l] _ two(1)] nm s(1) by (auto dest: size_okD)
        then show ?thesis using sl(1) l nm s(1) size_okD [OF s(1)]
          by (simp add: apply_change_def Some map_of_merge map_add_def milli_newMilli in_i64_def)
      qed
      have mem: "pred_option (\<lambda>l. m \<le> q_value Q l) (map_of (Limits (apply_change ch c)) ResourceMemory)"
      proof (cases "map_of (Limits c) ResourceMemory")
        case None
        then show ?thesis using sl by (simp add: apply_change_def Some map_of_merge map_add_def)
      next
        case l: (Some l)
        let ?new = "max (scale_limit (q_value Q l) (cur_mem Q c) m) (q_value Q l)"
        have b: "m \<le> scale_limit (q_value Q l) (cur_mem Q c) m" "scale_limit (q_value Q l) (cur_mem Q c) m \<le> 2 ^ 55"
          using scale_limit_bounds [OF pos(2) lim(2) [OF l] okl(2) [OF l] _ two(2)] nm s(2) by (auto dest: size_okD)
        have "q_value Q (q_new Q ?new BinarySI) = ?new"
          using b size_okD [OF s(2)] size_okD [OF okl(2) [OF l]] by (intro value_new) (auto simp: in_i64_def)
        then show ?thesis using sl(2) l nm b
          by (simp add: apply_change_def Some map_of_merge map_add_def)
      qed
      show ?thesis unfolding within_limits_def cm using cpu mem by simp
    qed
  qed
qed

lemma applied_within_limits:
  assumes c: "container_ok qv c" and t: "rlist_ok qv t" and p: "policy_ok p"
    and pc: "planContainer Q c t p g = (Some ch, up)"
  shows "within_limits Q (apply_change ch c)"
proof -
  obtain n m where
    f: "planLimits Q c (step_cpu Q c t p) (step_mem Q c t p g) p g = (n, m, cc_Limits ch)"
      "cc_Requests ch = [(ResourceCPU, q_newMilli Q n DecimalSI), (ResourceMemory, q_new Q m BinarySI)]"
      "has_size Q (Requests c)"
    by (rule planContainer_SomeE [OF pc]) blast
  have "size_ok n \<and> size_ok m"
    by (rule planContainer_facts [OF container_ok_steady [OF c] t p pc]) (simp add: f(1))
  then have s: "size_ok n" "size_ok m" by simp_all
  have rc: "rlist_ok qv (Requests c)" using c by (simp add: container_ok_def)
  note pos = has_size_cur_pos [OF rc f(3)]
  have "step_cpu Q c t p \<le> 2 * cur_cpu Q c" "step_mem Q c t p g \<le> 2 * cur_mem Q c"
    using step_cpu_facts(6) [OF rc t p] step_mem_facts(6) [OF rc t p, of g] p pos
    by (auto simp: policy_ok_def intro: double_step)
  then show ?thesis by (rule limits_within [OF c f(1,2) s pos])
qed

lemma applied_step:
  assumes c: "steady Q qv p g c" and t: "rlist_ok qv t" and p: "policy_ok p"
    and pc: "planContainer Q c t p g = (Some ch, up)"
  shows "step_respected Q p c (apply_change ch c)"
    and "map_of targets (c_Name c) = Some t \<Longrightarrow> toward_target Q targets c (apply_change ch c)"
proof -
  obtain n m where
    f: "cur_cpu Q (apply_change ch c) = n" "cur_mem Q (apply_change ch c) = m"
      "min (cur_cpu Q c) (step_cpu Q c t p) \<le> n" "n \<le> step_cpu Q c t p"
      "min (cur_mem Q c) (step_mem Q c t p g) \<le> m" "m \<le> step_mem Q c t p g"
    by (rule planContainer_facts [OF c t p pc]) blast
  have rc: "rlist_ok qv (Requests c)" using c by (simp add: steady_def)
  note sc = step_cpu_facts [OF rc t p] and sm = step_mem_facts [OF rc t p]
  have nn: "0 \<le> cur_cpu Q c * MaxStepDownPercent p" "0 \<le> cur_mem Q c * MaxStepDownPercent p"
    using sc(1) sm(1) p by (auto simp: size_ok_def policy_ok_def)
  show "step_respected Q p c (apply_change ch c)"
    unfolding step_respected_def f(1,2) using f(3-) sc sm(6,7) [of g] nn by (auto simp: min_le_iff_disj)
  show "toward_target Q targets c (apply_change ch c)" if "map_of targets (c_Name c) = Some t"
    unfolding toward_target_def that option.case f(1,2) using f(3-) sc(4,5) sm(4,5) [of g]
    by (auto simp: min_le_iff_disj le_max_iff_disj)
qed

lemma applied_steady:
  assumes c: "steady Q qv p g c" and t: "rlist_ok qv t" and p: "policy_ok p"
    and pc: "planContainer Q c t p g = (Some ch, up)"
  shows "steady Q qv p g (apply_change ch c)"
proof -
  obtain n m where
    f: "cur_cpu Q (apply_change ch c) = n" "cur_mem Q (apply_change ch c) = m"
      "map_of (Requests (apply_change ch c)) ResourceCPU = Some (q_newMilli Q n DecimalSI)"
      "map_of (Requests (apply_change ch c)) ResourceMemory = Some (q_new Q m BinarySI)"
      "planLimits Q c (step_cpu Q c t p) (step_mem Q c t p g) p g = (n, m, cc_Limits ch)"
      "size_ok n" "size_ok m"
    by (rule planContainer_facts [OF c t p pc]) blast
  have "cpu_ok qv (q_newMilli Q n DecimalSI)" "mem_ok qv (q_new Q m BinarySI)"
    using f(6,7) by (auto simp: cpu_ok_def mem_ok_def size_ok_def newMilli_val new_val in_i64_def)
  then have "rlist_ok qv (Requests (apply_change ch c))" by (simp add: rlist_ok_def f(3,4))
  moreover have "within_limits Q (apply_change ch c)"
    if only: "pol_ControlledValues p = ControlledValuesRequestsOnly" "\<not> g"
  proof -
    have "Limits (apply_change ch c) = Limits c"
      using f(5) only by (auto simp: apply_change_def dest: planLimits_only)
    then show ?thesis unfolding within_limits_def f(1,2) using planLimits_requests [OF f(5)] only
      by (auto simp: pred_option_def)
  qed
  ultimately show ?thesis by (simp add: steady_def)
qed

end

end
