(* ===== verification/PlanPasses.thy ===== *)
theory PlanPasses
  imports PlanProps
begin

text \<open>
  Repeated passes of the planner over one Pod. A pass plans the Pod and applies the plan; the gap of
  a Pod is the distance of its requests from the targets, summed over the containers. Every plan
  that is not nil shrinks the gap, so a Pod with unchanged targets is left alone after finitely many
  passes.
\<close>

section \<open>Facts lifted from containers to the Pod\<close>

lemma targets_okD: "targets_ok qv targets \<Longrightarrow> map_of targets n = Some t \<Longrightarrow> rlist_ok qv t"
  by (auto simp: targets_ok_def list_all_iff dest!: map_of_SomeD)

lemma pod_okD:
  assumes "pod_ok qv pod"
  shows "distinct (map c_Name (PodContainers pod))"
    and "c \<in> set (PodContainers pod) \<Longrightarrow> container_ok qv c"
  using assms by (auto simp: pod_ok_def list_all_iff)

lemma qos_coherentD:
  "qos_coherent Q pod \<Longrightarrow> qosClass Q pod = PodQOSGuaranteed \<Longrightarrow> c \<in> set (PodContainers pod) \<Longrightarrow>
   guaranteed_for Q c ResourceCPU \<and> guaranteed_for Q c ResourceMemory"
  by (auto simp: qos_coherent_def list_all_iff)

lemma apply_changes_planned:
  assumes "PlanPod Q pod targets p = Some plan" "distinct (map c_Name (PodContainers pod))"
    and "c \<in> set (PodContainers pod)"
  shows "apply_changes (Changes plan) c =
    (case fst (planned Q targets p (qosClass Q pod = PodQOSGuaranteed) c) of
       None \<Rightarrow> c | Some ch \<Rightarrow> apply_change ch c)"
  using find_planned [OF assms(2,3)] by (simp add: PlanPod_Some(2) [OF assms(1)] apply_changes_def)

lemma planned_SomeE:
  assumes "fst (planned Q targets p g c) = Some ch"
  obtains t up where "map_of targets (c_Name c) = Some t" "planContainer Q c t p g = (Some ch, up)"
    "snd (planned Q targets p g c) = up"
  using assms by (cases "map_of targets (c_Name c)"; cases "planned Q targets p g c") (auto simp: planned_def)

lemma planned_None_up: "fst (planned Q targets p g c) = None \<Longrightarrow> \<not> snd (planned Q targets p g c)"
  by (cases "planned Q targets p g c")
    (auto simp: planned_def split: option.splits dest: planContainer_None_up)

lemma PlanPod_changes_some:
  assumes "PlanPod Q pod targets p = Some plan"
  obtains c ch where "c \<in> set (PodContainers pod)"
    "fst (planned Q targets p (qosClass Q pod = PodQOSGuaranteed) c) = Some ch"
proof -
  obtain ch where "ch \<in> set (plan_changes Q pod targets p)"
    using PlanPod_Some(2,3) [OF assms] by (metis list.set_intros(1) neq_Nil_conv)
  then show ?thesis using that by (auto simp: filter_map_Some_set)
qed

section \<open>Passes and the gap\<close>

definition pod_pass ::
  "'q quantity_api \<Rightarrow> (string, 'q rlist) gomap \<Rightarrow> policy \<Rightarrow> 'q pod \<Rightarrow> 'q pod" where
  "pod_pass Q targets p pod = (case PlanPod Q pod targets p of None \<Rightarrow> pod | Some plan \<Rightarrow> apply_plan plan pod)"

fun pod_passes ::
  "nat \<Rightarrow> 'q quantity_api \<Rightarrow> (string, 'q rlist) gomap \<Rightarrow> policy \<Rightarrow> 'q pod \<Rightarrow> 'q pod" where
  "pod_passes 0 Q targets p pod = pod"
| "pod_passes (Suc n) Q targets p pod = pod_passes n Q targets p (pod_pass Q targets p pod)"

definition container_gap :: "'q quantity_api \<Rightarrow> (string, 'q rlist) gomap \<Rightarrow> 'q container \<Rightarrow> nat" where
  "container_gap Q targets c =
     (case map_of targets (c_Name c) of None \<Rightarrow> 0
      | Some t \<Rightarrow> nat \<bar>want_cpu Q t - cur_cpu Q c\<bar> + nat \<bar>want_mem Q t - cur_mem Q c\<bar>)"

definition pod_gap :: "'q quantity_api \<Rightarrow> (string, 'q rlist) gomap \<Rightarrow> 'q pod \<Rightarrow> nat" where
  "pod_gap Q targets pod = sum_list (map (container_gap Q targets) (PodContainers pod))"

definition pod_steady :: "'q quantity_api \<Rightarrow> ('q \<Rightarrow> rat) \<Rightarrow> policy \<Rightarrow> 'q pod \<Rightarrow> bool" where
  "pod_steady Q qv p pod \<longleftrightarrow> distinct (map c_Name (PodContainers pod)) \<and> QOSClass pod \<noteq> QOSUnset
     \<and> list_all (steady Q qv p (QOSClass pod = PodQOSGuaranteed)) (PodContainers pod)"

lemma qosClass_set: "QOSClass pod \<noteq> QOSUnset \<Longrightarrow> qosClass Q pod = QOSClass pod"
  by (simp add: qosClass_def)

lemma pod_passes_quiet: "PlanPod Q pod targets p = None \<Longrightarrow> pod_passes n Q targets p pod = pod"
  by (induction n) (simp_all add: pod_pass_def)

lemma sum_list_strict:
  assumes "\<And>x. x \<in> set xs \<Longrightarrow> (f x :: nat) \<le> g x" "x \<in> set xs" "f x < g x"
  shows "sum_list (map f xs) < sum_list (map g xs)"
proof -
  obtain ys zs where xs: "xs = ys @ x # zs" using assms(2) by (auto simp: in_set_conv_decomp)
  have "sum_list (map f ys) \<le> sum_list (map g ys)" "sum_list (map f zs) \<le> sum_list (map g zs)"
    using assms(1) xs by (auto intro!: sum_list_mono)
  then show ?thesis using assms(3) xs by simp
qed

lemma between_closer:
  assumes "min a w \<le> a'" "a' \<le> max a (w::int)"
  shows "nat \<bar>w - a'\<bar> \<le> nat \<bar>w - a\<bar>" "a' \<noteq> a \<Longrightarrow> nat \<bar>w - a'\<bar> < nat \<bar>w - a\<bar>"
  using assms by (auto simp: min_def max_def split: if_splits)

context quantity_laws
begin

lemma planned_up_iff:
  assumes c: "steady Q qv p g c" and t: "targets_ok qv targets" and p: "policy_ok p"
    and ch: "fst (planned Q targets p g c) = Some ch"
  shows "snd (planned Q targets p g c) \<longleftrightarrow>
    cur_cpu Q c < cur_cpu Q (apply_change ch c) \<or> cur_mem Q c < cur_mem Q (apply_change ch c)"
  using ch
proof (rule planned_SomeE)
  fix u up assume u: "map_of targets (c_Name c) = Some u" "planContainer Q c u p g = (Some ch, up)"
    "snd (planned Q targets p g c) = up"
  show ?thesis
    by (rule planContainer_facts [OF c targets_okD [OF t u(1)] p u(2)]) (simp add: u(3))
qed

lemma container_gap_decreases:
  assumes c: "steady Q qv p g c" and t: "targets_ok qv targets" and p: "policy_ok p"
    and ch: "fst (planned Q targets p g c) = Some ch"
  shows "container_gap Q targets (apply_change ch c) < container_gap Q targets c"
  using ch
proof (rule planned_SomeE)
  fix u up assume u: "map_of targets (c_Name c) = Some u" "planContainer Q c u p g = (Some ch, up)"
  note tu = targets_okD [OF t u(1)]
  let ?c = "apply_change ch c"
  have "cur_cpu Q ?c \<noteq> cur_cpu Q c \<or> cur_mem Q ?c \<noteq> cur_mem Q c"
    by (rule planContainer_facts [OF c tu p u(2)]) simp
  moreover have "toward_target Q targets c ?c" by (rule applied_step(2) [OF c tu p u(2,1)])
  then have "min (cur_cpu Q c) (want_cpu Q u) \<le> cur_cpu Q ?c" "cur_cpu Q ?c \<le> max (cur_cpu Q c) (want_cpu Q u)"
    "min (cur_mem Q c) (want_mem Q u) \<le> cur_mem Q ?c" "cur_mem Q ?c \<le> max (cur_mem Q c) (want_mem Q u)"
    by (simp_all add: toward_target_def u(1))
  note between_closer [OF this(1,2)] between_closer [OF this(3,4)]
  ultimately show ?thesis
    unfolding container_gap_def apply_change_name u(1) option.case by linarith
qed

lemma pass_steady:
  assumes s: "pod_steady Q qv p pod" and t: "targets_ok qv targets" and p: "policy_ok p"
  shows "pod_steady Q qv p (pod_pass Q targets p pod)"
proof (cases "PlanPod Q pod targets p")
  case None
  then show ?thesis using s by (simp add: pod_pass_def)
next
  case (Some plan)
  let ?g = "QOSClass pod = PodQOSGuaranteed"
  have d: "distinct (map c_Name (PodContainers pod))" and q: "qosClass Q pod = QOSClass pod"
    using s by (auto simp: pod_steady_def qosClass_def)
  have "steady Q qv p ?g (apply_changes (Changes plan) c)" if c: "c \<in> set (PodContainers pod)" for c
  proof (cases "fst (planned Q targets p ?g c)")
    case None
    then show ?thesis using s c by (simp add: apply_changes_planned [OF Some d c] q pod_steady_def list_all_iff)
  next
    case ch: (Some ch)
    have sc: "steady Q qv p ?g c" using s c by (simp add: pod_steady_def list_all_iff)
    show ?thesis using ch
    proof (rule planned_SomeE)
      fix u up assume u: "map_of targets (c_Name c) = Some u" "planContainer Q c u p ?g = (Some ch, up)"
      show ?thesis
        using applied_steady [OF sc targets_okD [OF t u(1)] p u(2)]
        by (simp add: apply_changes_planned [OF Some d c] q ch)
    qed
  qed
  moreover have "c_Name \<circ> apply_changes (Changes plan) = c_Name" by (simp add: fun_eq_iff)
  ultimately show ?thesis using s by (simp add: pod_steady_def pod_pass_def Some list_all_iff)
qed

lemma pass_gap:
  assumes s: "pod_steady Q qv p pod" and t: "targets_ok qv targets" and p: "policy_ok p"
    and plan: "PlanPod Q pod targets p = Some plan"
  shows "pod_gap Q targets (pod_pass Q targets p pod) < pod_gap Q targets pod"
proof -
  let ?g = "QOSClass pod = PodQOSGuaranteed"
  have d: "distinct (map c_Name (PodContainers pod))" and q: "qosClass Q pod = QOSClass pod"
    using s by (auto simp: pod_steady_def qosClass_def)
  have sc: "steady Q qv p ?g c" if "c \<in> set (PodContainers pod)" for c
    using s that by (simp add: pod_steady_def list_all_iff)
  have le: "container_gap Q targets (apply_changes (Changes plan) c) \<le> container_gap Q targets c"
    if c: "c \<in> set (PodContainers pod)" for c
    using container_gap_decreases [OF sc [OF c] t p]
    by (auto simp: apply_changes_planned [OF plan d c] q less_imp_le split: option.split)
  obtain c ch where c: "c \<in> set (PodContainers pod)" "fst (planned Q targets p ?g c) = Some ch"
    using PlanPod_changes_some [OF plan] q by auto
  have "container_gap Q targets (apply_changes (Changes plan) c) < container_gap Q targets c"
    using container_gap_decreases [OF sc [OF c(1)] t p c(2)] c(2)
    by (simp add: apply_changes_planned [OF plan d c(1)] q)
  then have "sum_list (map (\<lambda>c. container_gap Q targets (apply_changes (Changes plan) c)) (PodContainers pod))
      < sum_list (map (container_gap Q targets) (PodContainers pod))"
    using le c(1) by (intro sum_list_strict)
  then show ?thesis by (simp add: pod_gap_def pod_pass_def plan comp_def)
qed

lemma passes_quiesce:
  assumes "pod_steady Q qv p pod" "targets_ok qv targets" "policy_ok p" "pod_gap Q targets pod \<le> n"
  shows "PlanPod Q (pod_passes n Q targets p pod) targets p = None"
  using assms
proof (induction n arbitrary: pod)
  case 0
  then show ?case using pass_gap [OF 0(1-3)] by (cases "PlanPod Q pod targets p") auto
next
  case (Suc n)
  show ?case
  proof (cases "PlanPod Q pod targets p")
    case None
    then show ?thesis by (simp only: pod_passes_quiet)
  next
    case (Some plan)
    have "pod_gap Q targets (pod_pass Q targets p pod) \<le> n"
      using pass_gap [OF Suc.prems(1-3) Some] Suc.prems(4) by linarith
    then show ?thesis using Suc.IH [OF pass_steady [OF Suc.prems(1-3)] Suc.prems(2,3)] by simp
  qed
qed

end

end
