(* ===== verification/PlanExamples.thy ===== *)
theory PlanExamples
  imports PlanPasses
begin

text \<open>
  Concrete Pods, targets and plans on the exact quantities: a small Burstable Pod and a Guaranteed
  one, with the plans \<open>PlanPod\<close> computes for them. The witnesses of the properties run on them.
\<close>

definition ex_container :: "exact_q container" where
  "ex_container = \<lparr>c_Name = ''app'',
     Requests = [(ResourceCPU, mq 100), (ResourceMemory, bq 104857600)],
     Limits = [(ResourceCPU, mq 200), (ResourceMemory, bq 209715200)]\<rparr>"

definition ex_pod :: "exact_q pod" where
  "ex_pod = \<lparr>p_Name = ''p0'', DeletionTimestamp = None, Phase = PodRunning, QOSClass = PodQOSBurstable,
     PodConditions = [], ContainerStatuses = [], PodContainers = [ex_container]\<rparr>"

definition ex_targets :: "(string, exact_q rlist) gomap" where
  "ex_targets = [(''app'', [(ResourceCPU, mq 500), (ResourceMemory, bq 52428800)])]"

definition ex_policy :: policy where
  "ex_policy = \<lparr>pol_ControlledValues = ControlledValuesRequestsAndLimits, Tolerance = f64_tenth,
     MaxStepUpPercent = 50, MaxStepDownPercent = 20\<rparr>"

definition ex_plan :: "exact_q pod_plan" where
  "ex_plan = \<lparr>pp_Pod = ''p0'', Changes = [\<lparr>cc_Name = ''app'',
     cc_Requests = [(ResourceCPU, mq 150), (ResourceMemory, bq 83886080)],
     cc_Limits = Some [(ResourceCPU, mq 300), (ResourceMemory, bq 209715200)]\<rparr>], pp_Direction = DirectionUp\<rparr>"

lemma ex_plan_eq: "PlanPod exact_api ex_pod ex_targets ex_policy = Some ex_plan"
  by code_simp

definition ex_gcontainer :: "exact_q container" where
  "ex_gcontainer = \<lparr>c_Name = ''app'',
     Requests = [(ResourceCPU, mq 100), (ResourceMemory, bq 104857600)],
     Limits = [(ResourceCPU, mq 100), (ResourceMemory, bq 104857600)]\<rparr>"

definition ex_gpod :: "exact_q pod" where
  "ex_gpod = ex_pod\<lparr>QOSClass := PodQOSGuaranteed, PodContainers := [ex_gcontainer]\<rparr>"

definition ex_gplan :: "exact_q pod_plan" where
  "ex_gplan = \<lparr>pp_Pod = ''p0'', Changes = [\<lparr>cc_Name = ''app'',
     cc_Requests = [(ResourceCPU, mq 150), (ResourceMemory, bq 104857600)],
     cc_Limits = Some [(ResourceCPU, mq 150), (ResourceMemory, bq 104857600)]\<rparr>], pp_Direction = DirectionUp\<rparr>"

lemma ex_gplan_eq: "PlanPod exact_api ex_gpod ex_targets ex_policy = Some ex_gplan"
  by code_simp

lemma ex_ok:
  "pod_ok fst ex_pod" "pod_ok fst ex_gpod" "targets_ok fst ex_targets" "policy_ok ex_policy"
  "qos_coherent exact_api ex_pod" "qos_coherent exact_api ex_gpod"
  by (simp_all add: pod_ok_def container_ok_def rlist_ok_def request_below_limit_def cpu_ok_def mem_ok_def
      targets_ok_def policy_ok_def qos_coherent_def qosClass_def guaranteed_for_def
      ex_pod_def ex_container_def ex_gpod_def ex_gcontainer_def ex_targets_def ex_policy_def)

end
