(* ===== verification/PlanTheorems.thy ===== *)
theory PlanTheorems
  imports PlanExamples
begin

text \<open>
  The properties of \<open>plan.go\<close>, over Pods and their patched versions, with their witnesses on the
  Pods of \<open>PlanExamples\<close>.
\<close>

section \<open>Tolerance and steps\<close>

text \<open>C39. The tolerance test of \<open>withinTolerance\<close>, computed in float64 with the default band 0.10,
  decides exactly \<open>|desired - current| <= current / 10\<close>: no value at the edge of the band is
  misjudged by rounding, for every current value up to 4 PiB.\<close>

theorem tolerance_band_exact:
  assumes "0 < current" "current \<le> 2 ^ 52" "\<bar>desired - current\<bar> \<le> 2 ^ 53"
  shows "withinTolerance current desired f64_tenth \<longleftrightarrow> 10 * \<bar>desired - current\<bar> \<le> current"
  using assms by (rule withinTolerance_tenth)

theorem tolerance_band_exact_witness:
  "withinTolerance 1000 1100 f64_tenth \<and> \<not> withinTolerance 1000 1101 f64_tenth"
  using tolerance_band_exact [of 1000 1100] tolerance_band_exact [of 1000 1101] by simp

text \<open>With a target that does not move, repeated steps reach it: from any current value on which a
  single step can make progress (\<open>value * percent >= 100\<close>), at most \<open>|desired - current|\<close> passes of
  \<open>stepClamp\<close> give the desired value exactly, upwards and downwards, and it stays there.\<close>

theorem steps_reach_target:
  assumes "policy_ok p" "size_ok current" "size_ok desired"
    and "current < desired \<Longrightarrow> 100 \<le> current * MaxStepUpPercent p"
    and "desired < current \<Longrightarrow> 100 \<le> desired * MaxStepDownPercent p"
    and "nat \<bar>desired - current\<bar> \<le> n"
  shows "steps n current desired p = desired"
proof (cases "current < desired")
  case True
  then show ?thesis using assms by (intro steps_up) auto
next
  case False
  then show ?thesis using assms steps_fixed [of desired p n]
    by (cases "desired = current") (auto intro!: steps_down)
qed

theorem steps_reach_target_witness: "steps 7 10 17 ex_policy = 17"
  by (rule steps_reach_target) (simp_all add: ex_policy_def policy_ok_def size_ok_def)

text \<open>Where \<open>current * percent < 100\<close> the integer division of \<open>stepClamp\<close> rounds the step down to
  nothing: the value never moves, whatever the target and however many passes run. With the default
  50 percent a container that requests 1m of CPU can never be scaled up.\<close>

theorem small_value_never_steps:
  assumes "policy_ok p" "size_ok current" "current < desired" "current * MaxStepUpPercent p < 100"
  shows "steps n current desired p = current"
proof (induction n)
  case (Suc n)
  have "stepClamp current desired p = current" using assms by (intro stepClamp_stall_up)
  then show ?case using Suc by simp
qed simp

theorem small_value_never_steps_witness: "steps 1000 1 4000 ex_policy = 1"
  by (rule small_value_never_steps) (simp_all add: ex_policy_def policy_ok_def size_ok_def)

section \<open>What a resize never does\<close>

text \<open>C11. A resize planned by \<open>PlanPod\<close> never lowers a memory limit: in every container that has a
  memory limit, the patched Pod has one at least as large (the kubelet refuses to decrease it in
  place), whatever the targets, the policy and the QoS class.\<close>

theorem plan_keeps_memory_limits:
  assumes "quantity_laws Q qv" "pod_ok qv pod" "targets_ok qv targets" "policy_ok p" "qos_coherent Q pod"
    and "PlanPod Q pod targets p = Some plan"
  shows "list_all2 (mem_limit_kept qv) (PodContainers pod) (PodContainers (apply_plan plan pod))"
proof (rule apply_plan_all2 [OF assms(6) pod_okD(1) [OF assms(2)]])
  fix c assume "c \<in> set (PodContainers pod)"
  then show "mem_limit_kept qv c c" by (simp add: mem_limit_kept_def split: option.split)
next
  fix c t ch up assume a: "c \<in> set (PodContainers pod)" "map_of targets (c_Name c) = Some t"
    "planContainer Q c t p (qosClass Q pod = PodQOSGuaranteed) = (Some ch, up)"
  show "mem_limit_kept qv c (apply_change ch c)"
    using qos_coherentD [OF assms(5) _ a(1)]
    by (intro quantity_laws.applied_limit_mem [OF assms(1) pod_okD(2) [OF assms(2) a(1)]
          targets_okD [OF assms(3) a(2)] assms(4) a(3)]) simp
qed

theorem plan_keeps_memory_limits_witness:
  "list_all2 (mem_limit_kept fst) (PodContainers ex_gpod) (PodContainers (apply_plan ex_gplan ex_gpod))"
  by (rule plan_keeps_memory_limits [OF exq.quantity_laws_axioms ex_ok(2,3,4,6) ex_gplan_eq])



text \<open>C17. One pass moves each request by at most the configured step, and only towards its target:
  CPU and memory grow by at most \<open>scaleUp.maxStepPercent\<close> and shrink by at most
  \<open>scaleDown.maxStepPercent\<close> of the current value, and the new value lies between the current one
  and the target; containers without a target are left as they are.\<close>

theorem plan_step_bounded:
  assumes "quantity_laws Q qv" "pod_ok qv pod" "targets_ok qv targets" "policy_ok p"
    and "PlanPod Q pod targets p = Some plan"
  shows "list_all2 (\<lambda>c c'. step_respected Q p c c' \<and> toward_target Q targets c c')
           (PodContainers pod) (PodContainers (apply_plan plan pod))"
proof (rule apply_plan_all2 [OF assms(5) pod_okD(1) [OF assms(2)]])
  fix c assume c: "c \<in> set (PodContainers pod)"
  then have "rlist_ok qv (Requests c)" using pod_okD(2) [OF assms(2)] by (simp add: container_ok_def)
  note n = quantity_laws.rlist_ok_cpu [OF assms(1) this] quantity_laws.rlist_ok_mem [OF assms(1) this]
  have "0 \<le> cur_cpu Q c" "0 \<le> cur_mem Q c"
    using quantity_laws.cpu_ok_size [OF assms(1) n(1)] quantity_laws.mem_ok_size [OF assms(1) n(2)]
    by (auto dest: size_okD)
  then show "step_respected Q p c c \<and> toward_target Q targets c c"
    using assms(4) by (simp add: step_respected_def toward_target_def policy_ok_def split: option.split)
next
  fix c t ch up assume a: "c \<in> set (PodContainers pod)" "map_of targets (c_Name c) = Some t"
    "planContainer Q c t p (qosClass Q pod = PodQOSGuaranteed) = (Some ch, up)"
  note s = quantity_laws.container_ok_steady [OF assms(1) pod_okD(2) [OF assms(2) a(1)]]
    targets_okD [OF assms(3) a(2)] assms(4) a(3)
  show "step_respected Q p c (apply_change ch c) \<and> toward_target Q targets c (apply_change ch c)"
    using quantity_laws.applied_step [OF assms(1) s] a(2) by blast
qed

theorem plan_step_bounded_witness:
  "list_all2 (\<lambda>c c'. step_respected exact_api ex_policy c c' \<and> toward_target exact_api ex_targets c c')
     (PodContainers ex_pod) (PodContainers (apply_plan ex_plan ex_pod))"
  by (rule plan_step_bounded [OF exq.quantity_laws_axioms ex_ok(1,3,4) ex_plan_eq])

text \<open>A Guaranteed Pod stays Guaranteed: recomputed from the patched containers alone, as the API
  server does when it validates the resize, the QoS class is still Guaranteed.\<close>

theorem plan_keeps_guaranteed:
  assumes "quantity_laws Q qv" "pod_ok qv pod" "qos_coherent Q pod" "qosClass Q pod = PodQOSGuaranteed"
    and "PlanPod Q pod targets p = Some plan"
  shows "qosClass Q ((apply_plan plan pod)\<lparr>QOSClass := QOSUnset\<rparr>) = PodQOSGuaranteed"
proof -
  let ?G = "\<lambda>c. guaranteed_for Q c ResourceCPU \<and> guaranteed_for Q c ResourceMemory"
  have all: "list_all2 (\<lambda>_. ?G) (PodContainers pod) (PodContainers (apply_plan plan pod))"
  proof (rule apply_plan_all2 [OF assms(5) pod_okD(1) [OF assms(2)]])
    fix c assume "c \<in> set (PodContainers pod)"
    then show "?G c" using qos_coherentD [OF assms(3,4)] by simp
  next
    fix c t ch up assume "planContainer Q c t p (qosClass Q pod = PodQOSGuaranteed) = (Some ch, up)"
    then show "?G (apply_change ch c)"
      using quantity_laws.applied_guaranteed(1,2) [OF assms(1)] assms(4) by simp
  qed
  then have G: "\<forall>c \<in> set (PodContainers (apply_plan plan pod)). ?G c"
    by (auto simp: list_all2_conv_all_nth in_set_conv_nth)
  obtain c where "c \<in> set (PodContainers (apply_plan plan pod))"
    using PlanPod_changes_some [OF assms(5)] by (metis apply_plan_simps(3) image_eqI list.set_map)
  moreover from this G have "Requests c \<noteq> []" by (auto simp: guaranteed_for_def)
  ultimately have "list_ex (\<lambda>c. Requests c \<noteq> []) (PodContainers (apply_plan plan pod))"
    unfolding list_ex_iff by blast
  then show ?thesis using G by (simp add: qosClass_def list_all_iff)
qed

theorem plan_keeps_guaranteed_witness:
  "qosClass exact_api ((apply_plan ex_gplan ex_gpod)\<lparr>QOSClass := QOSUnset\<rparr>) = PodQOSGuaranteed"
  by (rule plan_keeps_guaranteed [OF exq.quantity_laws_axioms ex_ok(2,6) _ ex_gplan_eq])
    (simp add: qosClass_def ex_gpod_def)

text \<open>The direction of a plan, which selects the cooldown it is subject to, is Up exactly when
  the patched Pod has a container with a larger CPU or memory request than before.\<close>

theorem plan_direction_up_iff:
  assumes "quantity_laws Q qv" "pod_ok qv pod" "targets_ok qv targets" "policy_ok p"
    and "PlanPod Q pod targets p = Some plan"
  shows "pp_Direction plan = DirectionUp \<longleftrightarrow>
    list_ex (\<lambda>c. cur_cpu Q c < cur_cpu Q (apply_changes (Changes plan) c)
               \<or> cur_mem Q c < cur_mem Q (apply_changes (Changes plan) c)) (PodContainers pod)"
proof -
  let ?g = "qosClass Q pod = PodQOSGuaranteed"
  have "snd (planned Q targets p ?g c) \<longleftrightarrow> cur_cpu Q c < cur_cpu Q (apply_changes (Changes plan) c)
      \<or> cur_mem Q c < cur_mem Q (apply_changes (Changes plan) c)" if c: "c \<in> set (PodContainers pod)" for c
  proof (cases "fst (planned Q targets p ?g c)")
    case None
    then have "\<not> snd (planned Q targets p ?g c)"
      by (rule planned_None_up)
    then show ?thesis using None
      by (simp add: apply_changes_planned [OF assms(5) pod_okD(1) [OF assms(2)] c])
  next
    case (Some ch)
    have "steady Q qv p ?g c" by (rule quantity_laws.container_ok_steady [OF assms(1) pod_okD(2) [OF assms(2) c]])
    then show ?thesis using quantity_laws.planned_up_iff [OF assms(1) _ assms(3,4) Some]
      by (simp add: apply_changes_planned [OF assms(5) pod_okD(1) [OF assms(2)] c] Some)
  qed
  then show ?thesis unfolding PlanPod_Some(5) [OF assms(5)] by (simp add: list_ex_iff)
qed

theorem plan_direction_up_iff_witness:
  "pp_Direction ex_plan = DirectionUp \<longleftrightarrow>
    list_ex (\<lambda>c. cur_cpu exact_api c < cur_cpu exact_api (apply_changes (Changes ex_plan) c)
               \<or> cur_mem exact_api c < cur_mem exact_api (apply_changes (Changes ex_plan) c)) (PodContainers ex_pod)"
  by (rule plan_direction_up_iff [OF exq.quantity_laws_axioms ex_ok(1,3,4) ex_plan_eq])

section \<open>When nothing is planned\<close>

text \<open>No flapping: when every container with a target has both its CPU and its memory within the
  tolerance band of it, no resize is planned.\<close>

theorem plan_none_in_band:
  assumes "\<And>c t. c \<in> set (PodContainers pod) \<Longrightarrow> map_of targets (c_Name c) = Some t \<Longrightarrow>
    withinTolerance (cur_cpu Q c) (want_cpu Q t) (Tolerance p)
    \<and> withinTolerance (cur_mem Q c) (want_mem Q t) (Tolerance p)"
  shows "PlanPod Q pod targets p = None"
proof (rule ccontr)
  assume "PlanPod Q pod targets p \<noteq> None"
  then obtain plan where plan: "PlanPod Q pod targets p = Some plan" by blast
  obtain c ch where c: "c \<in> set (PodContainers pod)"
    "fst (planned Q targets p (qosClass Q pod = PodQOSGuaranteed) c) = Some ch"
    by (rule PlanPod_changes_some [OF plan])
  from c(2) show False
  proof (rule planned_SomeE)
    fix t up assume t: "map_of targets (c_Name c) = Some t"
      "planContainer Q c t p (qosClass Q pod = PodQOSGuaranteed) = (Some ch, up)"
    then show False using assms [OF c(1) t(1)] planContainer_tolerance by fastforce
  qed
qed

theorem plan_none_in_band_witness:
  "PlanPod exact_api ex_pod [(''app'', [(ResourceCPU, mq 105), (ResourceMemory, bq 110000000)])] ex_policy = None"
  by (rule plan_none_in_band)
    (auto simp: ex_pod_def ex_container_def ex_policy_def map_zero_def wrap64_id in_i64_def
      withinTolerance_tenth split: if_splits)

text \<open>C9. Resizing comes to rest: with fixed targets and no other writer, after as many passes as the
  Pod's distance from its targets (millicores and bytes, summed over its containers) \<open>PlanPod\<close>
  plans nothing more, under every policy the CRD admits.\<close>

theorem plan_passes_quiesce:
  assumes "quantity_laws Q qv" "pod_ok qv pod" "QOSClass pod \<noteq> QOSUnset" "targets_ok qv targets" "policy_ok p"
    and "pod_gap Q targets pod \<le> n"
  shows "PlanPod Q (pod_passes n Q targets p pod) targets p = None"
proof -
  have "pod_steady Q qv p pod"
    using assms(2,3) quantity_laws.container_ok_steady [OF assms(1)]
    by (auto simp: pod_steady_def pod_ok_def list_all_iff)
  then show ?thesis using quantity_laws.passes_quiesce [OF assms(1)] assms(4-6) by blast
qed

theorem plan_passes_quiesce_witness:
  "PlanPod exact_api (pod_passes (pod_gap exact_api ex_targets ex_pod) exact_api ex_targets ex_policy ex_pod)
     ex_targets ex_policy = None"
  by (rule plan_passes_quiesce [OF exq.quantity_laws_axioms ex_ok(1) _ ex_ok(3,4)]) (simp_all add: ex_pod_def)

definition ex_bcontainer :: "exact_q container" where
  "ex_bcontainer = \<lparr>c_Name = ''app'',
     Requests = [(ResourceCPU, mq 100), (ResourceMemory, bq 104857600)],
     Limits = [(ResourceCPU, mq 120), (ResourceMemory, bq 110100480)]\<rparr>"

definition ex_bpod :: "exact_q pod" where
  "ex_bpod = ex_pod\<lparr>PodContainers := [ex_bcontainer]\<rparr>"

definition ex_btargets :: "(string, exact_q rlist) gomap" where
  "ex_btargets = [(''app'', [(ResourceCPU, mq 500), (ResourceMemory, bq 209715200)])]"

text \<open>Under \<open>controlledValues: RequestsOnly\<close> the QoS class is not preserved: there is a Burstable
  Pod whose planned resize puts both requests exactly on their limits, which makes the Pod
  Guaranteed. The API server rejects a resize that changes the QoS class.\<close>

theorem requests_only_changes_qos:
  "\<exists>plan. PlanPod exact_api ex_bpod ex_btargets (ex_policy\<lparr>pol_ControlledValues := ControlledValuesRequestsOnly\<rparr>) = Some plan
     \<and> qosClass exact_api (ex_bpod\<lparr>QOSClass := QOSUnset\<rparr>) = PodQOSBurstable
     \<and> qosClass exact_api ((apply_plan plan ex_bpod)\<lparr>QOSClass := QOSUnset\<rparr>) = PodQOSGuaranteed"
proof (rule exI, intro conjI)
  show "PlanPod exact_api ex_bpod ex_btargets (ex_policy\<lparr>pol_ControlledValues := ControlledValuesRequestsOnly\<rparr>) =
    Some \<lparr>pp_Pod = ''p0'', Changes = [\<lparr>cc_Name = ''app'',
       cc_Requests = [(ResourceCPU, mq 120), (ResourceMemory, bq 110100480)], cc_Limits = None\<rparr>],
       pp_Direction = DirectionUp\<rparr>"
    by code_simp
qed code_simp+

end
