(* ===== verification/Oom.thy ===== *)
theory Oom
  imports PlanPasses
begin

text \<open>
  \<open>internal/actuator/oom.go\<close>: the containers whose last termination was a recent OOMKill, and the
  plan that bumps their memory by half without tolerance, step caps or cooldown. The lemmas give the
  float64 factor 1.5 exactly, describe the planned change of one container, and follow repeated
  bumps of one container up to its cap.
\<close>

section \<open>Definitions\<close>

definition oomLookback :: duration where "oomLookback = 15 * minute"

definition oomBumpFactor :: f64 where "oomBumpFactor = Fin (3 / 2)"

fun OOMKilledContainers :: "container_status list \<Rightarrow> time \<Rightarrow> string list" where
  "OOMKilledContainers [] now = []"
| "OOMKilledContainers (cs # rest) now =
     (case LastTerminated cs of
        None \<Rightarrow> OOMKilledContainers rest now
      | Some t \<Rightarrow>
          if Reason t \<noteq> ''OOMKilled'' then OOMKilledContainers rest now
          else if time_sub now (FinishedAt t) \<le> oomLookback then cs_Name cs # OOMKilledContainers rest now
          else OOMKilledContainers rest now)"

definition oomNewMem :: "'q quantity_api \<Rightarrow> (string, 'q) gomap \<Rightarrow> string \<Rightarrow> 'q \<Rightarrow> i64" where
  \<comment> \<open>\<open>newMem\<close> before the limits are planned: the bumped request, capped at the container's maximum\<close>
  "oomNewMem Q maxMemory name curMem =
     (let newMem = i64_of_f (f_mul (f_of_i64 (q_value Q curMem)) oomBumpFactor)
      in case map_of maxMemory name of
           Some maxQ \<Rightarrow> (if q_value Q maxQ < newMem then q_value Q maxQ else newMem)
         | None \<Rightarrow> newMem)"

definition oomContainer ::
  "'q quantity_api \<Rightarrow> string list \<Rightarrow> (string, 'q) gomap \<Rightarrow> policy \<Rightarrow> bool \<Rightarrow> 'q container \<Rightarrow> 'q container_change option" where
  "oomContainer Q oom maxMemory p guaranteed c =
     (if c_Name c \<notin> set oom then None
      else
        let curMem = map_zero (q_zero Q) (Requests c) ResourceMemory;
            curCPU = map_zero (q_zero Q) (Requests c) ResourceCPU
        in if q_isZero Q curMem \<or> q_isZero Q curCPU then None
        else
          let newMem = oomNewMem Q maxMemory (c_Name c) curMem
          in if newMem \<le> q_value Q curMem then None
          else
            let (newCPUMilli, newMem, limits) = planLimits Q c (q_milli Q curCPU) newMem p guaranteed
            in Some \<lparr>cc_Name = c_Name c,
                     cc_Requests = [(ResourceCPU, q_newMilli Q newCPUMilli DecimalSI),
                                    (ResourceMemory, q_new Q newMem BinarySI)],
                     cc_Limits = limits\<rparr>)"

fun oomLoop ::
  "'q quantity_api \<Rightarrow> string list \<Rightarrow> (string, 'q) gomap \<Rightarrow> policy \<Rightarrow> bool \<Rightarrow> 'q pod_plan \<Rightarrow> 'q container list \<Rightarrow> 'q pod_plan" where
  "oomLoop Q oom maxMemory p guaranteed plan [] = plan"
| "oomLoop Q oom maxMemory p guaranteed plan (c # cs) =
     (case oomContainer Q oom maxMemory p guaranteed c of
        None \<Rightarrow> oomLoop Q oom maxMemory p guaranteed plan cs
      | Some change \<Rightarrow>
          oomLoop Q oom maxMemory p guaranteed (plan\<lparr>Changes := Changes plan @ [change]\<rparr>) cs)"

definition PlanOOMBump ::
  "'q quantity_api \<Rightarrow> 'q pod \<Rightarrow> string list \<Rightarrow> (string, 'q) gomap \<Rightarrow> policy \<Rightarrow> 'q pod_plan option" where
  "PlanOOMBump Q pod oomContainers maxMemory p =
     (let plan = oomLoop Q oomContainers maxMemory p (qosClass Q pod = PodQOSGuaranteed)
                   \<lparr>pp_Pod = p_Name pod, Changes = [], pp_Direction = DirectionUp\<rparr> (PodContainers pod)
      in if Changes plan = [] then None else Some plan)"

section \<open>The bump\<close>

lemma is_f64_half:
  assumes "0 \<le> n" "n \<le> 2 ^ 51"
  shows "is_f64 (of_int n * (3 / 2))"
  unfolding is_f64_def
  by (rule exI [of _ "3 * n"], rule exI [of _ "- 1"]) (use assms in \<open>simp add: power_int_minus\<close>)

lemma bump_exact:
  assumes "0 \<le> n" "n \<le> 2 ^ 51"
  shows "i64_of_f (f_mul (f_of_i64 n) oomBumpFactor) = n + n div 2"
proof -
  have le: "(of_int n :: rat) \<le> of_int (2 ^ 51)" using assms(2) by (simp only: of_int_le_iff)
  have nn: "(0::rat) \<le> of_int n" using assms(1) by simp
  have "of_int n * (3 / 2) \<le> (2 ^ 52 :: rat)" using le by simp
  also have "(2 ^ 52 :: rat) \<le> 2 ^ 200" by simp
  finally have lim: "\<bar>of_int n * (3 / 2)\<bar> \<le> f64_half_limit"
    using nn by (intro le_half_limit) (simp add: abs_of_nonneg)
  have r: "rnd (of_int n * (3 / 2)) = of_int n * (3 / 2)"
    using is_f64_half [OF assms] by (rule rnd_is_f64)
  have "f_mul (f_of_i64 n) oomBumpFactor = Fin (of_int n * (3 / 2))"
    using assms by (simp add: oomBumpFactor_def f_of_i64_exact round64_Fin [OF lim] r del: times_divide_eq_right)
  moreover have "of_int n * (3 / 2) < (2 ^ 63 :: rat)" using le by simp
  ultimately have "i64_of_f (f_mul (f_of_i64 n) oomBumpFactor) = \<lfloor>of_int n * (3 / 2) :: rat\<rfloor>"
    using nn by (simp only: i64_of_f_Fin mult_nonneg_nonneg)
  also have "(of_int n * (3 / 2) :: rat) = of_int (3 * n) / of_int 2" by simp
  also have "\<lfloor>of_int (3 * n) / of_int 2 :: rat\<rfloor> = 3 * n div 2" by (rule floor_divide_of_int_eq)
  finally show ?thesis by simp
qed

section \<open>The plan in closed form\<close>

lemma oomLoop_eq:
  "oomLoop Q oom maxMemory p g plan cs =
     plan\<lparr>Changes := Changes plan @ List.map_filter (oomContainer Q oom maxMemory p g) cs\<rparr>"
  by (induction cs arbitrary: plan) (auto simp: map_filter_simps split: option.splits)

lemma PlanOOMBump_eq:
  "PlanOOMBump Q pod oom maxMemory p =
     (let chs = List.map_filter (oomContainer Q oom maxMemory p (qosClass Q pod = PodQOSGuaranteed)) (PodContainers pod)
      in if chs = [] then None
         else Some \<lparr>pp_Pod = p_Name pod, Changes = chs, pp_Direction = DirectionUp\<rparr>)"
  by (simp add: PlanOOMBump_def oomLoop_eq Let_def)

lemma oomContainer_SomeE:
  assumes "oomContainer Q oom maxMemory p g c = Some ch"
  obtains ncpu nmem where
    "c_Name c \<in> set oom" "has_size Q (Requests c)"
    "cur_mem Q c < oomNewMem Q maxMemory (c_Name c) (map_zero (q_zero Q) (Requests c) ResourceMemory)"
    "planLimits Q c (cur_cpu Q c) (oomNewMem Q maxMemory (c_Name c) (map_zero (q_zero Q) (Requests c) ResourceMemory)) p g
       = (ncpu, nmem, cc_Limits ch)"
    "cc_Name ch = c_Name c"
    "cc_Requests ch = [(ResourceCPU, q_newMilli Q ncpu DecimalSI), (ResourceMemory, q_new Q nmem BinarySI)]"
  using assms by (auto simp: oomContainer_def has_size_def Let_def split: if_splits prod.splits)

lemma oomContainer_None:
  "oomContainer Q oom maxMemory p g c = None \<longleftrightarrow>
     c_Name c \<notin> set oom \<or> \<not> has_size Q (Requests c)
     \<or> oomNewMem Q maxMemory (c_Name c) (map_zero (q_zero Q) (Requests c) ResourceMemory) \<le> cur_mem Q c"
  by (auto simp: oomContainer_def has_size_def Let_def split: prod.splits)

lemma oomContainer_name: "oomContainer Q oom maxMemory p g c = Some ch \<Longrightarrow> cc_Name ch = c_Name c"
  by (auto elim: oomContainer_SomeE)

lemma oomNewMem_eq:
  assumes "0 \<le> q_value Q m" "q_value Q m \<le> 2 ^ 51"
  shows "oomNewMem Q maxMemory name m =
    (case map_of maxMemory name of
       None \<Rightarrow> q_value Q m + q_value Q m div 2
     | Some M \<Rightarrow> min (q_value Q m + q_value Q m div 2) (q_value Q M))"
  using bump_exact [OF assms] by (auto simp: oomNewMem_def Let_def min_def split: option.split)

section \<open>Passes\<close>

definition oom_pass ::
  "'q quantity_api \<Rightarrow> string list \<Rightarrow> (string, 'q) gomap \<Rightarrow> policy \<Rightarrow> 'q pod \<Rightarrow> 'q pod" where
  "oom_pass Q oom maxMemory p pod =
     (case PlanOOMBump Q pod oom maxMemory p of None \<Rightarrow> pod | Some plan \<Rightarrow> apply_plan plan pod)"

fun oom_passes ::
  "nat \<Rightarrow> 'q quantity_api \<Rightarrow> string list \<Rightarrow> (string, 'q) gomap \<Rightarrow> policy \<Rightarrow> 'q pod \<Rightarrow> 'q pod" where
  "oom_passes 0 Q oom maxMemory p pod = pod"
| "oom_passes (Suc n) Q oom maxMemory p pod = oom_passes n Q oom maxMemory p (oom_pass Q oom maxMemory p pod)"

definition oom_container ::
  "'q quantity_api \<Rightarrow> string list \<Rightarrow> (string, 'q) gomap \<Rightarrow> policy \<Rightarrow> bool \<Rightarrow> 'q container \<Rightarrow> 'q container" where
  "oom_container Q oom maxMemory p g c =
     (case oomContainer Q oom maxMemory p g c of None \<Rightarrow> c | Some ch \<Rightarrow> apply_change ch c)"

definition oom_mem :: "'q quantity_api \<Rightarrow> string list \<Rightarrow> (string, 'q) gomap \<Rightarrow> 'q container \<Rightarrow> i64" where
  \<comment> \<open>what the fast path promises of the memory request: half as much again, at most the cap, and
      never less than before\<close>
  "oom_mem Q oom maxMemory c =
     (if c_Name c \<in> set oom \<and> has_size Q (Requests c)
      then max (cur_mem Q c)
             (case map_of maxMemory (c_Name c) of
                None \<Rightarrow> cur_mem Q c + cur_mem Q c div 2
              | Some M \<Rightarrow> min (cur_mem Q c + cur_mem Q c div 2) (q_value Q M))
      else cur_mem Q c)"

lemma oom_container_name [simp]: "c_Name (oom_container Q oom maxMemory p g c) = c_Name c"
  by (simp add: oom_container_def split: option.split)

lemma oom_pass_containers:
  assumes d: "distinct (map c_Name (PodContainers pod))"
  shows "PodContainers (oom_pass Q oom maxMemory p pod) =
    map (oom_container Q oom maxMemory p (qosClass Q pod = PodQOSGuaranteed)) (PodContainers pod)"
proof -
  let ?f = "oomContainer Q oom maxMemory p (qosClass Q pod = PodQOSGuaranteed)"
  have f: "List.find (\<lambda>ch. cc_Name ch = c_Name c) (List.map_filter ?f (PodContainers pod)) = ?f c"
    if "c \<in> set (PodContainers pod)" for c
    using find_changes [OF d that] oomContainer_name by blast
  show ?thesis
  proof (cases "PlanOOMBump Q pod oom maxMemory p")
    case None
    then have "List.map_filter ?f (PodContainers pod) = []"
      by (simp add: PlanOOMBump_eq Let_def split: if_splits)
    then have "?f c = None" if "c \<in> set (PodContainers pod)" for c using f [OF that] by simp
    then have "map (oom_container Q oom maxMemory p (qosClass Q pod = PodQOSGuaranteed)) (PodContainers pod)
        = map (\<lambda>c. c) (PodContainers pod)"
      by (intro map_cong) (simp_all add: oom_container_def)
    then show ?thesis by (simp add: oom_pass_def None)
  next
    case (Some plan)
    then have "Changes plan = List.map_filter ?f (PodContainers pod)"
      by (auto simp: PlanOOMBump_eq Let_def split: if_splits)
    then show ?thesis using f
      by (simp add: oom_pass_def Some apply_changes_def oom_container_def)
  qed
qed

lemma oom_pass_simps [simp]: "QOSClass (oom_pass Q oom maxMemory p pod) = QOSClass pod"
  by (simp add: oom_pass_def split: option.split)

lemma oom_pass_names:
  "distinct (map c_Name (PodContainers pod)) \<Longrightarrow>
   map c_Name (PodContainers (oom_pass Q oom maxMemory p pod)) = map c_Name (PodContainers pod)"
  by (simp add: oom_pass_containers)

lemma PlanOOMBump_None:
  "PlanOOMBump Q pod oom maxMemory p = None \<longleftrightarrow>
     (\<forall>c \<in> set (PodContainers pod). oomContainer Q oom maxMemory p (qosClass Q pod = PodQOSGuaranteed) c = None)"
  by (simp add: PlanOOMBump_eq Let_def map_filter_Nil_iff)

context quantity_laws
begin

lemma cur_size:
  assumes "rlist_ok qv (Requests c)"
  shows "size_ok (cur_cpu Q c)" "size_ok (cur_mem Q c)"
  using assms by (auto intro: cpu_ok_size mem_ok_size rlist_ok_cpu rlist_ok_mem)

lemma oomNewMem_cur:
  assumes "rlist_ok qv (Requests c)" "cur_mem Q c \<le> 2 ^ 51"
  shows "oomNewMem Q maxMemory (c_Name c) (map_zero (q_zero Q) (Requests c) ResourceMemory) =
    (case map_of maxMemory (c_Name c) of
       None \<Rightarrow> cur_mem Q c + cur_mem Q c div 2
     | Some M \<Rightarrow> min (cur_mem Q c + cur_mem Q c div 2) (q_value Q M))"
  using cur_size(2) [OF assms(1)] assms(2) by (intro oomNewMem_eq) (auto simp: size_ok_def)

lemma oomNewMem_bounds:
  assumes "rlist_ok qv (Requests c)" "cur_mem Q c \<le> 2 ^ 51"
  shows "oomNewMem Q maxMemory (c_Name c) (map_zero (q_zero Q) (Requests c) ResourceMemory) \<le> cur_mem Q c + cur_mem Q c div 2"
    "cur_mem Q c + cur_mem Q c div 2 \<le> 2 ^ 52" "cur_mem Q c + cur_mem Q c div 2 \<le> 2 * cur_mem Q c"
  using cur_size(2) [OF assms(1)] assms(2) by (auto simp: oomNewMem_cur [OF assms] size_ok_def split: option.split)

lemma oomContainer_facts:
  assumes c: "rlist_ok qv (Requests c)" "cur_mem Q c \<le> 2 ^ 51" "within_limits Q c"
    and ch: "oomContainer Q oom maxMemory p g c = Some ch"
  obtains n m where
    "planLimits Q c (cur_cpu Q c) (oomNewMem Q maxMemory (c_Name c) (map_zero (q_zero Q) (Requests c) ResourceMemory)) p g
       = (n, m, cc_Limits ch)"
    "cc_Requests ch = [(ResourceCPU, q_newMilli Q n DecimalSI), (ResourceMemory, q_new Q m BinarySI)]"
    "n = cur_cpu Q c" "cur_mem Q c \<le> m"
    "m \<le> oomNewMem Q maxMemory (c_Name c) (map_zero (q_zero Q) (Requests c) ResourceMemory)"
    "size_ok n" "size_ok m" "0 < cur_cpu Q c" "0 < cur_mem Q c"
proof -
  obtain n m where f: "has_size Q (Requests c)"
      "cur_mem Q c < oomNewMem Q maxMemory (c_Name c) (map_zero (q_zero Q) (Requests c) ResourceMemory)"
      "planLimits Q c (cur_cpu Q c) (oomNewMem Q maxMemory (c_Name c) (map_zero (q_zero Q) (Requests c) ResourceMemory)) p g
         = (n, m, cc_Limits ch)"
      "cc_Requests ch = [(ResourceCPU, q_newMilli Q n DecimalSI), (ResourceMemory, q_new Q m BinarySI)]"
    by (rule oomContainer_SomeE [OF ch]) blast
  note r = planLimits_requests [OF f(3)] and b = oomNewMem_bounds(1) [OF c(1,2), of maxMemory] oomNewMem_bounds(2) [OF c(1,2)]
  have n: "n = cur_cpu Q c" using r(1) c(3) by (auto simp: within_limits_def split: option.splits)
  have m: "cur_mem Q c \<le> m"
    "m \<le> oomNewMem Q maxMemory (c_Name c) (map_zero (q_zero Q) (Requests c) ResourceMemory)"
    using r(2) c(3) f(2) by (auto simp: within_limits_def split: option.splits)
  have "size_ok n" "size_ok m" using cur_size [OF c(1)] n m b by (auto simp: size_ok_def)
  then show ?thesis using that [OF f(3,4) n m] has_size_cur_pos [OF c(1) f(1)] by blast
qed

lemma oom_container_effect:
  assumes c: "rlist_ok qv (Requests c)" "cur_mem Q c \<le> 2 ^ 51"
    and p: "pol_ControlledValues p \<noteq> ControlledValuesRequestsOnly \<or> g"
  shows "cur_cpu Q (oom_container Q oom maxMemory p g c) = cur_cpu Q c"
    "cur_mem Q (oom_container Q oom maxMemory p g c) = oom_mem Q oom maxMemory c"
    "rlist_ok qv (Requests (oom_container Q oom maxMemory p g c))"
    "has_size Q (Requests (oom_container Q oom maxMemory p g c)) \<longleftrightarrow> has_size Q (Requests c)"
proof -
  let ?new = "oomNewMem Q maxMemory (c_Name c) (map_zero (q_zero Q) (Requests c) ResourceMemory)"
  have "cur_cpu Q (oom_container Q oom maxMemory p g c) = cur_cpu Q c
      \<and> cur_mem Q (oom_container Q oom maxMemory p g c) = oom_mem Q oom maxMemory c
      \<and> rlist_ok qv (Requests (oom_container Q oom maxMemory p g c))
      \<and> (has_size Q (Requests (oom_container Q oom maxMemory p g c)) \<longleftrightarrow> has_size Q (Requests c))"
  proof (cases "oomContainer Q oom maxMemory p g c")
    case None
    have "oom_mem Q oom maxMemory c = cur_mem Q c"
      using None oomNewMem_cur [OF c, of maxMemory] unfolding oomContainer_None oom_mem_def
      by (auto simp: max_absorb1)
    then show ?thesis using c(1) by (simp add: oom_container_def None)
  next
    case (Some ch)
    obtain n m where f: "c_Name c \<in> set oom" "has_size Q (Requests c)" "cur_mem Q c < ?new"
        "planLimits Q c (cur_cpu Q c) ?new p g = (n, m, cc_Limits ch)"
        "cc_Requests ch = [(ResourceCPU, q_newMilli Q n DecimalSI), (ResourceMemory, q_new Q m BinarySI)]"
      by (rule oomContainer_SomeE [OF Some]) blast
    have nm: "n = cur_cpu Q c" "m = ?new" using planLimits_requests [OF f(4)] p by auto
    note b = oomNewMem_bounds(1) [OF c, of maxMemory] oomNewMem_bounds(2) [OF c]
    have s: "size_ok n" "size_ok m" using cur_size [OF c(1)] nm b f(3) by (auto simp: size_ok_def)
    note a = applied_requests [OF f(5) s, of c]
    note pos = has_size_cur_pos [OF c(1) f(2)]
    have "?new = oom_mem Q oom maxMemory c"
      using f(1-3) unfolding oom_mem_def oomNewMem_cur [OF c] by (simp add: max_absorb2)
    moreover have "rlist_ok qv (Requests (apply_change ch c))"
      using s by (auto simp: rlist_ok_def a cpu_ok_def mem_ok_def size_ok_def newMilli_val new_val in_i64_def)
    moreover have "has_size Q (Requests (apply_change ch c))"
      using pos nm f(3) s by (auto simp: has_size_def a newMilli_not_zero new_not_zero size_okD)
    ultimately show ?thesis using f(2) by (simp add: oom_container_def Some a(1,2) nm)
  qed
  then show "cur_cpu Q (oom_container Q oom maxMemory p g c) = cur_cpu Q c"
    "cur_mem Q (oom_container Q oom maxMemory p g c) = oom_mem Q oom maxMemory c"
    "rlist_ok qv (Requests (oom_container Q oom maxMemory p g c))"
    "has_size Q (Requests (oom_container Q oom maxMemory p g c)) \<longleftrightarrow> has_size Q (Requests c)"
    by simp_all
qed

lemma oom_container_safe:
  assumes c: "container_ok qv c" "cur_mem Q c \<le> 2 ^ 51" and g: "g \<Longrightarrow> guaranteed_for Q c ResourceMemory"
  shows "mem_limit_kept qv c (oom_container Q oom maxMemory p g c)"
    "within_limits Q (oom_container Q oom maxMemory p g c)"
proof -
  have "mem_limit_kept qv c (oom_container Q oom maxMemory p g c)
    \<and> within_limits Q (oom_container Q oom maxMemory p g c)"
  proof (cases "oomContainer Q oom maxMemory p g c")
    case None
    then show ?thesis using container_ok_within [OF c(1)]
      by (simp add: oom_container_def mem_limit_kept_def split: option.split)
  next
    case (Some ch)
    have r: "rlist_ok qv (Requests c)" using c(1) by (simp add: container_ok_def)
    obtain n m where f:
      "planLimits Q c (cur_cpu Q c) (oomNewMem Q maxMemory (c_Name c) (map_zero (q_zero Q) (Requests c) ResourceMemory)) p g
         = (n, m, cc_Limits ch)"
      "cc_Requests ch = [(ResourceCPU, q_newMilli Q n DecimalSI), (ResourceMemory, q_new Q m BinarySI)]"
      "cur_mem Q c \<le> m" "size_ok n" "size_ok m" "0 < cur_cpu Q c" "0 < cur_mem Q c"
      by (rule oomContainer_facts [OF r c(2) container_ok_within [OF c(1)] Some]) blast
    have "oomNewMem Q maxMemory (c_Name c) (map_zero (q_zero Q) (Requests c) ResourceMemory) \<le> 2 * cur_mem Q c"
      using oomNewMem_bounds(1) [OF r c(2), of maxMemory] oomNewMem_bounds(3) [OF r c(2)] by linarith
    then have "within_limits Q (apply_change ch c)"
      using f(6) by (intro limits_within [OF c(1) f(1,2,4-7)]) simp_all
    moreover have "mem_limit_kept qv c (apply_change ch c)"
      by (rule limits_mem_kept [OF c(1) f(1,5) g f(3)])
    ultimately show ?thesis by (simp add: oom_container_def Some)
  qed
  then show "mem_limit_kept qv c (oom_container Q oom maxMemory p g c)"
    "within_limits Q (oom_container Q oom maxMemory p g c)" by simp_all
qed

end

section \<open>Repeated bumps up to the cap\<close>

definition oom_capped ::
  "'q quantity_api \<Rightarrow> ('q \<Rightarrow> rat) \<Rightarrow> string list \<Rightarrow> (string, 'q) gomap \<Rightarrow> nat \<Rightarrow> 'q container \<Rightarrow> bool" where
  \<comment> \<open>an OOM-killed container that has at most \<open>k\<close> bytes to go to its cap\<close>
  "oom_capped Q qv oom maxMemory k c \<longleftrightarrow> rlist_ok qv (Requests c) \<and> has_size Q (Requests c) \<and> c_Name c \<in> set oom
     \<and> (case map_of maxMemory (c_Name c) of None \<Rightarrow> False
        | Some M \<Rightarrow> 2 \<le> cur_mem Q c \<and> cur_mem Q c \<le> q_value Q M \<and> q_value Q M \<le> 2 ^ 51
                   \<and> q_value Q M - cur_mem Q c \<le> int k)"

context quantity_laws
begin

lemma oom_capped_step:
  assumes "oom_capped Q qv oom maxMemory k c" "pol_ControlledValues p \<noteq> ControlledValuesRequestsOnly \<or> g"
  shows "oom_capped Q qv oom maxMemory (k - 1) (oom_container Q oom maxMemory p g c)"
proof -
  obtain M where M: "map_of maxMemory (c_Name c) = Some M" "2 \<le> cur_mem Q c" "cur_mem Q c \<le> q_value Q M"
    "q_value Q M \<le> 2 ^ 51" "q_value Q M - cur_mem Q c \<le> int k"
    and c: "rlist_ok qv (Requests c)" "has_size Q (Requests c)" "c_Name c \<in> set oom"
    using assms(1) by (auto simp: oom_capped_def split: option.splits)
  have "cur_mem Q c \<le> 2 ^ 51" using M by linarith
  note e = oom_container_effect [OF c(1) this assms(2), of oom maxMemory]
  have m: "oom_mem Q oom maxMemory c = min (cur_mem Q c + cur_mem Q c div 2) (q_value Q M)"
    using M c by (auto simp: oom_mem_def max_def min_def)
  have "1 \<le> cur_mem Q c div 2" using M(2) by linarith
  then have "2 \<le> oom_mem Q oom maxMemory c" "oom_mem Q oom maxMemory c \<le> q_value Q M"
    "q_value Q M - oom_mem Q oom maxMemory c \<le> int (k - 1)"
    using M unfolding m by (auto simp: min_def)
  then show ?thesis using M c e by (simp add: oom_capped_def)
qed

lemma oom_passes_capped:
  assumes "distinct (map c_Name (PodContainers pod))" "QOSClass pod \<noteq> QOSUnset"
    and "pol_ControlledValues p \<noteq> ControlledValuesRequestsOnly \<or> QOSClass pod = PodQOSGuaranteed"
    and "\<forall>c \<in> set (PodContainers pod). oom_capped Q qv oom maxMemory n c"
  shows "\<forall>c \<in> set (PodContainers (oom_passes n Q oom maxMemory p pod)). oom_capped Q qv oom maxMemory 0 c"
  using assms
proof (induction n arbitrary: pod)
  case (Suc n)
  have q: "qosClass Q pod = QOSClass pod" using Suc.prems(2) by (rule qosClass_set)
  have "\<forall>c \<in> set (PodContainers (oom_pass Q oom maxMemory p pod)). oom_capped Q qv oom maxMemory n c"
    using oom_capped_step [of oom maxMemory "Suc n" _ p "QOSClass pod = PodQOSGuaranteed"] Suc.prems(3,4)
    by (auto simp: oom_pass_containers [OF Suc.prems(1)] q)
  then have "\<forall>c \<in> set (PodContainers (oom_passes n Q oom maxMemory p (oom_pass Q oom maxMemory p pod))).
      oom_capped Q qv oom maxMemory 0 c"
    using Suc.prems by (intro Suc.IH) (simp_all add: oom_pass_names)
  then show ?case by simp
qed simp

end

section \<open>The window\<close>

lemma OOMKilledContainers_iff:
  "n \<in> set (OOMKilledContainers sts now) \<longleftrightarrow>
     (\<exists>cs \<in> set sts. \<exists>t. LastTerminated cs = Some t \<and> Reason t = ''OOMKilled'' \<and> cs_Name cs = n
        \<and> now - FinishedAt t \<le> 900000000000)"
  by (induction sts)
    (auto simp: oomLookback_def minute_def time_sub_le_iff split: option.splits)

end
