(* ===== verification/OomTheorems.thy ===== *)
theory OomTheorems
  imports Oom PlanExamples "HOL-Library.Sublist"
begin

text \<open>
  The properties of the OOM fast path of \<open>oom.go\<close>, with their witnesses.
\<close>

section \<open>Concrete bumps\<close>

definition ex_caps :: "(string, exact_q) gomap" where
  "ex_caps = [(''app'', bq 1073741824)]"

lemma ex_pod_small:
  "\<forall>c \<in> set (PodContainers ex_pod). cur_mem exact_api c \<le> 2 ^ 51"
  "\<forall>c \<in> set (PodContainers ex_gpod). cur_mem exact_api c \<le> 2 ^ 51"
  by (simp_all add: ex_pod_def ex_container_def ex_gpod_def ex_gcontainer_def map_zero_def wrap64_id in_i64_def)

section \<open>Properties\<close>

text \<open>C30. One bump, in full: when limits are controlled too (or the Pod is Guaranteed), the patch of
  \<open>PlanOOMBump\<close> leaves every CPU request as it is and sets the memory request of each OOM-killed
  container to half as much again, computed exactly despite the float64 factor, capped at the
  container's maximum and never below the current value; other containers are untouched.\<close>

theorem oom_bump_effect:
  assumes "quantity_laws Q qv" "pod_ok qv pod" "\<forall>c \<in> set (PodContainers pod). cur_mem Q c \<le> 2 ^ 51"
    and "pol_ControlledValues p \<noteq> ControlledValuesRequestsOnly \<or> qosClass Q pod = PodQOSGuaranteed"
  shows "list_all2 (\<lambda>c c'. cur_cpu Q c' = cur_cpu Q c \<and> cur_mem Q c' = oom_mem Q oom maxMemory c)
    (PodContainers pod) (PodContainers (oom_pass Q oom maxMemory p pod))"
proof -
  have "rlist_ok qv (Requests c)" if "c \<in> set (PodContainers pod)" for c
    using pod_okD(2) [OF assms(2) that] by (simp add: container_ok_def)
  then show ?thesis
    unfolding oom_pass_containers [OF pod_okD(1) [OF assms(2)]]
    using quantity_laws.oom_container_effect(1,2) [OF assms(1) _ _ assms(4)] assms(3)
    by (auto simp: list_all2_map2 list_all2_same)
qed

theorem oom_bump_effect_witness:
  "list_all2 (\<lambda>c c'. cur_cpu exact_api c' = cur_cpu exact_api c
       \<and> cur_mem exact_api c' = oom_mem exact_api [''app''] ex_caps c)
     (PodContainers ex_pod) (PodContainers (oom_pass exact_api [''app''] ex_caps ex_policy ex_pod))"
  by (rule oom_bump_effect [OF exq.quantity_laws_axioms ex_ok(1) ex_pod_small(1)]) (simp add: ex_policy_def)

text \<open>The fast path is as safe as a planned resize: under every policy and for Guaranteed Pods too,
  no memory limit is lowered and in the patched Pod no request exceeds its limit.\<close>

theorem oom_bump_safe:
  assumes "quantity_laws Q qv" "pod_ok qv pod" "qos_coherent Q pod"
    and "\<forall>c \<in> set (PodContainers pod). cur_mem Q c \<le> 2 ^ 51"
  shows "list_all2 (\<lambda>c c'. mem_limit_kept qv c c' \<and> within_limits Q c')
    (PodContainers pod) (PodContainers (oom_pass Q oom maxMemory p pod))"
proof -
  have "mem_limit_kept qv c (oom_container Q oom maxMemory p (qosClass Q pod = PodQOSGuaranteed) c)
      \<and> within_limits Q (oom_container Q oom maxMemory p (qosClass Q pod = PodQOSGuaranteed) c)"
    if c: "c \<in> set (PodContainers pod)" for c
    using quantity_laws.oom_container_safe [OF assms(1) pod_okD(2) [OF assms(2) c] assms(4) [rule_format, OF c]]
      qos_coherentD [OF assms(3) _ c] by blast
  then show ?thesis
    unfolding oom_pass_containers [OF pod_okD(1) [OF assms(2)]]
    by (auto simp: list_all2_map2 list_all2_same)
qed

theorem oom_bump_safe_witness:
  "list_all2 (\<lambda>c c'. mem_limit_kept fst c c' \<and> within_limits exact_api c')
     (PodContainers ex_gpod) (PodContainers (oom_pass exact_api [''app''] ex_caps ex_policy ex_gpod))"
  by (rule oom_bump_safe [OF exq.quantity_laws_axioms ex_ok(2,6) ex_pod_small(2)])



text \<open>The lookback window of \<open>OOMKilledContainers\<close> closes for good: while the status of a Pod
  stays as it is, the containers reported at a later time are a subsequence of those reported
  earlier, and the list is empty once 15 minutes have passed since the last kill.\<close>

theorem oom_window_closes:
  assumes "now \<le> later"
  shows "subseq (OOMKilledContainers sts later) (OOMKilledContainers sts now)
    \<and> (list_all (\<lambda>cs. pred_option (\<lambda>t. FinishedAt t + 900000000000 < later) (LastTerminated cs)) sts
       \<longrightarrow> OOMKilledContainers sts later = [])"
proof (intro conjI impI)
  show "subseq (OOMKilledContainers sts later) (OOMKilledContainers sts now)"
  proof (induction sts)
    case (Cons cs sts)
    have "time_sub now t \<le> time_sub later t" for t using assms by (rule time_sub_mono)
    then have "time_sub later t \<le> oomLookback \<Longrightarrow> time_sub now t \<le> oomLookback" for t
      using order_trans by blast
    with Cons show ?case by (auto split: option.split)
  qed simp
  assume late: "list_all (\<lambda>cs. pred_option (\<lambda>t. FinishedAt t + 900000000000 < later) (LastTerminated cs)) sts"
  have "n \<notin> set (OOMKilledContainers sts later)" for n
    using late unfolding OOMKilledContainers_iff by (force simp: list_all_iff)
  then show "OOMKilledContainers sts later = []" by (cases "OOMKilledContainers sts later") auto
qed

theorem oom_window_closes_witness:
  "OOMKilledContainers [\<lparr>cs_Name = ''app'', LastTerminated = Some \<lparr>Reason = ''OOMKilled'', FinishedAt = 5\<rparr>\<rparr>] 900000000006 = []"
  using oom_window_closes [of 5 900000000006
      "[\<lparr>cs_Name = ''app'', LastTerminated = Some \<lparr>Reason = ''OOMKilled'', FinishedAt = 5\<rparr>\<rparr>]"] by simp

definition ex_full_pod :: "exact_q pod" where
  "ex_full_pod = ex_pod\<lparr>PodContainers := [\<lparr>c_Name = ''app'',
     Requests = [(ResourceCPU, mq 100), (ResourceMemory, bq 104857600)],
     Limits = [(ResourceMemory, bq 104857600)]\<rparr>]\<rparr>"

text \<open>Under \<open>controlledValues: RequestsOnly\<close> a container whose memory request is already at its
  limit gets a plan that changes nothing, instead of nil: the bump is capped at the limit only after
  the comparison with the current request. Such a Pod is patched on every pass of the window, and
  the fast path never lets \<open>PlanPod\<close> run for it.\<close>

theorem oom_noop_plan_requests_only:
  "\<exists>plan. PlanOOMBump exact_api ex_full_pod [''app''] ex_caps (ex_policy\<lparr>pol_ControlledValues := ControlledValuesRequestsOnly\<rparr>) = Some plan
     \<and> apply_plan plan ex_full_pod = ex_full_pod"
proof (rule exI, rule conjI)
  show "PlanOOMBump exact_api ex_full_pod [''app''] ex_caps (ex_policy\<lparr>pol_ControlledValues := ControlledValuesRequestsOnly\<rparr>)
    = Some \<lparr>pp_Pod = ''p0'', Changes = [\<lparr>cc_Name = ''app'',
        cc_Requests = [(ResourceCPU, mq 100), (ResourceMemory, bq 104857600)], cc_Limits = None\<rparr>],
        pp_Direction = DirectionUp\<rparr>"
    by code_simp
qed code_simp

end
