(* ===== verification/Cooldown.thy ===== *)
theory Cooldown
  imports Plan
begin

text \<open>
  The \<open>CooldownTracker\<close> of \<open>internal/actuator/resizer.go\<close>: per workload and direction, the time of
  the last recorded resize. The mutex makes every operation atomic, so the tracker is a value that
  \<open>Record\<close> returns updated. The locale \<open>cooldown_store\<close> is the contract the actuation pass relies
  on; its lemma \<open>allow_spaced\<close> is the reason for the tracker: after any list of records in the order
  of time, of many workloads and directions, a resize is allowed only a cooldown after every earlier
  record of the same workload and direction.
\<close>

section \<open>Definitions\<close>

type_synonym cooldowns = "(string, (direction, time) gomap) gomap"

definition NewCooldownTracker :: cooldowns where
  "NewCooldownTracker = []"

definition cd_Allow :: "cooldowns \<Rightarrow> string \<Rightarrow> direction \<Rightarrow> duration \<Rightarrow> time \<Rightarrow> bool" where
  "cd_Allow t key d cooldown now =
     (case map_of (map_zero [] t key) d of
        None \<Rightarrow> True
      | Some prev \<Rightarrow> cooldown \<le> time_sub now prev)"

definition cd_Record :: "cooldowns \<Rightarrow> string \<Rightarrow> direction \<Rightarrow> time \<Rightarrow> cooldowns" where
  "cd_Record t key d now = AList.update key (AList.update d now (map_zero [] t key)) t"

section \<open>The contract\<close>

locale cooldown_store =
  fixes new :: 's
    and allow :: "'s \<Rightarrow> string \<Rightarrow> direction \<Rightarrow> duration \<Rightarrow> time \<Rightarrow> bool"
    and rec :: "'s \<Rightarrow> string \<Rightarrow> direction \<Rightarrow> time \<Rightarrow> 's"
  assumes allow_new: "allow new k d cd now"
    and allow_rec: "allow (rec s k d t) k' d' cd now \<longleftrightarrow>
      (if k' = k \<and> d' = d then cd \<le> time_sub now t else allow s k' d' cd now)"
begin

definition rec_all :: "'s \<Rightarrow> (string \<times> direction \<times> time) list \<Rightarrow> 's" where
  \<comment> \<open>the store after a list of records, in order\<close>
  "rec_all s stamps = foldl (\<lambda>s (k, d, t). rec s k d t) s stamps"

lemma rec_all_Nil [simp]: "rec_all s [] = s"
  by (simp add: rec_all_def)

lemma rec_all_append: "rec_all s (xs @ ys) = rec_all (rec_all s xs) ys"
  by (simp add: rec_all_def)

lemma rec_all_snoc: "rec_all s (xs @ [(k, d, t)]) = rec (rec_all s xs) k d t"
  by (simp add: rec_all_def)

lemma allow_rec_time: "allow (rec s k d t) k d cd now \<Longrightarrow> 0 \<le> cd \<Longrightarrow> t + cd \<le> now"
  by (auto simp: allow_rec time_sub_def split: if_splits)

lemma allow_spaced:
  assumes "sorted (map (\<lambda>s. snd (snd s)) stamps)" "(k, d, t) \<in> set stamps"
    and "allow (rec_all s stamps) k d cd now" "0 \<le> cd"
  shows "t + cd \<le> now"
  using assms(1-3)
proof (induction stamps rule: rev_induct)
  case (snoc x stamps)
  obtain k' d' t' where x: "x = (k', d', t')" by (cases x)
  have srt: "sorted (map (\<lambda>s. snd (snd s)) stamps)" "\<forall>s \<in> set stamps. snd (snd s) \<le> t'"
    using snoc.prems(1) by (auto simp: x sorted_append)
  show ?case
  proof (cases "k' = k \<and> d' = d")
    case True
    then have "t' + cd \<le> now" using snoc.prems(3) assms(4) by (auto simp: x rec_all_snoc intro: allow_rec_time)
    moreover have "t \<le> t'" using srt(2) snoc.prems(2) by (force simp: x)
    ultimately show ?thesis by linarith
  next
    case False
    then show ?thesis using snoc srt(1) by (auto simp: x rec_all_snoc allow_rec)
  qed
qed simp

end

section \<open>The tracker meets the contract\<close>

lemma cd_Allow_Record:
  "cd_Allow (cd_Record t key d prev) key' d' cooldown now \<longleftrightarrow>
     (if key' = key \<and> d' = d then cooldown \<le> time_sub now prev else cd_Allow t key' d' cooldown now)"
  by (auto simp: cd_Allow_def cd_Record_def map_of_update)

interpretation cdt: cooldown_store NewCooldownTracker cd_Allow cd_Record
  by unfold_locales (simp_all add: cd_Allow_Record, simp add: cd_Allow_def NewCooldownTracker_def)

end
