(* ===== verification/Resizer.thy ===== *)
theory Resizer
  imports Cooldown PlanExamples
begin

text \<open>
  \<open>internal/actuator/resizer.go\<close> and \<open>recreate.go\<close>: the writes to the cluster (the resize patch and
  the eviction), the version test, and the test for memory shrinks that in-place resizing cannot do.

  The rate limiter and the API server are not part of the program. They are an \<open>'q cluster_api\<close>:
  functions that answer a call from the list of everything done before it, so any deterministic
  behaviour, answers that depend on earlier writes included, is an instance. Every call the
  program makes is appended to that list, the trace, which is what the properties speak about.
\<close>

section \<open>The cluster and the trace\<close>

datatype go_error = ErrRateLimited | ErrOther string

datatype event_type = EventNormal | EventWarning

datatype 'q effect =
    LimiterAsked bool
  | ResizePatched string string "'q container_change list" "string option"
  | PodEvicted string string "string option"
  | EventRecorded event_type string
  | ResizeCounted string string direction
  | ReclaimablePublished string string string f64 f64
  | RecommendedPublished string string string string f64 f64
  | StatusPatched string string "'q dr_status" "string option"

type_synonym 'q trace = "'q effect list"

record 'q cluster_api =
  limiter_allow :: "('q trace \<Rightarrow> bool) option"  \<comment> \<open>\<open>None\<close> is the nil limiter\<close>
  resize_answer :: "'q trace \<Rightarrow> string \<Rightarrow> string \<Rightarrow> 'q container_change list \<Rightarrow> string option"
  evict_answer :: "'q trace \<Rightarrow> string \<Rightarrow> string \<Rightarrow> string option"

definition limiterAllow :: "'q cluster_api \<Rightarrow> 'q trace \<Rightarrow> bool \<times> 'q trace" where
  \<comment> \<open>the guard \<open>r.Limiter == nil || r.Limiter.Allow()\<close>\<close>
  "limiterAllow A tr =
     (case limiter_allow A of
        None \<Rightarrow> (True, tr)
      | Some f \<Rightarrow> (f tr, tr @ [LimiterAsked (f tr)]))"

section \<open>Writes\<close>

definition Apply :: "'q cluster_api \<Rightarrow> string \<Rightarrow> 'q pod_plan \<Rightarrow> 'q trace \<Rightarrow> go_error option \<times> 'q trace" where
  "Apply A namespace plan tr =
     (let (ok, tr) = limiterAllow A tr
      in if \<not> ok then (Some ErrRateLimited, tr)
         else
           let err = resize_answer A tr namespace (pp_Pod plan) (Changes plan);
               tr = tr @ [ResizePatched namespace (pp_Pod plan) (Changes plan) err]
           in (case err of
                 None \<Rightarrow> (None, tr)
               | Some e \<Rightarrow> (Some (ErrOther (''resizing pod '' @ pp_Pod plan @ '': '' @ e)), tr)))"

definition Evict :: "'q cluster_api \<Rightarrow> string \<Rightarrow> string \<Rightarrow> 'q trace \<Rightarrow> go_error option \<times> 'q trace" where
  "Evict A namespace pod tr =
     (let (ok, tr) = limiterAllow A tr
      in if \<not> ok then (Some ErrRateLimited, tr)
         else
           let err = evict_answer A tr namespace pod
           in (map_option ErrOther err, tr @ [PodEvicted namespace pod err]))"

section \<open>Shrinks that need a new Pod\<close>

fun blockedShrink :: "'q quantity_api \<Rightarrow> (string, 'q rlist) gomap \<Rightarrow> policy \<Rightarrow> 'q container list \<Rightarrow> bool" where
  "blockedShrink Q targets p [] = False"
| "blockedShrink Q targets p (c # cs) =
     (case map_of targets (c_Name c) of
        None \<Rightarrow> blockedShrink Q targets p cs
      | Some target \<Rightarrow>
          let curMem = map_zero (q_zero Q) (Requests c) ResourceMemory;
              wantMem = map_zero (q_zero Q) target ResourceMemory
          in if q_isZero Q curMem \<or> q_isZero Q wantMem then blockedShrink Q targets p cs
             else if \<not> withinTolerance (q_value Q curMem) (q_value Q wantMem) (Tolerance p)
                   \<and> q_value Q wantMem < q_value Q curMem then True
             else blockedShrink Q targets p cs)"

definition BlockedMemoryShrink :: "'q quantity_api \<Rightarrow> 'q pod \<Rightarrow> (string, 'q rlist) gomap \<Rightarrow> policy \<Rightarrow> bool" where
  "BlockedMemoryShrink Q pod targets p =
     (if qosClass Q pod \<noteq> PodQOSGuaranteed then False
      else blockedShrink Q targets p (PodContainers pod))"

section \<open>The version test\<close>

definition trimSuffix :: "string \<Rightarrow> string \<Rightarrow> string" where
  \<comment> \<open>\<open>strings.TrimSuffix\<close>: at most one copy of the suffix is removed\<close>
  "trimSuffix s suf =
     (if length suf \<le> length s \<and> drop (length s - length suf) s = suf
      then take (length s - length suf) s else s)"

definition digit_val :: "char \<Rightarrow> int option" where
  "digit_val c = (let n = (of_char c :: nat) in if 48 \<le> n \<and> n \<le> 57 then Some (int n - 48) else None)"

fun digits_val :: "int \<Rightarrow> string \<Rightarrow> int option" where
  "digits_val acc [] = Some acc"
| "digits_val acc (c # cs) = (case digit_val c of None \<Rightarrow> None | Some d \<Rightarrow> digits_val (10 * acc + d) cs)"

definition Atoi :: "string \<Rightarrow> i64 go_result" where
  \<comment> \<open>\<open>strconv.Atoi\<close>: an optional sign, then at least one decimal digit, inside the int64 range\<close>
  "Atoi s =
     (let (neg, ds) = (case s of
            [] \<Rightarrow> (False, [])
          | c # cs \<Rightarrow> if c = CHR ''-'' then (True, cs) else if c = CHR ''+'' then (False, cs) else (False, s))
      in if ds = [] then Inl ''invalid syntax''
         else case digits_val 0 ds of
                None \<Rightarrow> Inl ''invalid syntax''
              | Some n \<Rightarrow> let v = (if neg then - n else n)
                          in if in_i64 v then Inr v else Inl ''value out of range'')"

definition DetectInPlaceResize :: "(string \<times> string) go_result \<Rightarrow> bool go_result" where
  \<comment> \<open>the argument is what \<open>dc.ServerVersion()\<close> returned: the major and minor version strings\<close>
  "DetectInPlaceResize version =
     (case version of
        Inl err \<Rightarrow> Inl err
      | Inr (vMajor, vMinor) \<Rightarrow>
          (case Atoi (trimSuffix vMajor ''+'') of
             Inl err \<Rightarrow> Inl (''parsing server major version '' @ vMajor @ '': '' @ err)
           | Inr major \<Rightarrow>
               (case Atoi (trimSuffix vMinor ''+'') of
                  Inl err \<Rightarrow> Inl (''parsing server minor version '' @ vMinor @ '': '' @ err)
                | Inr minor \<Rightarrow> Inr (1 < major \<or> (major = 1 \<and> 33 \<le> minor)))))"

section \<open>What one write does to the trace\<close>

definition is_patch :: "'q effect \<Rightarrow> bool" where
  "is_patch e \<longleftrightarrow> (case e of ResizePatched _ _ _ _ \<Rightarrow> True | _ \<Rightarrow> False)"

definition is_evict :: "'q effect \<Rightarrow> bool" where
  "is_evict e \<longleftrightarrow> (case e of PodEvicted _ _ _ \<Rightarrow> True | _ \<Rightarrow> False)"

definition is_status :: "'q effect \<Rightarrow> bool" where
  "is_status e \<longleftrightarrow> (case e of StatusPatched _ _ _ _ \<Rightarrow> True | _ \<Rightarrow> False)"

lemma is_patch_simps [simp]:
  "\<not> is_patch (LimiterAsked b)" "is_patch (ResizePatched ns p chs r)" "\<not> is_patch (PodEvicted ns p r)"
  "\<not> is_patch (EventRecorded t n)" "\<not> is_patch (ResizeCounted ns w d)"
  "\<not> is_patch (ReclaimablePublished ns dr w x y)" "\<not> is_patch (RecommendedPublished ns dr w c x y)"
  "\<not> is_patch (StatusPatched ns dr st r)"
  by (simp_all add: is_patch_def)

lemma is_evict_simps [simp]:
  "\<not> is_evict (LimiterAsked b)" "\<not> is_evict (ResizePatched ns p chs r)" "is_evict (PodEvicted ns p r)"
  "\<not> is_evict (EventRecorded t n)" "\<not> is_evict (ResizeCounted ns w d)"
  "\<not> is_evict (ReclaimablePublished ns dr w x y)" "\<not> is_evict (RecommendedPublished ns dr w c x y)"
  "\<not> is_evict (StatusPatched ns dr st r)"
  by (simp_all add: is_evict_def)

lemma is_status_simps [simp]:
  "\<not> is_status (LimiterAsked b)" "\<not> is_status (ResizePatched ns p chs r)" "\<not> is_status (PodEvicted ns p r)"
  "\<not> is_status (EventRecorded t n)" "\<not> is_status (ResizeCounted ns w d)"
  "\<not> is_status (ReclaimablePublished ns dr w x y)" "\<not> is_status (RecommendedPublished ns dr w c x y)"
  "is_status (StatusPatched ns dr st r)"
  by (simp_all add: is_status_def)

lemma limiterAllow_cases:
  assumes "limiterAllow A tr = (ok, tr')"
  obtains "limiter_allow A = None" "ok" "tr' = tr" | "limiter_allow A \<noteq> None" "tr' = tr @ [LimiterAsked ok]"
  using assms by (auto simp: limiterAllow_def split: option.splits)

lemma Apply_cases:
  assumes "Apply A ns plan tr = (err, tr')"
  obtains (limited) "err = Some ErrRateLimited" "tr' = tr @ [LimiterAsked False]"
    | (patched) ext r where "tr' = tr @ ext @ [ResizePatched ns (pp_Pod plan) (Changes plan) r]"
        "set ext \<subseteq> {LimiterAsked True}" "r = None \<longleftrightarrow> err = None" "err \<noteq> Some ErrRateLimited"
  using assms
  by (auto simp: Apply_def limiterAllow_def Let_def split: option.splits prod.splits if_splits)

lemma Evict_cases:
  assumes "Evict A ns pod tr = (err, tr')"
  obtains (limited) "err = Some ErrRateLimited" "tr' = tr @ [LimiterAsked False]"
    | (evicted) ext r where "tr' = tr @ ext @ [PodEvicted ns pod r]"
        "set ext \<subseteq> {LimiterAsked True}" "r = None \<longleftrightarrow> err = None" "err \<noteq> Some ErrRateLimited"
  using assms
  by (auto simp: Evict_def limiterAllow_def Let_def split: option.splits prod.splits if_splits)

section \<open>Decimal version numbers\<close>

fun dec :: "nat \<Rightarrow> string" where
  "dec n = (if n < 10 then [char_of (48 + n)] else dec (n div 10) @ [char_of (48 + n mod 10)])"

declare dec.simps [simp del]

lemma digit_val_char [simp]: "d < 10 \<Longrightarrow> digit_val (char_of (48 + d)) = Some (int d)"
  by (simp add: digit_val_def Let_def)

lemma digits_val_append:
  "digits_val acc (xs @ ys) = (case digits_val acc xs of None \<Rightarrow> None | Some a \<Rightarrow> digits_val a ys)"
  by (induction xs arbitrary: acc) (auto split: option.split)

lemma digits_val_dec: "digits_val 0 (dec n) = Some (int n)"
proof (induction n rule: dec.induct)
  case (1 n)
  show ?case
  proof (cases "n < 10")
    case True
    then show ?thesis by (subst dec.simps) simp
  next
    case False
    have "10 * (n div 10) + n mod 10 = n" by simp
    then have "10 * int (n div 10) + int (n mod 10) = int n"
      by (metis of_nat_add of_nat_mult of_nat_numeral)
    then show ?thesis using False 1 by (subst dec.simps) (simp add: digits_val_append)
  qed
qed

lemma dec_chars: "c \<in> set (dec n) \<Longrightarrow> 48 \<le> (of_char c :: nat) \<and> (of_char c :: nat) \<le> 57"
proof (induction n rule: dec.induct)
  case (1 n)
  then show ?case by (subst (asm) dec.simps) (auto split: if_splits)
qed

lemma dec_Nil [simp]: "dec n \<noteq> []"
  by (subst dec.simps) simp

lemma dec_no_sign: "CHR ''+'' \<notin> set (dec n)" "CHR ''-'' \<notin> set (dec n)"
  using dec_chars [of "CHR ''+''" n] dec_chars [of "CHR ''-''" n] by auto

lemma Atoi_dec: "int n < 2 ^ 63 \<Longrightarrow> Atoi (dec n) = Inr (int n)"
proof -
  assume n: "int n < 2 ^ 63"
  obtain c cs where dc: "dec n = c # cs" by (cases "dec n") (auto dest: arg_cong)
  then have "c \<noteq> CHR ''-''" "c \<noteq> CHR ''+''" using dec_no_sign [of n] by auto
  then show ?thesis using n digits_val_dec [of n] by (simp add: Atoi_def dc in_i64_def)
qed

lemma trimSuffix_plus: "trimSuffix (dec n @ ''+'') ''+'' = dec n"
  by (simp add: trimSuffix_def)

lemma trimSuffix_dec: "trimSuffix (dec n) ''+'' = dec n"
proof -
  have "drop (length (dec n) - 1) (dec n) \<noteq> ''+''"
  proof
    assume e: "drop (length (dec n) - 1) (dec n) = ''+''"
    have "CHR ''+'' \<in> set (drop (length (dec n) - 1) (dec n))" unfolding e by simp
    then show False using dec_no_sign(1) [of n] in_set_dropD by metis
  qed
  then show ?thesis by (simp add: trimSuffix_def)
qed

section \<open>Blocked shrinks\<close>

lemma blockedShrink_iff:
  "blockedShrink Q targets p cs \<longleftrightarrow>
     (\<exists>c \<in> set cs. \<exists>t. map_of targets (c_Name c) = Some t
        \<and> \<not> q_isZero Q (map_zero (q_zero Q) (Requests c) ResourceMemory)
        \<and> \<not> q_isZero Q (map_zero (q_zero Q) t ResourceMemory)
        \<and> \<not> withinTolerance (cur_mem Q c) (want_mem Q t) (Tolerance p) \<and> want_mem Q t < cur_mem Q c)"
  by (induction cs) (auto simp: Let_def split: option.splits)

context quantity_laws
begin

lemma guaranteed_mem_kept:
  assumes c: "steady Q qv p True c" and t: "rlist_ok qv t" and p: "policy_ok p"
    and pc: "planContainer Q c t p True = (Some ch, up)" and lt: "want_mem Q t < cur_mem Q c"
  shows "cur_mem Q (apply_change ch c) = cur_mem Q c"
    "q_isZero Q (map_zero (q_zero Q) (Requests (apply_change ch c)) ResourceMemory) \<longleftrightarrow>
       q_isZero Q (map_zero (q_zero Q) (Requests c) ResourceMemory)"
proof -
  obtain n m where f: "cur_mem Q (apply_change ch c) = m" "size_ok m" "has_size Q (Requests c)"
      "map_of (Requests (apply_change ch c)) ResourceMemory = Some (q_new Q m BinarySI)"
      "min (cur_mem Q c) (step_mem Q c t p True) \<le> m" "m \<le> step_mem Q c t p True"
    by (rule planContainer_facts [OF c t p pc]) blast
  have rc: "rlist_ok qv (Requests c)" using c by (simp add: steady_def)
  note sm = step_mem_facts [OF rc t p]
  have "step_mem Q c t p True = cur_mem Q c"
    using sm(5) [of True] sm(8) [of True] lt by simp
  then show m: "cur_mem Q (apply_change ch c) = cur_mem Q c" using f(1,5,6) by simp
  have "0 < m" using has_size_cur_pos(2) [OF rc f(3)] m f(1) by simp
  then show "q_isZero Q (map_zero (q_zero Q) (Requests (apply_change ch c)) ResourceMemory) \<longleftrightarrow>
      q_isZero Q (map_zero (q_zero Q) (Requests c) ResourceMemory)"
    using f(2-4) by (simp add: new_not_zero size_okD has_size_def)
qed

lemma pass_still_blocked:
  assumes s: "pod_steady Q qv p pod" and t: "targets_ok qv targets" and p: "policy_ok p"
    and b: "BlockedMemoryShrink Q pod targets p"
  shows "BlockedMemoryShrink Q (pod_pass Q targets p pod) targets p"
proof (cases "PlanPod Q pod targets p")
  case None
  then show ?thesis using b by (simp add: pod_pass_def)
next
  case (Some plan)
  have q: "qosClass Q pod = QOSClass pod" "QOSClass pod \<noteq> QOSUnset"
    using s by (auto simp: pod_steady_def qosClass_set)
  have g: "qosClass Q pod = PodQOSGuaranteed" using b by (simp add: BlockedMemoryShrink_def split: if_splits)
  have d: "distinct (map c_Name (PodContainers pod))" using s by (simp add: pod_steady_def)
  obtain c u where c: "c \<in> set (PodContainers pod)" "map_of targets (c_Name c) = Some u"
      "\<not> q_isZero Q (map_zero (q_zero Q) (Requests c) ResourceMemory)"
      "\<not> q_isZero Q (map_zero (q_zero Q) u ResourceMemory)"
      "\<not> withinTolerance (cur_mem Q c) (want_mem Q u) (Tolerance p)" "want_mem Q u < cur_mem Q c"
    using b g by (auto simp: BlockedMemoryShrink_def blockedShrink_iff)
  let ?c = "apply_changes (Changes plan) c"
  have sc: "steady Q qv p True c" using s c(1) g q by (simp add: pod_steady_def list_all_iff)
  have "cur_mem Q ?c = cur_mem Q c \<and> \<not> q_isZero Q (map_zero (q_zero Q) (Requests ?c) ResourceMemory)"
  proof (cases "fst (planned Q targets p (qosClass Q pod = PodQOSGuaranteed) c)")
    case None
    then show ?thesis using c(3) by (simp add: apply_changes_planned [OF Some d c(1)])
  next
    case ch: (Some ch)
    from ch show ?thesis
    proof (rule planned_SomeE)
      fix t' up assume "map_of targets (c_Name c) = Some t'"
        "planContainer Q c t' p (qosClass Q pod = PodQOSGuaranteed) = (Some ch, up)"
      then have "planContainer Q c u p True = (Some ch, up)" using c(2) g by simp
      from guaranteed_mem_kept [OF sc targets_okD [OF t c(2)] p this c(6)] show ?thesis
        using c(3) by (simp add: apply_changes_planned [OF Some d c(1)] ch)
    qed
  qed
  then have "blockedShrink Q targets p (PodContainers (apply_plan plan pod))"
    unfolding blockedShrink_iff using c by (intro bexI [of _ ?c] exI [of _ u]) simp_all
  then show ?thesis using g q by (simp add: BlockedMemoryShrink_def pod_pass_def Some qosClass_def)
qed

end

section \<open>Properties\<close>

text \<open>The feature test reads real version strings right: for a server that reports major and
  minor versions in decimal, each with or without the \<open>+\<close> some vendors append, in-place resize is
  detected exactly from version 1.33 on, and there is no parse error.\<close>

theorem detect_in_place_resize:
  assumes "int major < 2 ^ 63" "int minor < 2 ^ 63" "sM \<in> {[], ''+''}" "sm \<in> {[], ''+''}"
  shows "DetectInPlaceResize (Inr (dec major @ sM, dec minor @ sm)) =
    Inr (1 < major \<or> (major = 1 \<and> 33 \<le> minor))"
proof -
  have "trimSuffix (dec n @ suf) ''+'' = dec n" if "suf \<in> {[], ''+''}" for n suf
    using that trimSuffix_plus trimSuffix_dec by auto
  then show ?thesis using assms by (simp add: DetectInPlaceResize_def Atoi_dec)
qed

theorem detect_in_place_resize_witness:
  "DetectInPlaceResize (Inr (dec 1 @ [], dec 33 @ ''+'')) = Inr True
   \<and> DetectInPlaceResize (Inr (dec 1 @ ''+'', dec 32 @ [])) = Inr False"
  using detect_in_place_resize [of 1 33 "[]" "''+''"] detect_in_place_resize [of 1 32 "''+''" "[]"] by simp

text \<open>A blocked memory shrink stays blocked: as long as a Guaranteed Pod is only resized in place
  towards the same targets, \<open>BlockedMemoryShrink\<close> keeps reporting it after any number of passes, so
  evict-and-recreate is the only way such a Pod converges.\<close>

theorem blocked_shrink_stays:
  assumes "quantity_laws Q qv" "pod_steady Q qv p pod" "targets_ok qv targets" "policy_ok p"
    and "BlockedMemoryShrink Q pod targets p"
  shows "BlockedMemoryShrink Q (pod_passes n Q targets p pod) targets p"
  using assms(2,5)
proof (induction n arbitrary: pod)
  case (Suc n)
  then show ?case
    using quantity_laws.pass_steady [OF assms(1) Suc.prems(1) assms(3,4)]
      quantity_laws.pass_still_blocked [OF assms(1) Suc.prems(1) assms(3,4) Suc.prems(2)] by simp
qed simp

theorem blocked_shrink_stays_witness:
  "BlockedMemoryShrink exact_api (pod_passes 10 exact_api ex_targets ex_policy ex_gpod) ex_targets ex_policy"
proof (rule blocked_shrink_stays [OF exq.quantity_laws_axioms _ ex_ok(3,4)])
  show "pod_steady exact_api fst ex_policy ex_gpod"
    by (simp add: pod_steady_def steady_def rlist_ok_def cpu_ok_def mem_ok_def ex_gpod_def ex_pod_def ex_gcontainer_def)
  show "BlockedMemoryShrink exact_api ex_gpod ex_targets ex_policy" by code_simp
qed

end
