(* ===== verification/Coordination.thy ===== *)
theory Coordination
  imports Api
begin

text \<open>
  \<open>internal/coordination/hpa.go\<close>: which HorizontalPodAutoscaler scales a Deployment, whether it is
  scaling now, its utilization targets, and the smallest request that keeps the utilization it
  observes below its target. The arithmetic of \<open>RequestFloor\<close> is float64 arithmetic; the lemmas
  show that for integral usage the floor is exactly the least request that does.
\<close>

section \<open>Definitions\<close>

fun findHPA :: "hpa list \<Rightarrow> string \<Rightarrow> hpa option" where
  "findHPA [] deployment = None"
| "findHPA (h # hs) deployment =
     (if RefKind h = ''Deployment'' \<and> RefName h = deployment then Some h else findHPA hs deployment)"

definition FindHPA :: "hpa list go_result \<Rightarrow> string \<Rightarrow> hpa option go_result" where
  \<comment> \<open>the first argument is what listing the HPAs of the namespace answers\<close>
  "FindHPA answer deployment =
     (case answer of Inl err \<Rightarrow> Inl err | Inr items \<Rightarrow> Inr (findHPA items deployment))"

definition IsScaling :: "hpa option \<Rightarrow> duration \<Rightarrow> time \<Rightarrow> bool" where
  "IsScaling hpa settle now =
     (case hpa of
        None \<Rightarrow> False
      | Some h \<Rightarrow>
          if DesiredReplicas h \<noteq> CurrentReplicas h then True
          else case LastScaleTime h of
                 Some t \<Rightarrow> time_sub now t < settle
               | None \<Rightarrow> False)"

definition metricTarget :: "metric_spec \<Rightarrow> (string \<times> metric_target) option" where
  \<comment> \<open>the \<open>switch\<close>: name and target of a Resource or ContainerResource metric\<close>
  "metricTarget m =
     (if ms_Type m = ResourceMetricSourceType \<and> ms_Resource m \<noteq> None then ms_Resource m
      else if ms_Type m = ContainerResourceMetricSourceType \<and> ms_ContainerResource m \<noteq> None
      then ms_ContainerResource m
      else None)"

fun targetLoop :: "metric_spec list \<Rightarrow> i32 \<times> i32 \<Rightarrow> i32 \<times> i32" where
  "targetLoop [] (cpu, mem) = (cpu, mem)"
| "targetLoop (m # ms) (cpu, mem) =
     (case metricTarget m of
        None \<Rightarrow> targetLoop ms (cpu, mem)
      | Some (name, target) \<Rightarrow>
          (case (mt_Type target, AverageUtilization target) of
             (UtilizationMetricType, Some u) \<Rightarrow>
               if name = ResourceCPU then targetLoop ms (u, mem)
               else if name = ResourceMemory then targetLoop ms (cpu, u)
               else targetLoop ms (cpu, mem)
           | _ \<Rightarrow> targetLoop ms (cpu, mem)))"

definition TargetUtilization :: "hpa option \<Rightarrow> i32 \<times> i32" where
  "TargetUtilization hpa = (case hpa of None \<Rightarrow> (0, 0) | Some h \<Rightarrow> targetLoop (Metrics h) (0, 0))"

definition RequestFloor :: "f64 \<Rightarrow> i32 \<Rightarrow> i32 \<Rightarrow> i64" where
  "RequestFloor usage targetUtilization headroomPercent =
     (let effective = wrap32 (targetUtilization - headroomPercent)
      in if targetUtilization \<le> 0 \<or> effective \<le> 0 then 0
         else i64_of_f (f_ceil (f_div (f_mul usage (Fin 100)) (f_of_i64 effective))))"

section \<open>Which HPA\<close>

lemma findHPA_find: "findHPA hs d = List.find (\<lambda>h. RefKind h = ''Deployment'' \<and> RefName h = d) hs"
  by (induction hs) auto

section \<open>Utilization targets\<close>

definition utilization_of :: "string \<Rightarrow> metric_spec \<Rightarrow> i32 option" where
  \<comment> \<open>the utilization a metric asks for on the named resource\<close>
  "utilization_of name m =
     (case metricTarget m of
        Some (n, t) \<Rightarrow> (if n = name \<and> mt_Type t = UtilizationMetricType then AverageUtilization t else None)
      | None \<Rightarrow> None)"

definition last_or :: "'a \<Rightarrow> 'a list \<Rightarrow> 'a" where
  "last_or z xs = (if xs = [] then z else last xs)"

lemma last_or_Cons [simp]: "last_or z (x # xs) = last_or x xs"
  by (simp add: last_or_def)

lemma last_or_Nil [simp]: "last_or z [] = z"
  by (simp add: last_or_def)

lemma targetLoop_eq:
  "targetLoop ms (cpu, mem) =
     (last_or cpu (List.map_filter (utilization_of ResourceCPU) ms),
      last_or mem (List.map_filter (utilization_of ResourceMemory) ms))"
proof (induction ms arbitrary: cpu mem)
  case (Cons m ms)
  show ?case
  proof (cases "metricTarget m")
    case None
    then show ?thesis by (simp add: Cons.IH utilization_of_def map_filter_simps)
  next
    case (Some nt)
    obtain n t where nt: "nt = (n, t)" by (cases nt)
    consider "mt_Type t \<noteq> UtilizationMetricType" | "mt_Type t = UtilizationMetricType" "AverageUtilization t = None"
      | u where "mt_Type t = UtilizationMetricType" "AverageUtilization t = Some u"
      by (cases "AverageUtilization t") auto
    then show ?thesis
      by cases (auto simp: Some nt Cons.IH utilization_of_def map_filter_simps split: metric_target_type.split)
  qed
qed simp

section \<open>The floor\<close>

lemma ceil_rnd_quotient:
  assumes n: "0 \<le> n" "n \<le> 2 ^ 45" and e: "0 < e" "e \<le> 127"
  shows "\<lceil>rnd (of_int n / of_int e)\<rceil> = \<lceil>of_int n / of_int e :: rat\<rceil>"
proof -
  let ?x = "of_int n / of_int e :: rat"
  have ep: "(0::rat) < of_int e" using e by simp
  have "rnd ?x \<le> of_int k \<longleftrightarrow> ?x \<le> of_int k" if k: "0 \<le> k" "k \<le> 2 ^ 45" for k
  proof
    assume "?x \<le> of_int k"
    then show "rnd ?x \<le> of_int k" using k by (intro rnd_le_iff_f64 is_f64_int) simp_all
  next
    assume r: "rnd ?x \<le> of_int k"
    show "?x \<le> of_int k"
    proof (rule ccontr)
      assume "\<not> ?x \<le> of_int k"
      then have "(of_int (k * e) :: rat) < of_int n" using ep by (simp add: divide_le_eq not_le)
      then have "k * e < n" by (simp only: of_int_less_iff)
      then have "k * e + 1 \<le> n" by simp
      then have "(of_int (k * e + 1) :: rat) \<le> of_int n" by (simp only: of_int_le_iff)
      then have "of_int (k * e + 1) / of_int e \<le> ?x" using ep by (intro divide_right_mono) simp_all
      then have "of_int k + 1 / of_int e \<le> ?x" using ep by (simp add: add_divide_distrib)
      moreover have "(1::rat) / 128 \<le> 1 / of_int e" using e ep by (intro divide_left_mono) simp_all
      ultimately have "of_int k + 1 / 128 \<le> ?x" by linarith
      then have "of_int (128 * k + 1) / 128 \<le> ?x" by (simp add: add_divide_distrib)
      moreover have "is_f64 (of_int (128 * k + 1) / 128)"
        unfolding is_f64_def
        by (rule exI [of _ "128 * k + 1"], rule exI [of _ "- 7"]) (use k in \<open>simp add: power_int_minus\<close>)
      ultimately have "of_int (128 * k + 1) / 128 \<le> rnd ?x" by (intro rnd_ge_iff_f64)
      then show False using r by simp
    qed
  qed
  note iff = this
  have x: "0 \<le> ?x" "?x \<le> of_int n"
    using n ep e by (simp_all add: divide_le_eq mult_le_cancel_left1)
  have c: "0 \<le> \<lceil>?x\<rceil>" "\<lceil>?x\<rceil> \<le> n" using x by (simp_all add: ceiling_le_iff zero_le_ceiling)
  have "\<lceil>?x\<rceil> \<le> 2 ^ 45" using c(2) n(2) by linarith
  then have "rnd ?x \<le> of_int \<lceil>?x\<rceil>" using c(1) by (intro iffD2 [OF iff] le_of_int_ceiling)
  then have le: "\<lceil>rnd ?x\<rceil> \<le> \<lceil>?x\<rceil>" by (simp add: ceiling_le_iff)
  have "0 \<le> rnd ?x" using x(1) by (rule rnd_nonneg)
  then have "0 \<le> \<lceil>rnd ?x\<rceil>" by (simp add: zero_le_ceiling)
  then have "?x \<le> of_int \<lceil>rnd ?x\<rceil>"
    using le \<open>\<lceil>?x\<rceil> \<le> 2 ^ 45\<close> by (intro iffD1 [OF iff] le_of_int_ceiling) linarith+
  then have "\<lceil>?x\<rceil> \<le> \<lceil>rnd ?x\<rceil>" by (simp add: ceiling_le_iff)
  then show ?thesis using le by simp
qed

definition hpa_params_ok :: "i32 \<Rightarrow> i32 \<Rightarrow> bool" where
  \<comment> \<open>the target leaves room above the reserved headroom, and both are percentages\<close>
  "hpa_params_ok target headroom \<longleftrightarrow> 0 \<le> headroom \<and> headroom < target \<and> target - headroom \<le> 127 \<and> target < 2 ^ 31"

lemma RequestFloor_exact:
  assumes u: "0 \<le> u" "u \<le> 2 ^ 38" and p: "hpa_params_ok target headroom"
  shows "RequestFloor (Fin (of_int u)) target headroom = \<lceil>of_int (100 * u) / of_int (target - headroom) :: rat\<rceil>"
proof -
  let ?e = "target - headroom"
  have e: "0 < ?e" "?e \<le> 127" "wrap32 ?e = ?e" "0 < target"
    using p by (auto simp: hpa_params_ok_def wrap32_id)
  have lim: "(of_int n :: rat) \<le> f64_half_limit" if "n \<le> 2 ^ 46" for n
  proof (rule le_half_limit)
    have "(of_int n :: rat) \<le> of_int (2 ^ 46)" using that by (simp only: of_int_le_iff)
    also have "\<dots> \<le> 2 ^ 200" by simp
    finally show "(of_int n :: rat) \<le> 2 ^ 200" .
  qed
  have "f_mul (Fin (of_int u)) (Fin 100) = round64 (of_int (u * 100))" by simp
  also have "\<dots> = Fin (of_int (100 * u))"
    using u lim [of "u * 100"] rnd_int [of "u * 100"] by (simp add: round64_Fin abs_of_nonneg mult.commute)
  finally have m: "f_mul (Fin (of_int u)) (Fin 100) = Fin (of_int (100 * u))" .
  have x: "0 \<le> (of_int (100 * u) / of_int ?e :: rat)" "(of_int (100 * u) / of_int ?e :: rat) \<le> of_int (100 * u)"
    using u e by (simp_all add: divide_le_eq mult_le_cancel_left1)
  have "\<bar>of_int (100 * u) / of_int ?e :: rat\<bar> \<le> of_int (100 * u)"
    unfolding abs_of_nonneg [OF x(1)] by (rule x(2))
  also have "\<dots> \<le> f64_half_limit" using u by (intro lim) simp
  finally have "\<bar>of_int (100 * u) / of_int ?e :: rat\<bar> \<le> f64_half_limit" .
  then have d: "f_div (Fin (of_int (100 * u))) (f_of_i64 ?e) = Fin (rnd (of_int (100 * u) / of_int ?e))"
    using e by (simp add: f_of_i64_exact round64_Fin)
  have c: "\<lceil>rnd (of_int (100 * u) / of_int ?e)\<rceil> = \<lceil>of_int (100 * u) / of_int ?e :: rat\<rceil>"
    using u e by (intro ceil_rnd_quotient) simp_all
  have b: "0 \<le> \<lceil>of_int (100 * u) / of_int ?e :: rat\<rceil>" "\<lceil>of_int (100 * u) / of_int ?e :: rat\<rceil> \<le> 100 * u"
    using x by (simp_all only: ceiling_le_iff zero_le_ceiling)
  have "100 * u < 2 ^ 63" using u by simp
  have "RequestFloor (Fin (of_int u)) target headroom =
      i64_of_f (Fin (of_int \<lceil>of_int (100 * u) / of_int ?e :: rat\<rceil>))"
    using e(1,4) unfolding RequestFloor_def Let_def m e(3) d by (simp only: f_ceil.simps c not_less [symmetric] if_False simp_thms)
  also have "\<dots> = \<lceil>of_int (100 * u) / of_int ?e :: rat\<rceil>"
    using b \<open>100 * u < 2 ^ 63\<close> by (intro i64_of_f_int in_i64_nonneg) linarith+
  finally show ?thesis .
qed

lemma RequestFloor_le_iff:
  assumes "0 \<le> u" "u \<le> 2 ^ 38" "hpa_params_ok target headroom"
  shows "RequestFloor (Fin (of_int u)) target headroom \<le> r \<longleftrightarrow> 100 * u \<le> r * (target - headroom)"
proof -
  have e: "0 < target - headroom" using assms(3) by (simp add: hpa_params_ok_def)
  then have ep: "(0::rat) < of_int (target - headroom)" by simp
  have "RequestFloor (Fin (of_int u)) target headroom \<le> r
      \<longleftrightarrow> (of_int (100 * u) :: rat) / of_int (target - headroom) \<le> of_int r"
    unfolding RequestFloor_exact [OF assms] by (rule ceiling_le_iff)
  also have "\<dots> \<longleftrightarrow> (of_int (100 * u) :: rat) \<le> of_int (r * (target - headroom))"
    using ep by (simp only: pos_divide_le_eq of_int_mult)
  also have "\<dots> \<longleftrightarrow> 100 * u \<le> r * (target - headroom)" by (simp only: of_int_le_iff)
  finally show ?thesis .
qed

section \<open>Properties\<close>

text \<open>C31. \<open>RequestFloor\<close> is the exact threshold: for integral usage (up to 256 GiB in bytes) and an HPA
  whose target is above the reserved headroom, a request keeps the utilization the HPA observes at
  or below \<open>target - headroom\<close> if and only if it is at least the floor. No float64 rounding moves
  the floor by even one unit.\<close>

theorem request_floor_least:
  assumes "0 \<le> u" "u \<le> 2 ^ 38" "hpa_params_ok target headroom"
  shows "RequestFloor (Fin (of_int u)) target headroom \<le> r \<longleftrightarrow> 100 * u \<le> r * (target - headroom)"
  by (rule RequestFloor_le_iff [OF assms])

theorem request_floor_least_witness:
  "RequestFloor (Fin 350) 80 10 \<le> 500 \<and> \<not> RequestFloor (Fin 350) 80 10 \<le> 499"
  using request_floor_least [of 350 80 10 500] request_floor_least [of 350 80 10 499]
  by (simp add: hpa_params_ok_def)

text \<open>There is no floor exactly when the HPA gives no room for one: \<open>RequestFloor\<close> is 0 for a
  resource the HPA does not scale on, and also whenever the reserved headroom is at least the target
  (which the comment of the function does not mention): then a downward resize is not floored at
  all, though the HPA does scale on the resource.\<close>

theorem request_floor_disabled:
  assumes "0 \<le> headroom" "headroom < 2 ^ 31" "target \<le> headroom" "- (2 ^ 31) \<le> target - headroom"
  shows "RequestFloor usage target headroom = 0"
  using assms by (simp add: RequestFloor_def wrap32_id Let_def)

theorem request_floor_disabled_witness: "RequestFloor (Fin 350) 40 50 = 0"
  by (rule request_floor_disabled) simp_all

text \<open>\<open>TargetUtilization\<close> reads each resource independently: the answer for CPU (and memory) is the
  average utilization of the last Resource or ContainerResource metric that sets one on that
  resource, and 0 when there is none; metrics of other types, on other resources or with other
  target types never interfere.\<close>

theorem target_utilization_last:
  "TargetUtilization (Some h) =
     (last_or 0 (List.map_filter (utilization_of ResourceCPU) (Metrics h)),
      last_or 0 (List.map_filter (utilization_of ResourceMemory) (Metrics h)))"
  by (simp add: TargetUtilization_def targetLoop_eq)

text \<open>The pause around an HPA ends: once the replica counts agree and the settle window has passed
  since the last scale event, the HPA is not scaling any more, and stays so while its status does
  not change; before that it is scaling at every moment.\<close>

theorem is_scaling_window:
  assumes "DesiredReplicas h = CurrentReplicas h" "LastScaleTime h = Some t" "in_i64 settle" "0 \<le> settle" "settle < 2 ^ 63 - 1"
  shows "IsScaling (Some h) settle now \<longleftrightarrow> now < t + settle"
  using assms time_sub_ge_iff [of settle now t] by (auto simp: IsScaling_def not_le [symmetric])

theorem is_scaling_window_witness:
  "IsScaling (Some \<lparr>RefKind = ''Deployment'', RefName = ''web'', Metrics = [], DesiredReplicas = 2,
     CurrentReplicas = 2, LastScaleTime = Some 1000\<rparr>) minute 60000000999
   \<and> \<not> IsScaling (Some \<lparr>RefKind = ''Deployment'', RefName = ''web'', Metrics = [], DesiredReplicas = 2,
     CurrentReplicas = 2, LastScaleTime = Some 1000\<rparr>) minute 60000001000"
  using is_scaling_window [of "\<lparr>RefKind = ''Deployment'', RefName = ''web'', Metrics = [], DesiredReplicas = 2,
     CurrentReplicas = 2, LastScaleTime = Some 1000\<rparr>" 1000 minute]
  by (simp add: in_i64_def minute_def)

end
