(* ===== verification/Histogram.thy ===== *)
theory Histogram
  imports GoTime
begin

text \<open>
  \<open>internal/recommender/histogram.go\<close>: exponentially bucketed histograms whose samples lose weight
  over time. \<open>math.Log\<close>, \<open>math.Exp2\<close> and \<open>math.Pow\<close> are not exact and their results are not fixed by
  Go's documentation, so they are the fields of a record \<open>libm\<close>; the locale \<open>libm_laws\<close> states the
  coarse facts of them the code relies on. An index out of range panics in Go: \<open>h_observe\<close> returns
  \<open>None\<close> then, and the first group of lemmas shows that this never happens.
\<close>

section \<open>The mathematical library\<close>

definition bucketRatio :: f64 where "bucketRatio = round64 (105 / 100)"
definition bucketCount :: nat where "bucketCount = 200"

record libm =
  m_log :: "f64 \<Rightarrow> f64"
  m_exp2 :: "f64 \<Rightarrow> f64"
  m_pow :: "f64 \<Rightarrow> f64 \<Rightarrow> f64"

locale libm_laws =
  fixes L :: libm
  assumes log_range: "1 \<le> x \<Longrightarrow> x \<le> 2 ^ 64 \<Longrightarrow> \<exists>y. m_log L (Fin x) = Fin y \<and> 0 \<le> y \<and> y \<le> 1024"
    and log_above: "21 / 20 \<le> x \<Longrightarrow> x \<le> 2 ^ 64 \<Longrightarrow> \<exists>y. m_log L (Fin x) = Fin y \<and> 1 / 32 \<le> y \<and> y \<le> 1024"
    and pow_range: "n < bucketCount \<Longrightarrow>
      \<exists>y. m_pow L bucketRatio (Fin (of_nat n)) = Fin y \<and> 1 \<le> y \<and> y \<le> 2 ^ 20"
    and exp2_zero: "m_exp2 L (Fin 0) = Fin 1"
    and exp2_range: "m_exp2 L (Fin x) = PInf \<or> (\<exists>y. m_exp2 L (Fin x) = Fin y \<and> 0 \<le> y)"

section \<open>Definitions\<close>
definition maxWeightBeforeRescale :: f64 where "maxWeightBeforeRescale = Fin 1000000000000"
definition emptyThreshold :: f64 where "emptyThreshold = round64 (1 / 1000000000)"

record decayingHistogram =
  base :: f64
  ratio :: f64
  halfLife :: duration
  weights :: "f64 list"
  totalWeight :: f64
  refTime :: time

definition newDecayingHistogram :: "f64 \<Rightarrow> duration \<Rightarrow> decayingHistogram" where
  "newDecayingHistogram b hl =
     \<lparr>base = b, ratio = bucketRatio, halfLife = hl, weights = replicate bucketCount (Fin 0),
      totalWeight = Fin 0, refTime = 0\<rparr>"

definition bucketFor :: "libm \<Rightarrow> decayingHistogram \<Rightarrow> f64 \<Rightarrow> i64" where
  "bucketFor L h value =
     (if f_le value (base h) then 0
      else
        let idx = i64_of_f (f_ceil (f_div (m_log L (f_div value (base h))) (m_log L (ratio h))))
        in if int (length (weights h)) \<le> idx then int (length (weights h)) - 1 else idx)"

definition upperBound :: "libm \<Rightarrow> decayingHistogram \<Rightarrow> nat \<Rightarrow> f64" where
  "upperBound L h idx = f_mul (base h) (m_pow L (ratio h) (f_of_i64 (int idx)))"

definition sampleWeight :: "libm \<Rightarrow> decayingHistogram \<Rightarrow> time \<Rightarrow> f64" where
  \<comment> \<open>\<open>math.Exp2(t.Sub(h.refTime).Seconds() / h.halfLife.Seconds())\<close>\<close>
  "sampleWeight L h t = m_exp2 L (f_div (dur_seconds (time_sub t (refTime h))) (dur_seconds (halfLife h)))"

definition rescale :: "libm \<Rightarrow> decayingHistogram \<Rightarrow> time \<Rightarrow> decayingHistogram" where
  "rescale L h now =
     (let factor = sampleWeight L h now
      in h\<lparr>weights := map (\<lambda>w. f_div w factor) (weights h),
           totalWeight := f_div (totalWeight h) factor,
           refTime := now\<rparr>)"

definition h_observe :: "libm \<Rightarrow> decayingHistogram \<Rightarrow> f64 \<Rightarrow> time \<Rightarrow> decayingHistogram option" where
  "h_observe L h value t =
     (let h = (if time_is_zero (refTime h) then h\<lparr>refTime := t\<rparr> else h);
          weight = sampleWeight L h t;
          (h, weight) = (if f_lt maxWeightBeforeRescale weight then (rescale L h t, Fin 1) else (h, weight));
          idx = bucketFor L h value
      in if 0 \<le> idx \<and> idx < int (length (weights h))
         then Some (h\<lparr>weights := (weights h)[nat idx := f_add (weights h ! nat idx) weight],
                      totalWeight := f_add (totalWeight h) weight\<rparr>)
         else None)"

definition h_empty :: "decayingHistogram \<Rightarrow> bool" where
  "h_empty h \<longleftrightarrow> f_lt (totalWeight h) emptyThreshold"

fun cumulativeIndex :: "f64 \<Rightarrow> f64 \<Rightarrow> nat \<Rightarrow> f64 list \<Rightarrow> nat option" where
  \<comment> \<open>the loop of \<open>percentile\<close>: the first index at which the running sum reaches the threshold\<close>
  "cumulativeIndex threshold cumulative i [] = None"
| "cumulativeIndex threshold cumulative i (w # ws) =
     (let cumulative = f_add cumulative w
      in if f_le threshold cumulative then Some i else cumulativeIndex threshold cumulative (Suc i) ws)"

definition percentileIndex :: "decayingHistogram \<Rightarrow> f64 \<Rightarrow> nat" where
  "percentileIndex h p =
     (case cumulativeIndex (f_mul p (totalWeight h)) (Fin 0) 0 (weights h) of
        Some i \<Rightarrow> i
      | None \<Rightarrow> length (weights h) - 1)"

definition h_percentile :: "libm \<Rightarrow> decayingHistogram \<Rightarrow> f64 \<Rightarrow> f64" where
  "h_percentile L h p = (if h_empty h then Fin 0 else upperBound L h (percentileIndex h p))"

section \<open>Finite weights\<close>

definition fin_le :: "nat \<Rightarrow> f64 \<Rightarrow> bool" where
  \<comment> \<open>a finite weight that \<open>n\<close> samples can have summed to\<close>
  "fin_le n w \<longleftrightarrow> (\<exists>q. w = Fin q \<and> 0 \<le> q \<and> q \<le> of_nat n * 2 ^ 41)"

lemma fin_le_zero: "fin_le n (Fin 0)"
  by (simp add: fin_le_def)

lemma fin_le_mono: "fin_le n w \<Longrightarrow> n \<le> m \<Longrightarrow> fin_le m w"
  by (auto simp: fin_le_def intro: order_trans mult_right_mono)

lemma is_f64_units:
  assumes "n \<le> 2 ^ 53"
  shows "is_f64 (of_nat n * 2 ^ 41)"
proof -
  have "int n \<le> int (2 ^ 53)" using assms by (simp only: of_nat_le_iff)
  then show ?thesis unfolding is_f64_def
    by (intro exI [of _ "int n"] exI [of _ 41]) simp
qed

lemma units_limit: "n \<le> 2 ^ 53 \<Longrightarrow> (of_nat n * 2 ^ 41 :: rat) \<le> f64_half_limit"
proof (rule le_half_limit)
  assume "n \<le> 2 ^ 53"
  then have "(of_nat n :: rat) \<le> of_nat (2 ^ 53)" by (simp only: of_nat_le_iff)
  then have "(of_nat n * 2 ^ 41 :: rat) \<le> 2 ^ 53 * 2 ^ 41" by (intro mult_right_mono) simp_all
  then show "(of_nat n * 2 ^ 41 :: rat) \<le> 2 ^ 200" by simp
qed

lemma round64_units:
  assumes "0 \<le> x" "x \<le> of_nat n * 2 ^ 41" "n \<le> 2 ^ 53"
  shows "fin_le n (round64 x)"
proof -
  have "\<bar>x\<bar> \<le> f64_half_limit" using assms units_limit [of n] by (simp add: abs_of_nonneg)
  then have "round64 x = Fin (rnd x)" by (rule round64_Fin)
  moreover have "rnd x \<le> of_nat n * 2 ^ 41"
    using assms by (intro rnd_le_iff_f64 is_f64_units)
  ultimately show ?thesis using assms(1) by (simp add: fin_le_def rnd_nonneg)
qed

lemma f_add_fin_le:
  assumes "fin_le n a" "fin_le 1 b" "n < 2 ^ 53"
  shows "fin_le (Suc n) (f_add a b)"
proof -
  obtain x y where "a = Fin x" "0 \<le> x" "x \<le> of_nat n * 2 ^ 41" "b = Fin y" "0 \<le> y" "y \<le> 2 ^ 41"
    using assms(1,2) by (auto simp: fin_le_def)
  then show ?thesis using assms(3) by (auto simp: algebra_simps intro!: round64_units)
qed

lemma f_div_fin_le:
  assumes "fin_le n w" "n \<le> 2 ^ 53" "f_lt maxWeightBeforeRescale factor"
  shows "fin_le n (f_div w factor)"
proof -
  obtain x where w: "w = Fin x" "0 \<le> x" "x \<le> of_nat n * 2 ^ 41" using assms(1) by (auto simp: fin_le_def)
  show ?thesis
  proof (cases factor)
    case (Fin f)
    then have f: "1 < f" using assms(3) by (simp add: maxWeightBeforeRescale_def)
    then have "x / f \<le> x / 1" using w(2) by (intro divide_left_mono) simp_all
    then have "fin_le n (round64 (x / f))" using w f assms(2) by (intro round64_units) simp_all
    then show ?thesis using f by (simp add: w Fin)
  next
    case PInf
    then show ?thesis by (simp add: w fin_le_zero)
  qed (use assms(3) in \<open>simp_all add: maxWeightBeforeRescale_def\<close>)
qed

section \<open>Well-formed histograms\<close>

definition hist_ok :: "nat \<Rightarrow> decayingHistogram \<Rightarrow> bool" where
  \<comment> \<open>the state after at most \<open>n\<close> samples: all buckets are there and every weight is finite\<close>
  "hist_ok n h \<longleftrightarrow> ratio h = bucketRatio \<and> halfLife h = 12 * hour \<and> (\<exists>b. base h = Fin b \<and> 10 \<le> b \<and> b \<le> 2 ^ 24) \<and> length (weights h) = bucketCount
     \<and> list_all (fin_le n) (weights h) \<and> fin_le n (totalWeight h)"

lemma hist_ok_new: "10 \<le> b \<Longrightarrow> b \<le> 2 ^ 24 \<Longrightarrow> hist_ok 0 (newDecayingHistogram (Fin b) (12 * hour))"
  by (simp add: hist_ok_def newDecayingHistogram_def list_all_length fin_le_zero)

lemma hist_ok_mono: "hist_ok n h \<Longrightarrow> n \<le> m \<Longrightarrow> hist_ok m h"
  by (auto simp: hist_ok_def list_all_iff intro: fin_le_mono)

lemma bucketRatio_val: "bucketRatio = Fin (4728779608739021 / 4503599627370496)"
  by code_simp

context libm_laws
begin

lemma bucketFor_range:
  assumes h: "hist_ok n h" and v: "value = Fin v" "v \<le> 2 ^ 64"
  shows "0 \<le> bucketFor L h value" "bucketFor L h value < int (length (weights h))"
proof -
  obtain b where b: "base h = Fin b" "10 \<le> b" and r: "ratio h = bucketRatio"
    and len: "length (weights h) = 200"
    using h by (auto simp: hist_ok_def bucketCount_def)
  have "0 \<le> bucketFor L h value \<and> bucketFor L h value < int (length (weights h))"
  proof (cases "v \<le> b")
    case True
    then show ?thesis using len by (simp add: bucketFor_def b v)
  next
    case False
    then have vb: "1 \<le> v / b" "v / b \<le> v" using b by (simp_all add: divide_le_eq mult_le_cancel_left1)
    have "v / b \<le> 2 ^ 200" using vb v(2) by (intro order_trans [OF vb(2)] order_trans [OF v(2)]) simp
    then have "\<bar>v / b\<bar> \<le> f64_half_limit" using vb by (intro le_half_limit) simp
    then have d: "f_div value (base h) = Fin (rnd (v / b))" using b v by (simp add: round64_Fin)
    have "1 \<le> rnd (v / b)" using rnd_ge_iff_f64 [OF is_f64_int [of 1]] vb by simp
    moreover have "is_f64 (2 ^ 64)" unfolding is_f64_def by (intro exI [of _ 1] exI [of _ 64]) simp
    then have "rnd (v / b) \<le> 2 ^ 64" using vb(2) v(2) by (intro rnd_le_iff_f64) simp_all
    ultimately obtain y where y: "m_log L (f_div value (base h)) = Fin y" "0 \<le> y" "y \<le> 1024"
      using log_range d by metis
    obtain z where z: "m_log L (ratio h) = Fin z" "1 / 32 \<le> z" "z \<le> 1024"
      using log_above [of "4728779608739021 / 4503599627370496"] by (auto simp: r bucketRatio_val)
    have yz: "0 \<le> y / z" using y z by simp
    have "y / z \<le> 1024 / (1 / 32)" using y z by (intro frac_le) simp_all
    then have yz2: "y / z \<le> 2 ^ 15" by simp
    have "\<bar>y / z\<bar> \<le> f64_half_limit" using yz yz2 by (intro le_half_limit) simp
    then have q: "f_div (Fin y) (Fin z) = Fin (rnd (y / z))" using z by (simp add: round64_Fin)
    have "0 \<le> rnd (y / z)" using yz by (rule rnd_nonneg)
    moreover have "rnd (y / z) \<le> of_int (2 ^ 15)" using yz2 by (intro rnd_le_iff_f64 is_f64_int) simp_all
    ultimately have c: "0 \<le> \<lceil>rnd (y / z)\<rceil>" "\<lceil>rnd (y / z)\<rceil> \<le> 2 ^ 15"
      by (simp_all only: zero_le_ceiling ceiling_le_iff)
    have "(2::int) ^ 15 < 2 ^ 63" by simp
    then have "i64_of_f (f_ceil (f_div (Fin y) (Fin z))) = \<lceil>rnd (y / z)\<rceil>"
      unfolding q f_ceil.simps using c by (intro i64_of_f_int in_i64_nonneg) linarith+
    moreover have "\<not> f_le value (base h)" using False by (simp add: b v)
    ultimately show ?thesis using c(1) len
      by (simp del: f_div.simps f_ceil.simps zero_le_ceiling add: bucketFor_def y(1) z(1) Let_def)
  qed
  then show "0 \<le> bucketFor L h value" "bucketFor L h value < int (length (weights h))" by simp_all
qed

end

section \<open>Seconds\<close>

lemma round64_le_int:
  assumes "\<bar>x\<bar> \<le> of_int (2 ^ k)" "k \<le> 53"
  shows "\<exists>q. round64 x = Fin q \<and> \<bar>q\<bar> \<le> of_int (2 ^ k)"
proof -
  have k: "(2::int) ^ k \<le> 2 ^ 53" using assms(2) by (rule power_increasing) simp
  then have "(of_int (2 ^ k) :: rat) \<le> of_int (2 ^ 53)" by (simp only: of_int_le_iff)
  also have "\<dots> \<le> 2 ^ 200" by simp
  finally have "\<bar>x\<bar> \<le> f64_half_limit" using assms(1) by (intro le_half_limit) linarith
  moreover have "\<bar>rnd x\<bar> \<le> of_int (2 ^ k)"
    unfolding rnd_abs using assms(1) k by (intro rnd_le_iff_f64 is_f64_int) simp_all
  ultimately show ?thesis by (simp add: round64_Fin)
qed

lemma sdiv_smod_bounds:
  assumes "in_i64 d"
  shows "\<bar>d sdiv 1000000000\<bar> \<le> 2 ^ 34" "\<bar>d smod 1000000000\<bar> \<le> 2 ^ 30"
  using assms
  by (auto simp: in_i64_def signed_divide_int_def signed_modulo_int_def sgn_if abs_if minus_div_mult_eq_mod [symmetric] split: if_splits)

lemma dur_seconds_Fin:
  assumes "in_i64 d"
  obtains s where "dur_seconds d = Fin s" "\<bar>s\<bar> \<le> 2 ^ 36"
proof -
  note b = sdiv_smod_bounds [OF assms]
  have q: "f_of_i64 (d sdiv 1000000000) = Fin (of_int (d sdiv 1000000000))"
    using b(1) by (intro f_of_i64_exact) simp
  have r: "f_of_i64 (d smod 1000000000) = Fin (of_int (d smod 1000000000))"
    using b(2) by (intro f_of_i64_exact) simp
  have r4: "\<bar>of_int (d smod 1000000000) / 1000000000 :: rat\<bar> \<le> of_int (2 ^ 2)"
  proof -
    have "(of_int \<bar>d smod 1000000000\<bar> :: rat) \<le> of_int (2 ^ 30)" using b(2) by (simp only: of_int_le_iff)
    then show ?thesis by (simp add: abs_divide)
  qed
  obtain f where f: "round64 (of_int (d smod 1000000000) / 1000000000) = Fin f" "\<bar>f\<bar> \<le> of_int (2 ^ 2)"
    using round64_le_int [OF r4] by auto
  have "(of_int \<bar>d sdiv 1000000000\<bar> :: rat) \<le> of_int (2 ^ 34)" using b(1) by (simp only: of_int_le_iff)
  then have s36: "\<bar>of_int (d sdiv 1000000000) + f\<bar> \<le> of_int (2 ^ 36)" using f(2) by simp
  obtain s where "round64 (of_int (d sdiv 1000000000) + f) = Fin s" "\<bar>s\<bar> \<le> of_int (2 ^ 36)"
    using round64_le_int [OF s36] by auto
  then show ?thesis using that [of s] q r f(1) by (simp add: dur_seconds_def second_def)
qed

lemma half_day_seconds: "dur_seconds (12 * hour) = Fin 43200"
  by code_simp

section \<open>Samples are never lost to a panic\<close>

context libm_laws
begin

lemma sampleWeight_cases:
  assumes "halfLife h = 12 * hour"
  shows "sampleWeight L h t = PInf \<or> (\<exists>y. sampleWeight L h t = Fin y \<and> 0 \<le> y)"
proof -
  obtain s where s: "dur_seconds (time_sub t (refTime h)) = Fin s" "\<bar>s\<bar> \<le> 2 ^ 36"
    using dur_seconds_Fin [OF time_sub_in] by blast
  have q36: "\<bar>s / 43200\<bar> \<le> of_int (2 ^ 36)" using s(2) by (simp add: abs_divide)
  obtain q where "round64 (s / 43200) = Fin q" using round64_le_int [OF q36] by auto
  then have "sampleWeight L h t = m_exp2 L (Fin q)"
    using assms s(1) by (simp add: sampleWeight_def half_day_seconds)
  then show ?thesis using exp2_range by simp
qed

lemma rescale_ok:
  assumes "hist_ok n h" "n \<le> 2 ^ 53" "f_lt maxWeightBeforeRescale (sampleWeight L h t)"
  shows "hist_ok n (rescale L h t)"
  using assms by (auto simp: hist_ok_def rescale_def Let_def list_all_iff intro: f_div_fin_le)

lemma h_observe_ok:
  assumes h: "hist_ok n h" "n < 2 ^ 53" and v: "value = Fin v" "v \<le> 2 ^ 64"
  obtains h' where "h_observe L h value t = Some h'" "hist_ok (Suc n) h'"
proof -
  define h1 where "h1 = (if time_is_zero (refTime h) then h\<lparr>refTime := t\<rparr> else h)"
  have h1: "hist_ok n h1" using h(1) by (simp add: h1_def hist_ok_def)
  then have hl: "halfLife h1 = 12 * hour" by (simp add: hist_ok_def)
  define big where "big \<longleftrightarrow> f_lt maxWeightBeforeRescale (sampleWeight L h1 t)"
  define h2 where "h2 = (if big then rescale L h1 t else h1)"
  define w where "w = (if big then Fin 1 else sampleWeight L h1 t)"
  have h2: "hist_ok n h2" using h1 rescale_ok [OF h1 less_imp_le [OF h(2)]] by (simp add: h2_def big_def)
  have w: "fin_le 1 w"
    using sampleWeight_cases [OF hl, of t]
    by (auto simp: w_def fin_le_def big_def maxWeightBeforeRescale_def)
  let ?i = "bucketFor L h2 value"
  note i = bucketFor_range [OF h2 v]
  let ?h = "h2\<lparr>weights := (weights h2)[nat ?i := f_add (weights h2 ! nat ?i) w], totalWeight := f_add (totalWeight h2) w\<rparr>"
  have "h_observe L h value t = Some ?h"
    using i unfolding h_observe_def h1_def [symmetric]
    by (cases big) (simp_all add: Let_def h2_def w_def big_def [symmetric])
  moreover have "hist_ok (Suc n) ?h"
  proof -
    have all: "fin_le n x" if "x \<in> set (weights h2)" for x using h2 that by (simp add: hist_ok_def list_all_iff)
    have "nat ?i < length (weights h2)" using i by simp
    then have "fin_le n (weights h2 ! nat ?i)" by (intro all nth_mem)
    then have new: "fin_le (Suc n) (f_add (weights h2 ! nat ?i) w)" using w h(2) by (rule f_add_fin_le)
    have "fin_le (Suc n) x" if "x \<in> set ((weights h2)[nat ?i := f_add (weights h2 ! nat ?i) w])" for x
      using set_update_subset_insert that new all fin_le_mono [of n x "Suc n"] by fastforce
    moreover have "fin_le (Suc n) (f_add (totalWeight h2) w)"
      using h2 w h(2) by (intro f_add_fin_le) (simp_all add: hist_ok_def)
    ultimately show ?thesis using h2 by (simp add: hist_ok_def list_all_iff)
  qed
  ultimately show ?thesis by (rule that)
qed

end

section \<open>A histogram with a sample is not empty\<close>

definition hist_live :: "decayingHistogram \<Rightarrow> bool" where
  "hist_live h \<longleftrightarrow> (\<exists>w. totalWeight h = Fin w \<and> 1 \<le> w)"

lemma hist_live_not_empty: "hist_live h \<Longrightarrow> \<not> h_empty h"
proof -
  have e: "emptyThreshold = Fin (4835703278458517 / 4835703278458516698824704)" by code_simp
  show "hist_live h \<Longrightarrow> \<not> h_empty h" unfolding hist_live_def h_empty_def e by auto
qed

lemma f_add_live:
  assumes "fin_le n a" "fin_le 1 b" "n < 2 ^ 53" "a = Fin x" "1 \<le> x \<or> b = Fin 1"
  shows "\<exists>w. f_add a b = Fin w \<and> 1 \<le> w"
proof -
  obtain y where y: "b = Fin y" "0 \<le> y" using assms(2) by (auto simp: fin_le_def)
  have x: "0 \<le> x" using assms(1,4) by (simp add: fin_le_def)
  obtain w where w: "f_add a b = Fin w" using f_add_fin_le [OF assms(1-3)] by (auto simp: fin_le_def)
  have "1 \<le> x + y" using assms(5) x y by auto
  then have "1 \<le> rnd (x + y)" using rnd_ge_iff_f64 [OF is_f64_int [of 1]] by simp
  then show ?thesis using w by (auto simp: assms(4) y(1) round64_alt Let_def split: if_splits)
qed

context libm_laws
begin

lemma h_observe_live:
  assumes h: "hist_ok n h" "n < 2 ^ 53"
    and live: "hist_live h \<or> refTime h = 0" and obs: "h_observe L h value t = Some h'"
  shows "hist_live h'"
proof -
  define h1 where "h1 = (if time_is_zero (refTime h) then h\<lparr>refTime := t\<rparr> else h)"
  have h1: "hist_ok n h1" using h(1) by (simp add: h1_def hist_ok_def)
  then have hl: "halfLife h1 = 12 * hour" by (simp add: hist_ok_def)
  define big where "big \<longleftrightarrow> f_lt maxWeightBeforeRescale (sampleWeight L h1 t)"
  define h2 where "h2 = (if big then rescale L h1 t else h1)"
  define w where "w = (if big then Fin 1 else sampleWeight L h1 t)"
  have h2: "hist_ok n h2" using h1 rescale_ok [OF h1 less_imp_le [OF h(2)]] by (simp add: h2_def big_def)
  have w: "fin_le 1 w"
    using sampleWeight_cases [OF hl, of t]
    by (auto simp: w_def fin_le_def big_def maxWeightBeforeRescale_def)
  have "totalWeight h' = f_add (totalWeight h2) w"
    using obs unfolding h_observe_def h1_def [symmetric]
    by (cases big) (auto simp: Let_def h2_def w_def big_def [symmetric] split: if_splits)
  moreover obtain x where x: "totalWeight h2 = Fin x" using h2 by (auto simp: hist_ok_def fin_le_def)
  moreover have "1 \<le> x \<or> w = Fin 1"
  proof (cases "big \<or> refTime h = 0")
    case True
    moreover have "sampleWeight L h1 t = Fin 1" if "refTime h = 0"
    proof -
      have "dur_seconds 0 = Fin 0" by code_simp
      moreover have "f_div (Fin 0) (Fin 43200) = Fin 0" by code_simp
      ultimately show ?thesis using that hl
        by (simp add: h1_def time_is_zero_def sampleWeight_def half_day_seconds exp2_zero time_sub_def)
    qed
    ultimately show ?thesis by (auto simp: w_def)
  next
    case False
    then have "hist_live h2" using live by (simp add: h2_def h1_def time_is_zero_def)
    then show ?thesis using x by (simp add: hist_live_def)
  qed
  moreover have "fin_le n (totalWeight h2)" using h2 by (simp add: hist_ok_def)
  ultimately show ?thesis using f_add_live [OF _ w h(2)] by (simp add: hist_live_def)
qed

end

section \<open>The percentile loop\<close>

fun running :: "f64 \<Rightarrow> f64 list \<Rightarrow> f64 list" where
  \<comment> \<open>the float64 running sums\<close>
  "running c [] = []"
| "running c (w # ws) = f_add c w # running (f_add c w) ws"

lemma length_running [simp]: "length (running c ws) = length ws"
  by (induction ws arbitrary: c) simp_all

lemma cumulativeIndex_cases:
  "case cumulativeIndex thr c i ws of
     None \<Rightarrow> \<forall>j < length ws. \<not> f_le thr (running c ws ! j)
   | Some k \<Rightarrow> \<exists>j < length ws. k = i + j \<and> f_le thr (running c ws ! j) \<and> (\<forall>j' < j. \<not> f_le thr (running c ws ! j'))"
proof (induction ws arbitrary: c i)
  case (Cons w ws)
  show ?case
  proof (cases "f_le thr (f_add c w)")
    case True
    then show ?thesis by (simp add: Let_def)
  next
    case False
    show ?thesis
    proof (cases "cumulativeIndex thr (f_add c w) (Suc i) ws")
      case None
      then show ?thesis using False Cons.IH [of "f_add c w" "Suc i"]
        by (auto simp: Let_def nth_Cons split: nat.split)
    next
      case (Some k)
      then obtain j where "j < length ws" "k = Suc i + j" "f_le thr (running (f_add c w) ws ! j)"
          "\<forall>j' < j. \<not> f_le thr (running (f_add c w) ws ! j')"
        using Cons.IH [of "f_add c w" "Suc i"] by auto
      then show ?thesis using False Some
        by (simp add: Let_def All_less_Suc2)
    qed
  qed
qed simp

lemma percentileIndex_cases:
  assumes "weights h \<noteq> []"
  obtains (found) "percentileIndex h p < length (weights h)"
      "f_le (f_mul p (totalWeight h)) (running (Fin 0) (weights h) ! percentileIndex h p)"
      "\<forall>j < percentileIndex h p. \<not> f_le (f_mul p (totalWeight h)) (running (Fin 0) (weights h) ! j)"
    | (none) "percentileIndex h p = length (weights h) - 1"
      "\<forall>j < length (weights h). \<not> f_le (f_mul p (totalWeight h)) (running (Fin 0) (weights h) ! j)"
proof (cases "cumulativeIndex (f_mul p (totalWeight h)) (Fin 0) 0 (weights h)")
  case None
  then show ?thesis using cumulativeIndex_cases [where thr = "f_mul p (totalWeight h)" and c = "Fin 0" and i = 0 and ws = "weights h"] none
    by (simp add: percentileIndex_def)
next
  case (Some k)
  then show ?thesis using cumulativeIndex_cases [where thr = "f_mul p (totalWeight h)" and c = "Fin 0" and i = 0 and ws = "weights h"] found
    by (auto simp: percentileIndex_def)
qed

lemma percentileIndex_less:
  "weights h \<noteq> [] \<Longrightarrow> percentileIndex h p < length (weights h)"
  by (rule percentileIndex_cases [of h p]) auto

lemma percentileIndex_mono:
  assumes "weights h \<noteq> []" "f_le (f_mul p (totalWeight h)) (f_mul p' (totalWeight h))"
  shows "percentileIndex h p \<le> percentileIndex h p'"
proof (rule percentileIndex_cases [OF assms(1), of p'])
  assume f: "percentileIndex h p' < length (weights h)"
    "f_le (f_mul p' (totalWeight h)) (running (Fin 0) (weights h) ! percentileIndex h p')"
  then have r: "f_le (f_mul p (totalWeight h)) (running (Fin 0) (weights h) ! percentileIndex h p')"
    using assms(2) f_le_trans by blast
  show ?thesis
    by (rule percentileIndex_cases [OF assms(1), of p]) (use r f in \<open>auto simp: not_less [symmetric]\<close>)
next
  assume "percentileIndex h p' = length (weights h) - 1"
  then show ?thesis using percentileIndex_less [OF assms(1), of p] by simp
qed

context libm_laws
begin

lemma h_percentile_Fin:
  assumes h: "hist_ok n h" "\<not> h_empty h"
  obtains q where "h_percentile L h p = Fin q" "1 \<le> q" "q \<le> 2 ^ 44"
proof -
  obtain b where b: "base h = Fin b" "10 \<le> b" "b \<le> 2 ^ 24" and r: "ratio h = bucketRatio"
    and l: "length (weights h) = bucketCount" using h(1) by (auto simp: hist_ok_def)
  have "percentileIndex h p < bucketCount"
    using percentileIndex_less [of h p] l by (cases "weights h") (simp_all add: bucketCount_def)
  then obtain y where y: "m_pow L bucketRatio (Fin (of_nat (percentileIndex h p))) = Fin y" "1 \<le> y" "y \<le> 2 ^ 20"
    using pow_range by blast
  have "int (percentileIndex h p) \<le> 2 ^ 53"
    using \<open>percentileIndex h p < bucketCount\<close> by (simp add: bucketCount_def)
  then have f: "f_of_i64 (int (percentileIndex h p)) = Fin (of_nat (percentileIndex h p))"
    by (subst f_of_i64_exact) simp_all
  have "1 * 1 \<le> b * y" using b y by (intro mult_mono) simp_all
  then have lo: "1 \<le> b * y" by simp
  have "b * y \<le> 2 ^ 24 * 2 ^ 20" using b y by (intro mult_mono) simp_all
  then have hi: "b * y \<le> of_int (2 ^ 44)" by simp
  have "\<bar>b * y\<bar> \<le> f64_half_limit" using lo hi by (intro le_half_limit) simp
  then have "round64 (b * y) = Fin (rnd (b * y))" by (rule round64_Fin)
  moreover have "1 \<le> rnd (b * y)" using rnd_ge_iff_f64 [OF is_f64_int [of 1]] lo by simp
  moreover have "rnd (b * y) \<le> of_int (2 ^ 44)" using hi by (intro rnd_le_iff_f64 is_f64_int) simp_all
  ultimately show ?thesis using that h(2) b(1) y(1) r f by (simp add: h_percentile_def upperBound_def)
qed

end

section \<open>A reference library\<close>

text \<open>
  An executable instance of the laws, piecewise linear between powers of two; the witnesses run on it.
\<close>

definition ex_libm :: libm where
  "ex_libm = \<lparr>
     m_log = (\<lambda>x. case x of
         Fin a \<Rightarrow> if a \<le> 0 then NaN else round64 ((of_int (expo a) + (a / 2 powi expo a - 1)) * (7 / 10))
       | PInf \<Rightarrow> PInf | _ \<Rightarrow> NaN),
     m_exp2 = (\<lambda>x. case x of
         Fin a \<Rightarrow> round64 (2 powi \<lfloor>a\<rfloor> * (1 + (a - of_int \<lfloor>a\<rfloor>)))
       | PInf \<Rightarrow> PInf | NInf \<Rightarrow> Fin 0 | NaN \<Rightarrow> NaN),
     m_pow = (\<lambda>x y. case (x, y) of (Fin a, Fin b) \<Rightarrow> round64 (a powi \<lfloor>b\<rfloor>) | _ \<Rightarrow> NaN) \<rparr>"

lemma ex_log_bounds:
  assumes "1 \<le> x" "x \<le> 2 ^ 64"
  defines "z \<equiv> (of_int (expo x) + (x / 2 powi expo x - 1)) * (7 / 10)"
  shows "m_log ex_libm (Fin x) = Fin (rnd z)" "0 \<le> rnd z" "rnd z \<le> 1024"
    "21 / 20 \<le> x \<Longrightarrow> 1 / 32 \<le> rnd z"
proof -
  have e1: "expo 1 = 0" and e2: "expo (2 ^ 64) = 64" by code_simp+
  have e: "0 \<le> expo x" "expo x \<le> 64"
    using expo_mono [of 1 x] expo_mono [of x "2 ^ 64"] assms e1 e2 by simp_all
  note b = expo_bounds [of x]
  have "2 powi expo x \<le> x" "x < 2 powi (expo x + 1)" using b assms(1) by simp_all
  then have f: "0 \<le> x / 2 powi expo x - 1" "x / 2 powi expo x - 1 \<le> 1"
    by (simp_all add: two_powi_Suc le_divide_eq divide_le_eq)
  let ?s = "of_int (expo x) + (x / 2 powi expo x - 1)"
  have "0 \<le> ?s" using e f by (intro add_nonneg_nonneg) simp_all
  moreover have "?s \<le> of_int 64 + 1" using e(2) f(2) by (intro add_mono) (simp_all only: of_int_le_iff)
  ultimately have "0 \<le> z" "z \<le> (of_int 64 + 1) * (7 / 10)"
    unfolding z_def by (intro mult_nonneg_nonneg mult_right_mono; simp)+
  then have z: "0 \<le> z" "z \<le> of_int 1024" by simp_all
  have "\<bar>z\<bar> \<le> f64_half_limit" using z by (intro le_half_limit) simp
  then show "m_log ex_libm (Fin x) = Fin (rnd z)"
    using assms(1) by (simp add: ex_libm_def z_def round64_Fin)
  show "0 \<le> rnd z" using z(1) by (rule rnd_nonneg)
  show "rnd z \<le> 1024" using rnd_le_iff_f64 [OF is_f64_int [of 1024] z(2)] by simp
  show "1 / 32 \<le> rnd z" if x: "21 / 20 \<le> x"
  proof (intro rnd_ge_iff_f64)
    show "is_f64 (1 / 32)" unfolding is_f64_def
      by (intro exI [of _ 1] exI [of _ "- 5"]) (simp add: power_int_minus)
    show "1 / 32 \<le> z"
    proof (cases "expo x = 0")
      case True
      then show ?thesis using x by (simp add: z_def)
    next
      case False
      then have "(1::rat) \<le> of_int (expo x)" using e by simp
      then have "1 + 0 \<le> ?s" using f(1) by (rule add_mono)
      then have "(1 + 0) * (7 / 10) \<le> z" unfolding z_def by (rule mult_right_mono) simp
      then show ?thesis by simp
    qed
  qed
qed

lemma ex_exp2_range: "m_exp2 ex_libm (Fin x) = PInf \<or> (\<exists>y. m_exp2 ex_libm (Fin x) = Fin y \<and> 0 \<le> y)"
proof -
  have "0 \<le> 2 powi \<lfloor>x\<rfloor> * (1 + (x - of_int \<lfloor>x\<rfloor>))"
    by (intro mult_nonneg_nonneg) (simp_all add: less_imp_le)
  from rnd_nonneg [OF this] show ?thesis
    using half_limit_less by (auto simp: ex_libm_def round64_alt Let_def)
qed

lemma ex_pow_range:
  assumes "n < bucketCount"
  shows "\<exists>y. m_pow ex_libm bucketRatio (Fin (of_nat n)) = Fin y \<and> 1 \<le> y \<and> y \<le> 2 ^ 20"
proof -
  let ?a = "4728779608739021 / 4503599627370496 :: rat"
  have f: "m_pow ex_libm bucketRatio (Fin (of_nat n)) = round64 (?a ^ n)"
    by (simp add: ex_libm_def bucketRatio_val power_int_def)
  have lo: "1 \<le> ?a ^ n" by (rule one_le_power) simp
  have "?a ^ n \<le> (17 / 16) ^ n" by (intro power_mono) simp_all
  also have "\<dots> \<le> (17 / 16) ^ (11 * 19)" using assms by (intro power_increasing) (simp_all add: bucketCount_def)
  also have "\<dots> = ((17 / 16) ^ 11) ^ 19" by (rule power_mult)
  also have "\<dots> \<le> 2 ^ 19" by (intro power_mono) (simp_all add: power_divide)
  finally have hi: "?a ^ n \<le> 2 ^ 20" by simp
  have "round64 (?a ^ n) = Fin (rnd (?a ^ n))"
    using lo hi by (intro round64_Fin le_half_limit) simp
  moreover have "1 \<le> rnd (?a ^ n)" using rnd_ge_iff_f64 [OF is_f64_int [of 1]] lo by simp
  moreover have "rnd (?a ^ n) \<le> 2 ^ 20" using rnd_le_iff_f64 [OF is_f64_int [of "2 ^ 20"]] hi by simp
  ultimately show ?thesis using f by auto
qed

interpretation exl: libm_laws ex_libm
proof
  fix x :: rat assume x: "1 \<le> x" "x \<le> 2 ^ 64"
  show "\<exists>y. m_log ex_libm (Fin x) = Fin y \<and> 0 \<le> y \<and> y \<le> 1024"
    using ex_log_bounds(1-3) [OF x] by blast
next
  fix x :: rat assume x: "21 / 20 \<le> x" "x \<le> 2 ^ 64"
  then have "1 \<le> x" by simp
  then show "\<exists>y. m_log ex_libm (Fin x) = Fin y \<and> 1 / 32 \<le> y \<and> y \<le> 1024"
    using ex_log_bounds(1,3,4) x by blast
next
  show "m_exp2 ex_libm (Fin 0) = Fin 1" by code_simp
qed (rule ex_pow_range ex_exp2_range; assumption?)+

section \<open>Properties\<close>

text \<open>C28. Observing never panics and never corrupts the histogram: from a well-formed state reached by
  fewer than \<open>2^53\<close> samples, a sample of any size up to \<open>2^64\<close> and at any time, earlier than the
  reference time included, finds a bucket inside the array and leaves all weights finite and
  nonnegative, through rescaling too.\<close>

theorem observe_never_panics:
  assumes "libm_laws L" "hist_ok n h" "n < 2 ^ 53" "v \<le> 2 ^ 64"
  shows "\<exists>h'. h_observe L h (Fin v) t = Some h' \<and> hist_ok (Suc n) h'"
  by (rule libm_laws.h_observe_ok [OF assms(1-3) refl assms(4), of t]) blast

theorem observe_never_panics_witness:
  "\<exists>h'. h_observe ex_libm (newDecayingHistogram (Fin 10) (12 * hour)) (Fin 250) 5 = Some h' \<and> hist_ok (Suc 0) h'"
  by (rule observe_never_panics [OF exl.libm_laws_axioms hist_ok_new]) simp_all

text \<open>A larger percentile never reads a smaller bucket: with the same samples, the bucket chosen for
  \<open>p\<close> is at or below the one chosen for any \<open>p' >= p\<close>, despite the rounding of the threshold and of
  the running sums.\<close>

theorem percentile_monotone:
  assumes "hist_ok n h" "p \<le> p'"
  shows "percentileIndex h (Fin p) \<le> percentileIndex h (Fin p')"
proof -
  obtain w where w: "totalWeight h = Fin w" "0 \<le> w" using assms(1) by (auto simp: hist_ok_def fin_le_def)
  have "weights h \<noteq> []" using assms(1) by (auto simp: hist_ok_def bucketCount_def)
  moreover have "f_le (f_mul (Fin p) (totalWeight h)) (f_mul (Fin p') (totalWeight h))"
    using w assms(2) by (simp add: round64_mono mult_right_mono)
  ultimately show ?thesis by (rule percentileIndex_mono)
qed

theorem percentile_monotone_witness:
  "percentileIndex (newDecayingHistogram (Fin 10) (12 * hour)) (Fin (9 / 10))
     \<le> percentileIndex (newDecayingHistogram (Fin 10) (12 * hour)) (Fin (19 / 20))"
  by (rule percentile_monotone [OF hist_ok_new]) simp_all

text \<open>The percentile is the least one: the running weight of every bucket below the chosen one is
  short of \<open>p\<close> times the total, and the chosen one reaches it, unless no bucket does, in which case
  it is the last bucket.\<close>

theorem percentile_is_least:
  assumes "hist_ok n h"
  shows "percentileIndex h p < bucketCount
    \<and> (\<forall>j < percentileIndex h p. \<not> f_le (f_mul p (totalWeight h)) (running (Fin 0) (weights h) ! j))
    \<and> (f_le (f_mul p (totalWeight h)) (running (Fin 0) (weights h) ! percentileIndex h p)
       \<or> percentileIndex h p = bucketCount - 1
         \<and> (\<forall>j < bucketCount. \<not> f_le (f_mul p (totalWeight h)) (running (Fin 0) (weights h) ! j)))"
proof -
  have ne: "weights h \<noteq> []" and l: "length (weights h) = bucketCount"
    using assms(1) by (auto simp: hist_ok_def bucketCount_def)
  show ?thesis
    by (rule percentileIndex_cases [OF ne, of p])
      (use l percentileIndex_less [OF ne, of p] in auto)
qed

theorem percentile_is_least_witness:
  "percentileIndex (newDecayingHistogram (Fin 10) (12 * hour)) (Fin 1) < bucketCount"
  using percentile_is_least [OF hist_ok_new [of 10], of "Fin 1"] by simp

text \<open>
  Three samples, at 1s, 3481s and 59941s after the zero time, of falling size: the last one is in
  bucket 0, the first one in bucket 2. The total adds their weights in the order of time, the
  percentile loop in the order of buckets.
\<close>

definition ex_weight1 :: f64 where "ex_weight1 = Fin (4866389597353119 / 4503599627370496)"
definition ex_weight2 :: f64 where "ex_weight2 = Fin (6248744482976563 / 2251799813685248)"

definition ex_hist :: decayingHistogram where
  "ex_hist = (newDecayingHistogram (Fin 10) (12 * hour))
     \<lparr>weights := [ex_weight2, ex_weight1, Fin 1] @ replicate 197 (Fin 0),
      totalWeight := f_add (f_add (Fin 1) ex_weight1) ex_weight2, refTime := 1000000000\<rparr>"

lemma ex_weight_at:
  "m_exp2 ex_libm (f_div (dur_seconds 3480000000000) (Fin 43200)) = ex_weight1"
  "m_exp2 ex_libm (f_div (dur_seconds 59940000000000) (Fin 43200)) = ex_weight2"
  by code_simp+

lemma ex_weights:
  "sampleWeight ex_libm (newDecayingHistogram (Fin 10) (12 * hour) \<lparr>refTime := 1000000000\<rparr>) 3481000000000 = ex_weight1"
  "sampleWeight ex_libm (newDecayingHistogram (Fin 10) (12 * hour) \<lparr>refTime := 1000000000\<rparr>) 59941000000000 = ex_weight2"
  by (simp_all only: sampleWeight_def newDecayingHistogram_def half_day_seconds decayingHistogram.simps
      decayingHistogram.update_convs time_sub_def)
    (simp_all add: ex_weight_at del: f_div.simps)

lemma ex_sums:
  "f_add (Fin 1) ex_weight1 = Fin (292812163272613 / 140737488355328)"
  "f_add (Fin (292812163272613 / 140737488355328)) ex_weight2 = Fin (2733434773834593 / 562949953421312)"
  "f_mul (Fin 1) (Fin (2733434773834593 / 562949953421312)) = Fin (2733434773834593 / 562949953421312)"
  "f_add (Fin 0) ex_weight2 = ex_weight2"
  "f_add ex_weight2 ex_weight1 = Fin (4340969640826561 / 1125899906842624)"
  "f_add (Fin (4340969640826561 / 1125899906842624)) (Fin 1) = Fin (5466869547669185 / 1125899906842624)"
  "f_add (Fin (5466869547669185 / 1125899906842624)) (Fin 0) = Fin (5466869547669185 / 1125899906842624)"
  by code_simp+

lemma cumulativeIndex_zeros:
  "f_add c (Fin 0) = c \<Longrightarrow> \<not> f_le thr c \<Longrightarrow> cumulativeIndex thr c i (replicate n (Fin 0)) = None"
  by (induction n arbitrary: i) (simp_all add: Let_def)

text \<open>The 100th percentile can read the last bucket of the array although every sample lies in the
  first three: the float64 sum in bucket order (4.855555555555555) is below the sum in time order
  (4.855555555555556), so no bucket reaches \<open>1.0 * total\<close> and the loop falls through to bucket 199,
  more than sixteen thousand times the base.\<close>

theorem percentile_hundred_falls_through:
  "percentileIndex ex_hist (Fin 1) = 199"
proof -
  have t: "f_mul (Fin 1) (totalWeight ex_hist) = Fin (2733434773834593 / 562949953421312)"
    by (simp add: ex_hist_def ex_sums del: f_add.simps f_mul.simps)
  have w2: "\<not> f_le (Fin (2733434773834593 / 562949953421312)) ex_weight2" by (simp add: ex_weight2_def)
  have "cumulativeIndex (Fin (2733434773834593 / 562949953421312)) (Fin 0) 0 (weights ex_hist) = None"
    using cumulativeIndex_zeros [OF ex_sums(7)] w2
    by (simp add: ex_hist_def Let_def ex_sums del: f_add.simps)
  then show ?thesis unfolding percentileIndex_def t by (simp add: ex_hist_def)
qed

end
