(* ===== verification/Recommender.thy ===== *)
theory Recommender
  imports Histogram
begin

text \<open>
  \<open>internal/recommender/recommender.go\<close>: per container of each workload, a CPU and a memory
  histogram and the time of the last sample of each Pod. The mutex makes each method atomic, so the
  recommender is a value the methods return updated; \<open>None\<close> stands for a panic inside a histogram.
\<close>

section \<open>Definitions\<close>

definition cpuBaseMilli :: f64 where "cpuBaseMilli = Fin 10"
definition memBaseBytes :: f64 where "memBaseBytes = Fin 10485760"
definition defaultHalfDay :: duration where "defaultHalfDay = 12 * hour"

record container_key =
  ck_Namespace :: string
  ck_Workload :: string
  ck_Container :: string

record recommendation =
  CPUMilli :: f64
  MemBytes :: f64

record container_state =
  st_cpu :: decayingHistogram
  st_mem :: decayingHistogram
  lastSample :: "(string, time) gomap"

record recommender =
  r_halfLife :: duration
  states :: "(container_key, container_state) gomap"

definition New :: recommender where
  "New = \<lparr>r_halfLife = defaultHalfDay, states = []\<rparr>"

definition newState :: "recommender \<Rightarrow> container_state" where
  "newState r =
     \<lparr>st_cpu = newDecayingHistogram cpuBaseMilli (r_halfLife r),
      st_mem = newDecayingHistogram memBaseBytes (r_halfLife r), lastSample = []\<rparr>"

definition Observe ::
  "libm \<Rightarrow> recommender \<Rightarrow> container_key \<Rightarrow> string \<Rightarrow> f64 \<Rightarrow> f64 \<Rightarrow> time \<Rightarrow> recommender option" where
  "Observe L r key pod cpuMilli memBytes t =
     (let (state, r) = (case map_of (states r) key of
            Some state \<Rightarrow> (state, r)
          | None \<Rightarrow> (newState r, r\<lparr>states := AList.update key (newState r) (states r)\<rparr>))
      in if (case map_of (lastSample state) pod of Some prev \<Rightarrow> \<not> time_after t prev | None \<Rightarrow> False)
         then Some r
         else
           let state = state\<lparr>lastSample := AList.update pod t (lastSample state)\<rparr>
           in (case h_observe L (st_cpu state) cpuMilli t of
                 None \<Rightarrow> None
               | Some c \<Rightarrow>
                   (case h_observe L (st_mem state) memBytes t of
                      None \<Rightarrow> None
                    | Some m \<Rightarrow> Some (r\<lparr>states := AList.update key (state\<lparr>st_cpu := c, st_mem := m\<rparr>) (states r)\<rparr>))))"

definition Recommend ::
  "libm \<Rightarrow> recommender \<Rightarrow> container_key \<Rightarrow> f64 \<Rightarrow> f64 \<Rightarrow> recommendation option" where
  \<comment> \<open>\<open>None\<close> is \<open>ok = false\<close>\<close>
  "Recommend L r key cpuPercentile memPercentile =
     (case map_of (states r) key of
        None \<Rightarrow> None
      | Some state \<Rightarrow>
          if h_empty (st_cpu state) then None
          else Some \<lparr>CPUMilli = h_percentile L (st_cpu state) cpuPercentile,
                     MemBytes = h_percentile L (st_mem state) memPercentile\<rparr>)"

definition Forget :: "recommender \<Rightarrow> string \<Rightarrow> string \<Rightarrow> recommender" where
  "Forget r namespace workload =
     r\<lparr>states := filter (\<lambda>(key, _). \<not> (ck_Namespace key = namespace \<and> ck_Workload key = workload)) (states r)\<rparr>"

section \<open>Runs of samples\<close>

record sample =
  s_key :: container_key
  s_pod :: string
  s_cpu :: i64
  s_mem :: i64
  s_time :: time

definition observe1 :: "libm \<Rightarrow> recommender option \<Rightarrow> sample \<Rightarrow> recommender option" where
  "observe1 L r s =
     Option.bind r (\<lambda>r. Observe L r (s_key s) (s_pod s) (f_of_i64 (s_cpu s)) (f_of_i64 (s_mem s)) (s_time s))"

definition observe_all :: "libm \<Rightarrow> recommender \<Rightarrow> sample list \<Rightarrow> recommender option" where
  "observe_all L r ss = foldl (observe1 L) (Some r) ss"

section \<open>Well-formed recommenders\<close>

definition rec_ok :: "nat \<Rightarrow> recommender \<Rightarrow> bool" where
  \<comment> \<open>a recommender that has seen at most \<open>n\<close> samples\<close>
  "rec_ok n r \<longleftrightarrow> r_halfLife r = 12 * hour
     \<and> (\<forall>k st. map_of (states r) k = Some st \<longrightarrow> hist_ok n (st_cpu st) \<and> hist_ok n (st_mem st))"

lemma rec_ok_New: "rec_ok 0 New"
  by (simp add: rec_ok_def New_def defaultHalfDay_def)

lemma hist_ok_newState: "r_halfLife r = 12 * hour \<Longrightarrow> hist_ok n (st_cpu (newState r)) \<and> hist_ok n (st_mem (newState r))"
  by (simp add: newState_def cpuBaseMilli_def memBaseBytes_def hist_ok_mono [OF hist_ok_new])

lemma rec_ok_mono: "rec_ok n r \<Longrightarrow> n \<le> m \<Longrightarrow> rec_ok m r"
  by (auto simp: rec_ok_def intro: hist_ok_mono)

definition entry :: "recommender \<Rightarrow> container_key \<Rightarrow> container_state" where
  "entry r key = map_zero (newState r) (states r) key"

lemma Observe_eq:
  "Observe L r key pod cpu mem t =
     (if (\<exists>prev. map_of (lastSample (entry r key)) pod = Some prev \<and> t \<le> prev)
      then Some (r\<lparr>states := (if map_of (states r) key = None then AList.update key (newState r) (states r) else states r)\<rparr>)
      else Option.bind (h_observe L (st_cpu (entry r key)) cpu t) (\<lambda>c.
           Option.bind (h_observe L (st_mem (entry r key)) mem t) (\<lambda>m.
             Some (r\<lparr>states := AList.update key
                    (entry r key\<lparr>lastSample := AList.update pod t (lastSample (entry r key)), st_cpu := c, st_mem := m\<rparr>)
                    (if map_of (states r) key = None then AList.update key (newState r) (states r) else states r)\<rparr>))))"
  by (auto simp: Observe_def entry_def time_after_def not_less Let_def split: option.split bind_split)

lemma f_of_i64_sample:
  assumes "in_i64 n"
  obtains v where "f_of_i64 n = Fin v" "v \<le> 2 ^ 64"
proof -
  have "(of_int n :: rat) \<le> of_int (2 ^ 63)" using assms unfolding in_i64_def by (simp only: of_int_le_iff) simp
  also have "\<dots> \<le> 2 ^ 64" by simp
  finally have "rnd (of_int n) \<le> 2 ^ 64"
    by (intro rnd_le_iff_f64) (simp_all add: is_f64_def exI [of _ 1] exI [of _ 64])
  then show ?thesis using that f_of_i64_Fin [OF assms] by blast
qed

lemma f_of_i64_nonpanic:
  assumes "libm_laws L" "hist_ok n h" "n < 2 ^ 53" "in_i64 v"
  obtains h' where "h_observe L h (f_of_i64 v) t = Some h'" "hist_ok (Suc n) h'"
proof -
  obtain x where "f_of_i64 v = Fin x" "x \<le> 2 ^ 64" by (rule f_of_i64_sample [OF assms(4)])
  then show ?thesis using libm_laws.h_observe_ok [OF assms(1-3)] that by metis
qed

section \<open>What one sample does\<close>

definition seen :: "recommender \<Rightarrow> sample \<Rightarrow> bool" where
  \<comment> \<open>the sample is not newer than the last one recorded for its Pod\<close>
  "seen r s \<longleftrightarrow> (\<exists>st prev. map_of (states r) (s_key s) = Some st
     \<and> map_of (lastSample st) (s_pod s) = Some prev \<and> s_time s \<le> prev)"

lemma observe1_Some: "observe1 L (Some r) s =
    Observe L r (s_key s) (s_pod s) (f_of_i64 (s_cpu s)) (f_of_i64 (s_mem s)) (s_time s)"
  by (simp add: observe1_def)

lemma Observe_seen:
  assumes "seen r s"
  shows "observe1 L (Some r) s = Some r"
  using assms by (auto simp: seen_def observe1_Some Observe_eq entry_def)

lemma Observe_cases:
  assumes "observe1 L (Some r) s = Some r'"
  obtains (dropped) "seen r s" "r' = r"
  | (observed) c m where "\<not> seen r s"
      "h_observe L (st_cpu (entry r (s_key s))) (f_of_i64 (s_cpu s)) (s_time s) = Some c"
      "h_observe L (st_mem (entry r (s_key s))) (f_of_i64 (s_mem s)) (s_time s) = Some m"
      "r_halfLife r' = r_halfLife r"
      "map_of (states r') = (map_of (states r))(s_key s \<mapsto>
         entry r (s_key s)\<lparr>lastSample := AList.update (s_pod s) (s_time s) (lastSample (entry r (s_key s))),
                          st_cpu := c, st_mem := m\<rparr>)"
proof (cases "\<exists>prev. map_of (lastSample (entry r (s_key s))) (s_pod s) = Some prev \<and> s_time s \<le> prev")
  case True
  then have "map_of (states r) (s_key s) \<noteq> None"
    by (cases "map_of (states r) (s_key s)") (auto simp: entry_def newState_def)
  then obtain st where st: "map_of (states r) (s_key s) = Some st" by blast
  then have "seen r s" using True by (auto simp: seen_def entry_def)
  moreover from this have "r' = r" using assms Observe_seen [of r s L] by simp
  ultimately show ?thesis by (rule dropped)
next
  case False
  then have ns: "\<not> seen r s" by (auto simp: seen_def entry_def)
  have "Option.bind (h_observe L (st_cpu (entry r (s_key s))) (f_of_i64 (s_cpu s)) (s_time s)) (\<lambda>c.
      Option.bind (h_observe L (st_mem (entry r (s_key s))) (f_of_i64 (s_mem s)) (s_time s)) (\<lambda>m.
        Some (r\<lparr>states := AList.update (s_key s)
         (entry r (s_key s)\<lparr>lastSample := AList.update (s_pod s) (s_time s) (lastSample (entry r (s_key s))),
            st_cpu := c, st_mem := m\<rparr>)
         (if map_of (states r) (s_key s) = None then AList.update (s_key s) (newState r) (states r) else states r)\<rparr>)))
      = Some r'"
    using assms unfolding observe1_Some Observe_eq if_not_P [OF False] .
  then obtain c m where cm:
      "h_observe L (st_cpu (entry r (s_key s))) (f_of_i64 (s_cpu s)) (s_time s) = Some c"
      "h_observe L (st_mem (entry r (s_key s))) (f_of_i64 (s_mem s)) (s_time s) = Some m"
      "r' = r\<lparr>states := AList.update (s_key s)
         (entry r (s_key s)\<lparr>lastSample := AList.update (s_pod s) (s_time s) (lastSample (entry r (s_key s))),
            st_cpu := c, st_mem := m\<rparr>)
         (if map_of (states r) (s_key s) = None then AList.update (s_key s) (newState r) (states r) else states r)\<rparr>"
    unfolding bind_eq_Some_conv option.inject by blast
  show ?thesis
    by (rule observed [OF ns cm(1,2)]) (simp_all add: cm(3) map_of_update fun_eq_iff)
qed

lemma Observe_records:
  assumes "observe1 L (Some r) s = Some r'"
  shows "seen r' s"
  using assms by (rule Observe_cases) (auto simp: seen_def map_of_update)

lemma Observe_keeps_seen:
  assumes "observe1 L (Some r) s = Some r'" "seen r x"
  shows "seen r' x"
  using assms(1)
proof (rule Observe_cases)
  assume "r' = r" then show ?thesis using assms(2) by simp
next
  fix c m
  assume ns: "\<not> seen r s" and m: "map_of (states r') = (map_of (states r))(s_key s \<mapsto>
         entry r (s_key s)\<lparr>lastSample := AList.update (s_pod s) (s_time s) (lastSample (entry r (s_key s))),
                          st_cpu := c, st_mem := m\<rparr>)"
  obtain st prev where x: "map_of (states r) (s_key x) = Some st" "map_of (lastSample st) (s_pod x) = Some prev"
    "s_time x \<le> prev" using assms(2) by (auto simp: seen_def)
  show ?thesis
  proof (cases "s_key x = s_key s")
    case False
    then show ?thesis using x m by (auto simp: seen_def)
  next
    case True
    then have e: "entry r (s_key s) = st" using x by (simp add: entry_def)
    show ?thesis
    proof (cases "s_pod x = s_pod s")
      case False
      then show ?thesis using x m True by (auto simp: seen_def e map_of_update)
    next
      case pod: True
      then have "prev < s_time s" using ns x True by (auto simp: seen_def not_le)
      then show ?thesis using x m True pod by (auto simp: seen_def e map_of_update)
    qed
  qed
qed

lemma observe_all_Nil [simp]: "observe_all L r [] = Some r"
  by (simp add: observe_all_def)

lemma foldl_observe1_None: "foldl (observe1 L) None ss = None"
  by (induction ss) (simp_all add: observe1_def)

lemma observe_all_Cons:
  "observe_all L r (s # ss) = Option.bind (observe1 L (Some r) s) (\<lambda>r. observe_all L r ss)"
  by (cases "observe1 L (Some r) s") (simp_all add: observe_all_def foldl_observe1_None)

lemma observe_all_seen:
  "observe_all L r ss = Some r' \<Longrightarrow> seen r x \<Longrightarrow> seen r' x"
  by (induction ss arbitrary: r)
    (auto simp: observe_all_Cons bind_eq_Some_conv intro: Observe_keeps_seen)

lemma observe_all_records:
  "observe_all L r ss = Some r' \<Longrightarrow> x \<in> set ss \<Longrightarrow> seen r' x"
  by (induction ss arbitrary: r)
    (auto simp: observe_all_Cons bind_eq_Some_conv intro: observe_all_seen Observe_records)

lemma observe_all_all_seen: "\<forall>s \<in> set ss. seen r s \<Longrightarrow> observe_all L r ss = Some r"
  by (induction ss) (simp_all add: observe_all_Cons Observe_seen)

section \<open>Invariants of a run\<close>

definition rec_live :: "recommender \<Rightarrow> bool" where
  "rec_live r \<longleftrightarrow> (\<forall>k st. map_of (states r) k = Some st \<longrightarrow> hist_live (st_cpu st) \<and> hist_live (st_mem st))"

lemma rec_live_New: "rec_live New"
  by (simp add: rec_live_def New_def)

lemma entry_ok:
  assumes "rec_ok n r"
  shows "hist_ok n (st_cpu (entry r k))" "hist_ok n (st_mem (entry r k))"
  using assms hist_ok_newState [of r n]
  by (cases "map_of (states r) k"; auto simp: entry_def rec_ok_def)+

lemma entry_live:
  assumes "rec_live r"
  shows "hist_live (st_cpu (entry r k)) \<or> refTime (st_cpu (entry r k)) = 0"
    "hist_live (st_mem (entry r k)) \<or> refTime (st_mem (entry r k)) = 0"
  using assms by (cases "map_of (states r) k";
    auto simp: entry_def rec_live_def newState_def newDecayingHistogram_def)+

lemma observe1_ok:
  assumes L: "libm_laws L" and r: "rec_ok n r" "n < 2 ^ 53" and s: "in_i64 (s_cpu s)" "in_i64 (s_mem s)"
  obtains r' where "observe1 L (Some r) s = Some r'" "rec_ok (Suc n) r'" "rec_live r \<Longrightarrow> rec_live r'"
    "dom (map_of (states r')) = insert (s_key s) (dom (map_of (states r)))"
proof -
  obtain c where c: "h_observe L (st_cpu (entry r (s_key s))) (f_of_i64 (s_cpu s)) (s_time s) = Some c" "hist_ok (Suc n) c"
    by (rule f_of_i64_nonpanic [OF L entry_ok(1) [OF r(1)] r(2) s(1)])
  obtain m where m: "h_observe L (st_mem (entry r (s_key s))) (f_of_i64 (s_mem s)) (s_time s) = Some m" "hist_ok (Suc n) m"
    by (rule f_of_i64_nonpanic [OF L entry_ok(2) [OF r(1)] r(2) s(2)])
  have "observe1 L (Some r) s \<noteq> None" using c m by (auto simp: observe1_Some Observe_eq)
  then obtain r' where r': "observe1 L (Some r) s = Some r'" by blast
  have "rec_ok (Suc n) r' \<and> (rec_live r \<longrightarrow> rec_live r')
      \<and> dom (map_of (states r')) = insert (s_key s) (dom (map_of (states r)))"
    using r'
  proof (rule Observe_cases)
    assume "seen r s" "r' = r"
    then show ?thesis using r rec_ok_mono [of n r "Suc n"] by (auto simp: seen_def)
  next
    fix c' m' assume o: "h_observe L (st_cpu (entry r (s_key s))) (f_of_i64 (s_cpu s)) (s_time s) = Some c'"
      "h_observe L (st_mem (entry r (s_key s))) (f_of_i64 (s_mem s)) (s_time s) = Some m'"
      "r_halfLife r' = r_halfLife r"
      "map_of (states r') = (map_of (states r))(s_key s \<mapsto>
         entry r (s_key s)\<lparr>lastSample := AList.update (s_pod s) (s_time s) (lastSample (entry r (s_key s))),
                          st_cpu := c', st_mem := m'\<rparr>)"
    then have e: "c' = c" "m' = m" using c m by simp_all
    have "rec_ok (Suc n) r'"
      using o(3,4) c(2) m(2) r rec_ok_mono [of n r "Suc n"] unfolding e by (auto simp: rec_ok_def)
    moreover have "rec_live r'" if "rec_live r"
      using that o(4) libm_laws.h_observe_live [OF L entry_ok(1) [OF r(1)] r(2) entry_live(1) [OF that] c(1)]
        libm_laws.h_observe_live [OF L entry_ok(2) [OF r(1)] r(2) entry_live(2) [OF that] m(1)]
      unfolding e by (auto simp: rec_live_def)
    ultimately show ?thesis using o(4) by auto
  qed
  then show ?thesis using that r' by blast
qed

lemma observe_all_ok:
  assumes "libm_laws L"
  shows "rec_ok n r \<Longrightarrow> n + length ss < 2 ^ 53 \<Longrightarrow> \<forall>s \<in> set ss. in_i64 (s_cpu s) \<and> in_i64 (s_mem s) \<Longrightarrow>
    \<exists>r'. observe_all L r ss = Some r' \<and> rec_ok (n + length ss) r' \<and> (rec_live r \<longrightarrow> rec_live r')
       \<and> dom (map_of (states r')) = s_key ` set ss \<union> dom (map_of (states r))"
proof (induction ss arbitrary: n r)
  case (Cons s ss)
  have n: "n < 2 ^ 53" and s: "in_i64 (s_cpu s)" "in_i64 (s_mem s)" using Cons.prems by simp_all
  obtain r1 where r1: "observe1 L (Some r) s = Some r1" "rec_ok (Suc n) r1" "rec_live r \<Longrightarrow> rec_live r1"
    "dom (map_of (states r1)) = insert (s_key s) (dom (map_of (states r)))"
    by (rule observe1_ok [OF assms Cons.prems(1) n s]) blast
  have "Suc n + length ss < 2 ^ 53" "\<forall>s \<in> set ss. in_i64 (s_cpu s) \<and> in_i64 (s_mem s)"
    using Cons.prems by simp_all
  from Cons.IH [OF r1(2) this] r1 show ?case by (auto simp: observe_all_Cons)
qed simp

section \<open>Isolation\<close>

lemma observe1_other:
  assumes "observe1 L (Some r) s = Some r'" "k \<noteq> s_key s"
  shows "map_of (states r') k = map_of (states r) k"
  using assms(1) by (rule Observe_cases) (use assms(2) in simp_all)

lemma observe_all_other:
  "observe_all L r ss = Some r' \<Longrightarrow> k \<notin> s_key ` set ss \<Longrightarrow> map_of (states r') k = map_of (states r) k"
  by (induction ss arbitrary: r) (auto simp: observe_all_Cons bind_eq_Some_conv dest!: observe1_other)

lemma map_of_Forget:
  "map_of (states (Forget r ns w)) k =
     (if ck_Namespace k = ns \<and> ck_Workload k = w then None else map_of (states r) k)"
proof -
  have "map_of (filter (\<lambda>(key, _). P key) xs) k = (if P k then map_of xs k else None)" for P and xs :: "(container_key \<times> container_state) list"
    by (induction xs) auto
  then show ?thesis by (simp add: Forget_def)
qed

section \<open>Properties\<close>

definition ex_key :: container_key where
  "ex_key = \<lparr>ck_Namespace = ''default'', ck_Workload = ''web'', ck_Container = ''app''\<rparr>"

definition ex_samples :: "sample list" where
  "ex_samples = [\<lparr>s_key = ex_key, s_pod = ''p0'', s_cpu = 250, s_mem = 52428800, s_time = 60000000000\<rparr>]"

text \<open>Feeding samples always succeeds and is remembered: from an empty recommender any sequence of
  fewer than \<open>2^53\<close> samples, in any order and for any containers and Pods, is taken without a panic,
  and afterwards \<open>Recommend\<close> has an answer for exactly the containers a sample was fed for.\<close>

theorem recommend_iff_observed:
  assumes "libm_laws L" "length ss < 2 ^ 53" "\<forall>s \<in> set ss. in_i64 (s_cpu s) \<and> in_i64 (s_mem s)"
  shows "\<exists>r. observe_all L New ss = Some r \<and> (\<forall>k p q. Recommend L r k p q \<noteq> None \<longleftrightarrow> k \<in> s_key ` set ss)"
proof -
  obtain r where r: "observe_all L New ss = Some r" "rec_live r"
    "dom (map_of (states r)) = s_key ` set ss \<union> dom (map_of (states New))"
    using observe_all_ok [OF assms(1) rec_ok_New, of ss] assms(2,3) rec_live_New by auto
  have d: "dom (map_of (states r)) = s_key ` set ss" using r(3) by (simp add: New_def)
  have "Recommend L r k p q \<noteq> None \<longleftrightarrow> k \<in> s_key ` set ss" for k p q
  proof (cases "map_of (states r) k")
    case None
    then show ?thesis using d by (auto simp: Recommend_def domIff)
  next
    case (Some st)
    then have "\<not> h_empty (st_cpu st)" using r(2) hist_live_not_empty by (auto simp: rec_live_def)
    moreover have "k \<in> s_key ` set ss" using Some d by blast
    ultimately show ?thesis by (simp add: Recommend_def Some)
  qed
  then show ?thesis using r(1) by blast
qed

theorem recommend_iff_observed_witness:
  "\<exists>r. observe_all ex_libm New ex_samples = Some r
     \<and> (\<forall>k p q. Recommend ex_libm r k p q \<noteq> None \<longleftrightarrow> k \<in> s_key ` set ex_samples)"
  by (rule recommend_iff_observed [OF exl.libm_laws_axioms]) (simp_all add: ex_samples_def in_i64_def)

text \<open>Replaying samples changes nothing: once a sequence of samples has been observed, observing the
  whole sequence again, in full and in the same order, leaves the recommender exactly as it was.
  Reconciles that fire faster than the metrics resolution cannot skew a histogram.\<close>

theorem observe_replay:
  assumes "observe_all L r ss = Some r'"
  shows "observe_all L r' ss = Some r'"
  using observe_all_records [OF assms] by (intro observe_all_all_seen) blast

theorem observe_replay_witness:
  "\<exists>r. observe_all ex_libm New ex_samples = Some r \<and> observe_all ex_libm r ex_samples = Some r"
proof -
  obtain r where r: "observe_all ex_libm New ex_samples = Some r"
    using observe_all_ok [OF exl.libm_laws_axioms rec_ok_New, of ex_samples]
    by (auto simp: ex_samples_def in_i64_def)
  then show ?thesis using observe_replay [OF r] by blast
qed

text \<open>Containers do not influence each other: samples of other containers, of the same workload or
  of others, never change what \<open>Recommend\<close> answers for a container at any percentiles.\<close>

theorem observe_isolated:
  assumes "observe_all L r ss = Some r'" "k \<notin> s_key ` set ss"
  shows "Recommend L r' k p q = Recommend L r k p q"
  using observe_all_other [OF assms] by (simp add: Recommend_def)

theorem observe_isolated_witness:
  "\<exists>r. observe_all ex_libm New ex_samples = Some r
     \<and> Recommend ex_libm r (ex_key\<lparr>ck_Container := ''sidecar''\<rparr>) (Fin 1) (Fin 1)
         = Recommend ex_libm New (ex_key\<lparr>ck_Container := ''sidecar''\<rparr>) (Fin 1) (Fin 1)"
proof -
  obtain r where r: "observe_all ex_libm New ex_samples = Some r"
    using observe_all_ok [OF exl.libm_laws_axioms rec_ok_New, of ex_samples]
    by (auto simp: ex_samples_def in_i64_def)
  then show ?thesis using observe_isolated [OF r, of "ex_key\<lparr>ck_Container := ''sidecar''\<rparr>"]
    by (auto simp: ex_samples_def ex_key_def)
qed

text \<open>\<open>Forget\<close> drops one workload and nothing else: afterwards no container of the workload has a
  recommendation and every other container has the one it had.\<close>

theorem forget_exact:
  "Recommend L (Forget r ns w) k p q =
     (if ck_Namespace k = ns \<and> ck_Workload k = w then None else Recommend L r k p q)"
  by (simp add: Recommend_def map_of_Forget)

end
