(* ===== verification/Metrics.thy ===== *)
theory Metrics
  imports Api
begin

text \<open>
  \<open>internal/metrics/provider.go\<close> and \<open>metricsserver.go\<close>: usage samples of Pods. A provider is a
  function from a namespace and a selector to samples or an error; the Metrics Server provider
  rebuilds them from the answer of the \<open>metrics.k8s.io\<close> API.
\<close>

section \<open>Definitions\<close>

record 'q container_usage =
  cu_Container :: string
  cu_CPU :: 'q
  cu_Memory :: 'q

record 'q pod_usage =
  pu_Pod :: string
  pu_Timestamp :: time
  pu_Containers :: "'q container_usage list"

type_synonym ('q, 'sel) provider = "string \<Rightarrow> 'sel \<Rightarrow> 'q pod_usage list go_result"

record 'q container_metrics =
  \<comment> \<open>\<open>v1beta1.ContainerMetrics\<close>\<close>
  cm_Name :: string
  cm_Usage :: "'q rlist"

record 'q pod_metrics =
  \<comment> \<open>\<open>v1beta1.PodMetrics\<close>\<close>
  pm_Name :: string
  pm_Timestamp :: time
  pm_Containers :: "'q container_metrics list"

definition containerUsage :: "'q quantity_api \<Rightarrow> 'q container_metrics \<Rightarrow> 'q container_usage" where
  "containerUsage Q c =
     \<lparr>cu_Container = cm_Name c, cu_CPU = map_zero (q_zero Q) (cm_Usage c) ResourceCPU,
      cu_Memory = map_zero (q_zero Q) (cm_Usage c) ResourceMemory\<rparr>"

definition podUsage :: "'q quantity_api \<Rightarrow> 'q pod_metrics \<Rightarrow> 'q pod_usage" where
  "podUsage Q pm =
     \<lparr>pu_Pod = pm_Name pm, pu_Timestamp = pm_Timestamp pm,
      pu_Containers = map (containerUsage Q) (pm_Containers pm)\<rparr>"

definition MetricsServerListPodUsage ::
  "'q quantity_api \<Rightarrow> (string \<Rightarrow> 'sel \<Rightarrow> 'q pod_metrics list go_result) \<Rightarrow> ('q, 'sel) provider" where
  \<comment> \<open>the second argument is the client of the metrics API\<close>
  "MetricsServerListPodUsage Q listPodMetrics namespace selector =
     (case listPodMetrics namespace selector of
        Inl err \<Rightarrow> Inl (''listing pod metrics: '' @ err)
      | Inr items \<Rightarrow> Inr (map (podUsage Q) items))"

end
