(* ===== verification/Recommendation.thy ===== *)
theory Recommendation
  imports Recommender Metrics "HOL-Library.List_Lexorder" "HOL-Library.Char_ord"
begin

text \<open>
  \<open>internal/controller/recommendation.go\<close>: feeding usage samples to the recommender and building the
  recommendations of a DynamicResource, rounded, with a safety margin, and clamped to the bounds of
  the spec, plus the mean usage per container for the HPA arithmetic.

  \<open>LabelSelectorAsSelector\<close> belongs to \<open>k8s.io/apimachinery\<close> and is the parameter \<open>asSelector\<close>; the
  metrics backend is a \<open>provider\<close>, queried once per workload. The result is \<open>None\<close> when a histogram
  panics. The recommender keeps what it was fed even when a later workload fails.
\<close>

section \<open>Constants and small helpers\<close>

definition safetyMarginFactor :: f64 where "safetyMarginFactor = round64 (110 / 100)"
definition defaultCPUPercentile :: f64 where "defaultCPUPercentile = round64 (90 / 100)"
definition defaultMemPercentile :: f64 where "defaultMemPercentile = round64 (95 / 100)"
definition cpuRoundingMilli :: i64 where "cpuRoundingMilli = 10"
definition memRoundingBytes :: i64 where "memRoundingBytes = 1024 * 1024"
definition minMemoryRecommendationBytes :: f64 where "minMemoryRecommendationBytes = Fin (32 * 1024 * 1024)"

record usage_snapshot =
  us_CPUMilli :: f64
  us_MemBytes :: f64

definition zero_usage :: usage_snapshot where
  "zero_usage = \<lparr>us_CPUMilli = Fin 0, us_MemBytes = Fin 0\<rparr>"

definition percentiles :: "metrics_config option \<Rightarrow> f64 \<times> f64" where
  "percentiles m =
     (case m of
        None \<Rightarrow> (defaultCPUPercentile, defaultMemPercentile)
      | Some m \<Rightarrow>
          (if 0 < CPUPercentile m then f_div (f_of_i64 (CPUPercentile m)) (Fin 100) else defaultCPUPercentile,
           if 0 < MemoryPercentile m then f_div (f_of_i64 (MemoryPercentile m)) (Fin 100) else defaultMemPercentile))"

fun findOverride :: "'q container_override list \<Rightarrow> string \<Rightarrow> 'q container_override option" where
  "findOverride [] name = None"
| "findOverride (o1 # os) name = (if co_ContainerName o1 = name then Some o1 else findOverride os name)"

definition boundsFor :: "'q resource_policy \<Rightarrow> 'q container_override option \<Rightarrow> 'q resource_bounds \<times> 'q resource_bounds" where
  "boundsFor policy override =
     (case override of
        None \<Rightarrow> (rp_CPU policy, rp_Memory policy)
      | Some ov \<Rightarrow>
          ((case co_CPU ov of Some b \<Rightarrow> b | None \<Rightarrow> rp_CPU policy),
           (case co_Memory ov of Some b \<Rightarrow> b | None \<Rightarrow> rp_Memory policy)))"

definition roundUpMilli :: "'q quantity_api \<Rightarrow> f64 \<Rightarrow> i64 \<Rightarrow> 'q" where
  "roundUpMilli Q milli step =
     (let rounded = wrap64 (i64_of_f (f_ceil (f_div milli (f_of_i64 step))) * step)
      in q_newMilli Q rounded DecimalSI)"

definition roundUpBytes :: "'q quantity_api \<Rightarrow> f64 \<Rightarrow> i64 \<Rightarrow> 'q" where
  "roundUpBytes Q bytes step =
     (let rounded = wrap64 (i64_of_f (f_ceil (f_div bytes (f_of_i64 step))) * step)
      in q_new Q rounded BinarySI)"

definition clampQuantity :: "'q quantity_api \<Rightarrow> 'q \<Rightarrow> 'q resource_bounds \<Rightarrow> 'q" where
  "clampQuantity Q q bounds =
     (if q_cmp Q q (Min bounds) < 0 then Min bounds
      else if 0 < q_cmp Q q (Max bounds) then Max bounds
      else q)"

definition sortedKeys :: "(string, bool) gomap \<Rightarrow> string list" where
  "sortedKeys m = sort (gomap_keys m)"

definition providerFor ::
  "('q, 'ls) dr_spec \<Rightarrow> ('q, 'sel) provider option \<Rightarrow> ('q, 'sel) provider \<Rightarrow> ('q, 'sel) provider" where
  "providerFor spec prometheusMetrics metrics =
     (case MetricsCfg spec of
        Some m \<Rightarrow> (if Provider m = MetricsProviderPrometheus
                   then (case prometheusMetrics of Some p \<Rightarrow> p | None \<Rightarrow> metrics) else metrics)
      | None \<Rightarrow> metrics)"

section \<open>Feeding the samples of one workload\<close>

record feed_state =
  fs_rec :: recommender
  fs_containers :: "(string, bool) gomap"
  fs_sums :: "(string, usage_snapshot) gomap"
  fs_counts :: "(string, i64) gomap"

definition feedContainer ::
  "libm \<Rightarrow> 'q quantity_api \<Rightarrow> string \<Rightarrow> string \<Rightarrow> 'q pod_usage \<Rightarrow> 'q container_usage \<Rightarrow> feed_state \<Rightarrow> feed_state option" where
  "feedContainer L Q namespace workload pod cu fs =
     (let key = \<lparr>ck_Namespace = namespace, ck_Workload = workload, ck_Container = cu_Container cu\<rparr>;
          cpu = f_of_i64 (q_milli Q (cu_CPU cu));
          mem = f_of_i64 (q_value Q (cu_Memory cu))
      in case Observe L (fs_rec fs) key (pu_Pod pod) cpu mem (pu_Timestamp pod) of
           None \<Rightarrow> None
         | Some r \<Rightarrow>
             let s = map_zero zero_usage (fs_sums fs) (cu_Container cu);
                 s = s\<lparr>us_CPUMilli := f_add (us_CPUMilli s) cpu\<rparr>;
                 s = s\<lparr>us_MemBytes := f_add (us_MemBytes s) mem\<rparr>
             in Some \<lparr>fs_rec = r,
                      fs_containers = AList.update (cu_Container cu) True (fs_containers fs),
                      fs_sums = AList.update (cu_Container cu) s (fs_sums fs),
                      fs_counts = AList.update (cu_Container cu)
                        (wrap64 (map_zero 0 (fs_counts fs) (cu_Container cu) + 1)) (fs_counts fs)\<rparr>)"

fun feedContainers ::
  "libm \<Rightarrow> 'q quantity_api \<Rightarrow> string \<Rightarrow> string \<Rightarrow> 'q pod_usage \<Rightarrow> 'q container_usage list \<Rightarrow> feed_state \<Rightarrow> feed_state option" where
  "feedContainers L Q namespace workload pod [] fs = Some fs"
| "feedContainers L Q namespace workload pod (cu # cus) fs =
     (case feedContainer L Q namespace workload pod cu fs of
        None \<Rightarrow> None
      | Some fs \<Rightarrow> feedContainers L Q namespace workload pod cus fs)"

fun feedPods ::
  "libm \<Rightarrow> 'q quantity_api \<Rightarrow> string \<Rightarrow> string \<Rightarrow> 'q pod_usage list \<Rightarrow> feed_state \<Rightarrow> feed_state option" where
  "feedPods L Q namespace workload [] fs = Some fs"
| "feedPods L Q namespace workload (pod # pods) fs =
     (case feedContainers L Q namespace workload pod (pu_Containers pod) fs of
        None \<Rightarrow> None
      | Some fs \<Rightarrow> feedPods L Q namespace workload pods fs)"

definition meanUsage :: "feed_state \<Rightarrow> (string, usage_snapshot) gomap" where
  "meanUsage fs =
     map (\<lambda>(name, s).
            let n = f_of_i64 (map_zero 0 (fs_counts fs) name)
            in (name, \<lparr>us_CPUMilli = f_div (us_CPUMilli s) n, us_MemBytes = f_div (us_MemBytes s) n\<rparr>))
       (fs_sums fs)"

section \<open>Recommendations\<close>

definition recommendContainer ::
  "libm \<Rightarrow> 'q quantity_api \<Rightarrow> ('q, 'ls) dr_spec \<Rightarrow> recommender \<Rightarrow> string \<Rightarrow> string \<Rightarrow> string \<Rightarrow> 'q container_recommendation option" where
  "recommendContainer L Q spec r namespace workload name =
     (let (cpuPct, memPct) = percentiles (MetricsCfg spec);
          override = findOverride (ContainerOverrides spec) name
      in if (case override of Some ov \<Rightarrow> co_Mode ov = ContainerModeOff | None \<Rightarrow> False) then None
         else
           (case Recommend L r \<lparr>ck_Namespace = namespace, ck_Workload = workload, ck_Container = name\<rparr> cpuPct memPct of
              None \<Rightarrow> None
            | Some raw \<Rightarrow>
                let (cpuBounds, memBounds) = boundsFor (Resources spec) override;
                    cpu = clampQuantity Q
                            (roundUpMilli Q (f_mul (CPUMilli raw) safetyMarginFactor) cpuRoundingMilli) cpuBounds;
                    mem = clampQuantity Q
                            (roundUpBytes Q (f_max (f_mul (MemBytes raw) safetyMarginFactor) minMemoryRecommendationBytes)
                               memRoundingBytes) memBounds
                in Some \<lparr>ContainerName = name, Target = [(ResourceCPU, cpu), (ResourceMemory, mem)], Applied = []\<rparr>))"

type_synonym 'q recommendations = "'q workload_recommendation list"
type_synonym usage_map = "(string, (string, usage_snapshot) gomap) gomap"

fun computeLoop ::
  "libm \<Rightarrow> 'q quantity_api \<Rightarrow> ('ls \<Rightarrow> 'sel go_result) \<Rightarrow> ('q, 'sel) provider \<Rightarrow> string \<Rightarrow> ('q, 'ls) dr_spec
   \<Rightarrow> 'ls deployment list \<Rightarrow> recommender \<Rightarrow> 'q recommendations \<Rightarrow> usage_map
   \<Rightarrow> (('q recommendations \<times> usage_map) go_result \<times> recommender) option" where
  "computeLoop L Q asSelector provider namespace spec [] r out usage = Some (Inr (out, usage), r)"
| "computeLoop L Q asSelector provider namespace spec (deploy # ds) r out usage =
     (case asSelector (PodSelector deploy) of
        Inl _ \<Rightarrow> computeLoop L Q asSelector provider namespace spec ds r out usage
      | Inr podSelector \<Rightarrow>
          (case provider namespace podSelector of
             Inl err \<Rightarrow> Some (Inl (''workload '' @ d_Name deploy @ '': '' @ err), r)
           | Inr usages \<Rightarrow>
               (case feedPods L Q namespace (d_Name deploy) usages
                       \<lparr>fs_rec = r, fs_containers = [], fs_sums = [], fs_counts = []\<rparr> of
                  None \<Rightarrow> None
                | Some fs \<Rightarrow>
                    let usage = (if fs_sums fs \<noteq> [] then AList.update (d_Name deploy) (meanUsage fs) usage else usage);
                        recs = List.map_filter
                          (recommendContainer L Q spec (fs_rec fs) namespace (d_Name deploy))
                          (sortedKeys (fs_containers fs));
                        out = (if recs \<noteq> [] then out @ [\<lparr>Workload = d_Name deploy, Containers = recs\<rparr>] else out)
                    in computeLoop L Q asSelector provider namespace spec ds (fs_rec fs) out usage)))"

definition computeRecommendations ::
  "libm \<Rightarrow> 'q quantity_api \<Rightarrow> ('ls \<Rightarrow> 'sel go_result) \<Rightarrow> ('q, 'sel) provider \<Rightarrow> string \<Rightarrow> ('q, 'ls) dr_spec
   \<Rightarrow> 'ls deployment list \<Rightarrow> recommender \<Rightarrow> (('q recommendations \<times> usage_map) go_result \<times> recommender) option" where
  "computeRecommendations L Q asSelector provider namespace spec matched r =
     (case computeLoop L Q asSelector provider namespace spec matched r [] [] of
        None \<Rightarrow> None
      | Some (Inl err, r) \<Rightarrow> Some (Inl err, r)
      | Some (Inr (out, usage), r) \<Rightarrow> Some (Inr (sort_key Workload out, usage), r))"

end
