(* ===== verification/RecommendationProps.thy ===== *)
theory RecommendationProps
  imports Recommendation "HOL-Library.Sublist"
begin

text \<open>
  What a recommendation pass computes. The samples of a pass, in the order they are fed, are an
  explicit list, and the pass is shown to be \<open>observe_all\<close> on it; the published recommendations are
  sorted, inside the bounds of the spec, never below the memory floor, and absent for containers
  that are switched off.
\<close>

section \<open>The samples of a pass\<close>

definition containerSample :: "'q quantity_api \<Rightarrow> string \<Rightarrow> string \<Rightarrow> 'q pod_usage \<Rightarrow> 'q container_usage \<Rightarrow> sample" where
  "containerSample Q namespace workload pod cu =
     \<lparr>s_key = \<lparr>ck_Namespace = namespace, ck_Workload = workload, ck_Container = cu_Container cu\<rparr>,
      s_pod = pu_Pod pod, s_cpu = q_milli Q (cu_CPU cu), s_mem = q_value Q (cu_Memory cu),
      s_time = pu_Timestamp pod\<rparr>"

definition podSamples :: "'q quantity_api \<Rightarrow> string \<Rightarrow> string \<Rightarrow> 'q pod_usage \<Rightarrow> sample list" where
  "podSamples Q namespace workload pod = map (containerSample Q namespace workload pod) (pu_Containers pod)"

definition usageSamples :: "'q quantity_api \<Rightarrow> string \<Rightarrow> string \<Rightarrow> 'q pod_usage list \<Rightarrow> sample list" where
  "usageSamples Q namespace workload pods = concat (map (podSamples Q namespace workload) pods)"

definition workloadSamples ::
  "'q quantity_api \<Rightarrow> ('ls \<Rightarrow> 'sel go_result) \<Rightarrow> ('q, 'sel) provider \<Rightarrow> string \<Rightarrow> 'ls deployment \<Rightarrow> sample list" where
  \<comment> \<open>what one workload contributes: nothing when its selector is invalid or its metrics fail\<close>
  "workloadSamples Q asSelector provider namespace deploy =
     (case asSelector (PodSelector deploy) of
        Inl _ \<Rightarrow> []
      | Inr sel \<Rightarrow> (case provider namespace sel of
            Inl _ \<Rightarrow> []
          | Inr usages \<Rightarrow> usageSamples Q namespace (d_Name deploy) usages))"

lemma observe_all_append:
  "observe_all L r (xs @ ys) = Option.bind (observe_all L r xs) (\<lambda>r. observe_all L r ys)"
  by (induction xs arbitrary: r) (auto simp: observe_all_Cons split: bind_split)

lemma feedContainer_eq:
  "feedContainer L Q ns w pod cu fs = Some fs' \<Longrightarrow>
     observe1 L (Some (fs_rec fs)) (containerSample Q ns w pod cu) = Some (fs_rec fs')
     \<and> fs_containers fs' = AList.update (cu_Container cu) True (fs_containers fs)"
  by (auto simp: feedContainer_def observe1_Some containerSample_def Let_def split: option.splits)

lemma feedContainer_None:
  "feedContainer L Q ns w pod cu fs = None \<longleftrightarrow>
     observe1 L (Some (fs_rec fs)) (containerSample Q ns w pod cu) = None"
  by (auto simp: feedContainer_def observe1_Some containerSample_def Let_def split: option.splits)

lemma feedContainers_eq:
  "case feedContainers L Q ns w pod cus fs of
     None \<Rightarrow> observe_all L (fs_rec fs) (map (containerSample Q ns w pod) cus) = None
   | Some fs' \<Rightarrow> observe_all L (fs_rec fs) (map (containerSample Q ns w pod) cus) = Some (fs_rec fs')
       \<and> set (gomap_keys (fs_containers fs')) = set (gomap_keys (fs_containers fs)) \<union> cu_Container ` set cus
       \<and> (gomap_wf (fs_containers fs) \<longrightarrow> gomap_wf (fs_containers fs'))"
proof (induction cus arbitrary: fs)
  case (Cons cu cus)
  show ?case
  proof (cases "feedContainer L Q ns w pod cu fs")
    case None
    then have "observe1 L (Some (fs_rec fs)) (containerSample Q ns w pod cu) = None"
      by (simp only: feedContainer_None)
    then show ?thesis by (simp add: observe_all_Cons None)
  next
    case (Some fs1)
    then show ?thesis using Cons.IH [of fs1] feedContainer_eq [OF Some]
      by (auto simp: observe_all_Cons gomap_keys_update split: option.splits)
  qed
qed simp

lemma feedPods_eq:
  "case feedPods L Q ns w pods fs of
     None \<Rightarrow> observe_all L (fs_rec fs) (usageSamples Q ns w pods) = None
   | Some fs' \<Rightarrow> observe_all L (fs_rec fs) (usageSamples Q ns w pods) = Some (fs_rec fs')
       \<and> set (gomap_keys (fs_containers fs')) =
            set (gomap_keys (fs_containers fs)) \<union> (ck_Container \<circ> s_key) ` set (usageSamples Q ns w pods)
       \<and> (gomap_wf (fs_containers fs) \<longrightarrow> gomap_wf (fs_containers fs'))"
proof (induction pods arbitrary: fs)
  case Nil
  then show ?case by (simp add: usageSamples_def)
next
  case (Cons pod pods)
  have u: "usageSamples Q ns w (pod # pods) =
      map (containerSample Q ns w pod) (pu_Containers pod) @ usageSamples Q ns w pods"
    by (simp add: usageSamples_def podSamples_def)
  have k: "(ck_Container \<circ> s_key) ` set (map (containerSample Q ns w pod) cus) = cu_Container ` set cus" for cus
    by (force simp: containerSample_def)
  show ?case
  proof (cases "feedContainers L Q ns w pod (pu_Containers pod) fs")
    case None
    then show ?thesis using feedContainers_eq [where L = L and Q = Q and ns = ns and w = w and pod = pod
          and cus = "pu_Containers pod" and fs = fs] by (simp add: u observe_all_append)
  next
    case (Some fs1)
    then show ?thesis using Cons.IH [of fs1] feedContainers_eq [where L = L and Q = Q and ns = ns and w = w
          and pod = pod and cus = "pu_Containers pod" and fs = fs] k [of "pu_Containers pod"]
      unfolding u set_append image_Un by (auto simp: observe_all_append split: option.splits)
  qed
qed

section \<open>One workload's recommendations\<close>

definition rec_of_workload ::
  "libm \<Rightarrow> 'q quantity_api \<Rightarrow> ('q, 'ls) dr_spec \<Rightarrow> string \<Rightarrow> string list \<Rightarrow> recommender \<Rightarrow> 'q workload_recommendation \<Rightarrow> bool" where
  \<comment> \<open>the recommendation of a matched workload, read from some state of the recommender\<close>
  "rec_of_workload L Q spec namespace names r w \<longleftrightarrow> Workload w \<in> set names
     \<and> (\<exists>m. gomap_wf m \<and> Containers w =
          List.map_filter (recommendContainer L Q spec r namespace (Workload w)) (sortedKeys m))
     \<and> Containers w \<noteq> []"

lemma sortedKeys_sorted:
  assumes "gomap_wf m"
  shows "sorted (sortedKeys m)" "distinct (sortedKeys m)" "set (sortedKeys m) = set (gomap_keys m)"
  using assms by (simp_all add: sortedKeys_def gomap_keys_def)

lemma recommendContainer_name:
  "recommendContainer L Q spec r ns w name = Some c \<Longrightarrow> ContainerName c = name"
  by (auto simp: recommendContainer_def Let_def split: if_splits option.splits prod.splits)

lemma sorted_wrt_map_filter:
  assumes "sorted_wrt (<) xs" "\<And>x y. f x = Some y \<Longrightarrow> g y = x"
  shows "sorted_wrt (<) (map g (List.map_filter f xs))"
  using assms(1)
proof (induction xs)
  case (Cons x xs)
  have "g y \<in> set xs" if "y \<in> set (List.map_filter f xs)" for y
    using that assms(2) by (auto simp: filter_map_Some_set)
  then show ?case using Cons assms(2) [of x] by (auto simp: map_filter_simps split: option.split)
qed simp

lemma image_map_filter:
  assumes "\<And>x y. f x = Some y \<Longrightarrow> g y = x"
  shows "g ` set (List.map_filter f xs) = {x \<in> set xs. f x \<noteq> None}"
proof (induction xs)
  case (Cons x xs)
  then show ?case using assms [of x] by (cases "f x") (auto simp: map_filter_simps)
qed (simp add: map_filter_simps)

lemma rec_of_workload_sorted:
  assumes "rec_of_workload L Q spec ns names r w"
  shows "sorted_wrt (<) (map ContainerName (Containers w))"
proof -
  obtain m where m: "gomap_wf m"
    "Containers w = List.map_filter (recommendContainer L Q spec r ns (Workload w)) (sortedKeys m)"
    using assms by (auto simp: rec_of_workload_def)
  have "sorted_wrt (<) (sortedKeys m)" using sortedKeys_sorted [OF m(1)] by (simp add: strict_sorted_iff)
  then show ?thesis unfolding m(2) using recommendContainer_name by (rule sorted_wrt_map_filter)
qed

section \<open>The loop over the workloads\<close>

abbreviation passSamples where
  "passSamples Q asSelector provider ns ds \<equiv> concat (map (workloadSamples Q asSelector provider ns) ds)"

abbreviation empty_feed where
  "empty_feed r \<equiv> \<lparr>fs_rec = r, fs_containers = [], fs_sums = [], fs_counts = []\<rparr>"

lemma computeLoop_observes:
  "computeLoop L Q asSelector provider ns spec ds r out usage = Some (Inr res, r') \<Longrightarrow>
   observe_all L r (passSamples Q asSelector provider ns ds) = Some r'"
proof (induction ds arbitrary: r out usage)
  case (Cons d ds)
  show ?case
  proof (cases "asSelector (PodSelector d)")
    case (Inl e)
    then show ?thesis using Cons by (simp add: workloadSamples_def)
  next
    case sel: (Inr sel)
    show ?thesis
    proof (cases "provider ns sel")
      case (Inl e)
      then show ?thesis using Cons.prems sel by simp
    next
      case us: (Inr usages)
      show ?thesis
      proof (cases "feedPods L Q ns (d_Name d) usages (empty_feed r)")
        case None
        then show ?thesis using Cons.prems sel us by simp
      next
        case (Some fs)
        then have "observe_all L r (usageSamples Q ns (d_Name d) usages) = Some (fs_rec fs)"
          using feedPods_eq [where L = L and Q = Q and ns = ns and w = "d_Name d" and pods = usages and fs = "empty_feed r"]
          by simp
        moreover have "observe_all L (fs_rec fs) (passSamples Q asSelector provider ns ds) = Some r'"
          using Cons.prems sel us Some by (auto simp: Let_def intro: Cons.IH)
        moreover have "workloadSamples Q asSelector provider ns d = usageSamples Q ns (d_Name d) usages"
          using sel us by (simp add: workloadSamples_def)
        ultimately show ?thesis by (simp add: observe_all_append)
      qed
    qed
  qed
qed simp

lemma computeLoop_recs:
  assumes "computeLoop L Q asSelector provider ns spec ds r out usage = Some (Inr (out', usage'), r')"
    and "\<And>w. w \<in> set out \<Longrightarrow> P w"
    and "\<And>d ys zs r1 m. d \<in> set ds \<Longrightarrow> passSamples Q asSelector provider ns ds = ys @ zs \<Longrightarrow>
           observe_all L r ys = Some r1 \<Longrightarrow> gomap_wf m \<Longrightarrow>
           List.map_filter (recommendContainer L Q spec r1 ns (d_Name d)) (sortedKeys m) \<noteq> [] \<Longrightarrow>
           P \<lparr>Workload = d_Name d, Containers =
                List.map_filter (recommendContainer L Q spec r1 ns (d_Name d)) (sortedKeys m)\<rparr>"
  shows "(\<forall>w \<in> set out'. P w) \<and> (\<exists>ds'. subseq ds' ds \<and> map Workload out' = map Workload out @ map d_Name ds')"
  using assms
proof (induction ds arbitrary: r out usage)
  case Nil
  then show ?case by auto
next
  case (Cons d ds)
  show ?case
  proof (cases "asSelector (PodSelector d)")
    case (Inl e)
    have "(\<forall>w \<in> set out'. P w) \<and> (\<exists>ds'. subseq ds' ds \<and> map Workload out' = map Workload out @ map d_Name ds')"
    proof (rule Cons.IH)
      show "computeLoop L Q asSelector provider ns spec ds r out usage = Some (Inr (out', usage'), r')"
        using Cons.prems(1) Inl by simp
    qed (use Cons.prems(2,3) Inl in \<open>auto simp: workloadSamples_def\<close>)
    then show ?thesis by (meson list_emb_Cons)
  next
    case sel: (Inr sel)
    show ?thesis
    proof (cases "provider ns sel")
      case (Inl e)
      then show ?thesis using Cons.prems sel by simp
    next
      case us: (Inr usages)
      show ?thesis
      proof (cases "feedPods L Q ns (d_Name d) usages (empty_feed r)")
        case None
        then show ?thesis using Cons.prems sel us by simp
      next
        case (Some fs)
        let ?xs = "usageSamples Q ns (d_Name d) usages"
        let ?recs = "List.map_filter (recommendContainer L Q spec (fs_rec fs) ns (d_Name d)) (sortedKeys (fs_containers fs))"
        let ?w = "\<lparr>Workload = d_Name d, Containers = ?recs\<rparr>"
        let ?out = "if ?recs \<noteq> [] then out @ [?w] else out"
        have o: "observe_all L r ?xs = Some (fs_rec fs)" and wf: "gomap_wf (fs_containers fs)"
          using feedPods_eq [where L = L and Q = Q and ns = ns and w = "d_Name d" and pods = usages and fs = "empty_feed r"]
            Some by simp_all
        have ws: "workloadSamples Q asSelector provider ns d = ?xs" using sel us by (simp add: workloadSamples_def)
        have ih: "(\<forall>w \<in> set out'. P w) \<and> (\<exists>ds'. subseq ds' ds \<and> map Workload out' = map Workload ?out @ map d_Name ds')"
        proof (rule Cons.IH)
          show "computeLoop L Q asSelector provider ns spec ds (fs_rec fs) ?out
              (if fs_sums fs \<noteq> [] then AList.update (d_Name d) (meanUsage fs) usage else usage)
            = Some (Inr (out', usage'), r')"
            using Cons.prems(1) sel us Some by (simp add: Let_def)
          show "P w" if "w \<in> set ?out" for w
          proof (cases "w \<in> set out")
            case True
            then show ?thesis by (rule Cons.prems(2))
          next
            case False
            then have w: "w = ?w" "?recs \<noteq> []" using that by (auto split: if_splits)
            show ?thesis unfolding w(1)
              by (rule Cons.prems(3) [OF _ _ o wf w(2)]) (simp_all add: ws)
          qed
          fix d' ys zs r1 m
          assume p: "d' \<in> set ds" "passSamples Q asSelector provider ns ds = ys @ zs"
            "observe_all L (fs_rec fs) ys = Some r1" "gomap_wf m"
            "List.map_filter (recommendContainer L Q spec r1 ns (d_Name d')) (sortedKeys m) \<noteq> []"
          have o2: "observe_all L r (?xs @ ys) = Some r1" using o p(3) by (simp add: observe_all_append)
          show "P \<lparr>Workload = d_Name d', Containers =
                List.map_filter (recommendContainer L Q spec r1 ns (d_Name d')) (sortedKeys m)\<rparr>"
            by (rule Cons.prems(3) [OF _ _ o2 p(4,5)]) (simp_all add: p(1,2) ws)
        qed
        then obtain ds' where ds': "subseq ds' ds" "map Workload out' = map Workload ?out @ map d_Name ds'" by blast
        have "\<exists>ds'. subseq ds' (d # ds) \<and> map Workload out' = map Workload out @ map d_Name ds'"
        proof (cases "?recs = []")
          case True
          then show ?thesis using ds' by (intro exI [of _ ds']) (simp add: list_emb_Cons)
        next
          case False
          then show ?thesis using ds' by (intro exI [of _ "d # ds'"]) simp
        qed
        then show ?thesis using ih by blast
      qed
    qed
  qed
qed

lemma usageSamples_in:
  assumes "quantity_laws Q qv" "s \<in> set (usageSamples Q ns w pods)"
  shows "in_i64 (s_cpu s) \<and> in_i64 (s_mem s)" "ck_Namespace (s_key s) = ns \<and> ck_Workload (s_key s) = w"
  using assms(2) quantity_laws.milli_in [OF assms(1)] quantity_laws.value_in [OF assms(1)]
  by (auto simp: usageSamples_def podSamples_def containerSample_def)

lemma feed_ok:
  assumes "libm_laws L" "quantity_laws Q qv" "rec_ok n r" "rec_live r"
    and "n + length (usageSamples Q ns w pods) < 2 ^ 53"
  obtains fs where "feedPods L Q ns w pods (empty_feed r) = Some fs"
    "rec_ok (n + length (usageSamples Q ns w pods)) (fs_rec fs)" "rec_live (fs_rec fs)"
    "gomap_wf (fs_containers fs)"
    "set (gomap_keys (fs_containers fs)) = (ck_Container \<circ> s_key) ` set (usageSamples Q ns w pods)"
    "s_key ` set (usageSamples Q ns w pods) \<subseteq> dom (map_of (states (fs_rec fs)))"
proof -
  have "\<forall>s \<in> set (usageSamples Q ns w pods). in_i64 (s_cpu s) \<and> in_i64 (s_mem s)"
    using usageSamples_in(1) [OF assms(2)] by blast
  from observe_all_ok [OF assms(1,3,5) this] assms(4) obtain r1 where
    r1: "observe_all L r (usageSamples Q ns w pods) = Some r1"
      "rec_ok (n + length (usageSamples Q ns w pods)) r1" "rec_live r1"
      "s_key ` set (usageSamples Q ns w pods) \<subseteq> dom (map_of (states r1))" by blast
  then obtain fs where "feedPods L Q ns w pods (empty_feed r) = Some fs" "fs_rec fs = r1"
    "gomap_wf (fs_containers fs)"
    "set (gomap_keys (fs_containers fs)) = (ck_Container \<circ> s_key) ` set (usageSamples Q ns w pods)"
    using feedPods_eq [where L = L and Q = Q and ns = ns and w = w and pods = pods and fs = "empty_feed r"]
    by (auto simp: gomap_keys_def split: option.splits)
  then show ?thesis using that r1 by blast
qed

definition switched_off :: "('q, 'ls) dr_spec \<Rightarrow> string \<Rightarrow> bool" where
  "switched_off spec name \<longleftrightarrow>
     (case findOverride (ContainerOverrides spec) name of Some ov \<Rightarrow> co_Mode ov = ContainerModeOff | None \<Rightarrow> False)"

lemma recommendContainer_None:
  assumes "rec_live r" "\<lparr>ck_Namespace = ns, ck_Workload = w, ck_Container = name\<rparr> \<in> dom (map_of (states r))"
  shows "recommendContainer L Q spec r ns w name = None \<longleftrightarrow> switched_off spec name"
proof -
  obtain st where st: "map_of (states r) \<lparr>ck_Namespace = ns, ck_Workload = w, ck_Container = name\<rparr> = Some st"
    using assms(2) by blast
  have "hist_live (st_cpu st)" using assms(1) st by (auto simp: rec_live_def)
  then have "\<not> h_empty (st_cpu st)" by (rule hist_live_not_empty)
  then show ?thesis
    by (auto simp: recommendContainer_def switched_off_def Recommend_def st Let_def split: option.splits prod.splits)
qed

definition rec_pairs :: "'q recommendations \<Rightarrow> (string \<times> string) set" where
  "rec_pairs recs = (\<Union>w \<in> set recs. Pair (Workload w) ` ContainerName ` set (Containers w))"

definition sampled_pairs :: "('q, 'ls) dr_spec \<Rightarrow> sample list \<Rightarrow> (string \<times> string) set" where
  "sampled_pairs spec ss =
     (\<lambda>s. (ck_Workload (s_key s), ck_Container (s_key s))) ` {s \<in> set ss. \<not> switched_off spec (ck_Container (s_key s))}"

lemma rec_pairs_snoc:
  "rec_pairs (if recs \<noteq> [] then out @ [\<lparr>Workload = w, Containers = recs\<rparr>] else out) =
     rec_pairs out \<union> Pair w ` ContainerName ` set recs"
  by (auto simp: rec_pairs_def)

lemma sampled_pairs_append: "sampled_pairs spec (xs @ ys) = sampled_pairs spec xs \<union> sampled_pairs spec ys"
  by (auto simp: sampled_pairs_def)

lemma workload_pairs:
  assumes Q: "quantity_laws Q qv" and live: "rec_live r" and wf: "gomap_wf m"
    and k: "set (gomap_keys m) = (ck_Container \<circ> s_key) ` set (usageSamples Q ns w pods)"
    and d: "s_key ` set (usageSamples Q ns w pods) \<subseteq> dom (map_of (states r))"
  shows "Pair w ` ContainerName ` set (List.map_filter (recommendContainer L Q spec r ns w) (sortedKeys m))
    = sampled_pairs spec (usageSamples Q ns w pods)"
proof -
  let ?f = "recommendContainer L Q spec r ns w"
  have key: "s_key s = \<lparr>ck_Namespace = ns, ck_Workload = w, ck_Container = ck_Container (s_key s)\<rparr>"
    if "s \<in> set (usageSamples Q ns w pods)" for s
    using usageSamples_in(2) [OF Q that] by (cases "s_key s") simp
  have "\<lparr>ck_Namespace = ns, ck_Workload = w, ck_Container = n\<rparr> \<in> dom (map_of (states r))"
    if n: "n \<in> set (gomap_keys m)" for n
  proof -
    obtain s where s: "s \<in> set (usageSamples Q ns w pods)" "n = ck_Container (s_key s)" using n k by auto
    then have "s_key s \<in> dom (map_of (states r))" using d by blast
    then show ?thesis using key [OF s(1)] s(2) by metis
  qed
  then have iff: "?f n = None \<longleftrightarrow> switched_off spec n" if "n \<in> set (gomap_keys m)" for n
    using recommendContainer_None [OF live] that by blast
  have "ContainerName ` set (List.map_filter ?f (sortedKeys m)) = {n \<in> set (gomap_keys m). ?f n \<noteq> None}"
    unfolding sortedKeys_sorted(3) [OF wf, symmetric] using recommendContainer_name by (rule image_map_filter)
  also have "\<dots> = {n \<in> set (gomap_keys m). \<not> switched_off spec n}" by (simp add: iff cong: conj_cong del: not_None_eq)
  finally have e: "ContainerName ` set (List.map_filter ?f (sortedKeys m)) =
    {n \<in> set (gomap_keys m). \<not> switched_off spec n}" .
  have "sampled_pairs spec (usageSamples Q ns w pods) =
      (\<lambda>s. (w, ck_Container (s_key s))) ` {s \<in> set (usageSamples Q ns w pods). \<not> switched_off spec (ck_Container (s_key s))}"
    unfolding sampled_pairs_def by (intro image_cong refl) (metis (mono_tags, lifting) usageSamples_in(2) [OF Q] mem_Collect_eq)
  also have "\<dots> = Pair w ` {n \<in> set (gomap_keys m). \<not> switched_off spec n}"
    unfolding k by (auto simp: image_iff)
  finally show ?thesis unfolding e ..
qed

definition metrics_fail :: "('ls \<Rightarrow> 'sel go_result) \<Rightarrow> ('q, 'sel) provider \<Rightarrow> string \<Rightarrow> 'ls deployment \<Rightarrow> bool" where
  \<comment> \<open>the metrics query of a workload with a valid selector fails\<close>
  "metrics_fail asSelector provider ns d \<longleftrightarrow>
     (case asSelector (PodSelector d) of Inl _ \<Rightarrow> False | Inr sel \<Rightarrow> isl (provider ns sel))"

definition pass_result :: "bool \<Rightarrow> (string \<times> string) set \<Rightarrow> ('q recommendations \<times> usage_map) go_result \<Rightarrow> bool" where
  "pass_result failed pairs res \<longleftrightarrow>
     (case res of Inl _ \<Rightarrow> failed | Inr (out, _) \<Rightarrow> \<not> failed \<and> rec_pairs out = pairs)"

lemma computeLoop_result:
  assumes L: "libm_laws L" and Q: "quantity_laws Q qv"
  shows "rec_ok n r \<Longrightarrow> rec_live r \<Longrightarrow> n + length (passSamples Q asSelector provider ns ds) < 2 ^ 53 \<Longrightarrow>
    \<exists>res r'. computeLoop L Q asSelector provider ns spec ds r out usage = Some (res, r')
      \<and> pass_result (list_ex (metrics_fail asSelector provider ns) ds)
          (rec_pairs out \<union> sampled_pairs spec (passSamples Q asSelector provider ns ds)) res"
proof (induction ds arbitrary: n r out usage)
  case Nil
  then show ?case by (simp add: sampled_pairs_def pass_result_def)
next
  case (Cons d ds)
  show ?case
  proof (cases "asSelector (PodSelector d)")
    case (Inl e)
    then have e: "workloadSamples Q asSelector provider ns d = []" "\<not> metrics_fail asSelector provider ns d"
      by (simp_all add: workloadSamples_def metrics_fail_def)
    then show ?thesis using Cons.IH [OF Cons.prems(1,2), of out usage] Cons.prems(3) Inl by simp
  next
    case sel: (Inr sel)
    show ?thesis
    proof (cases "provider ns sel")
      case (Inl e)
      then show ?thesis using sel by (simp add: pass_result_def metrics_fail_def)
    next
      case us: (Inr usages)
      let ?xs = "usageSamples Q ns (d_Name d) usages"
      have ws: "workloadSamples Q asSelector provider ns d = ?xs" "\<not> metrics_fail asSelector provider ns d"
        using sel us by (simp_all add: workloadSamples_def metrics_fail_def)
      have b: "n + length ?xs < 2 ^ 53" using Cons.prems(3) ws by simp
      obtain fs where fs: "feedPods L Q ns (d_Name d) usages (empty_feed r) = Some fs"
        "rec_ok (n + length ?xs) (fs_rec fs)" "rec_live (fs_rec fs)" "gomap_wf (fs_containers fs)"
        "set (gomap_keys (fs_containers fs)) = (ck_Container \<circ> s_key) ` set ?xs"
        "s_key ` set ?xs \<subseteq> dom (map_of (states (fs_rec fs)))"
        by (rule feed_ok [OF L Q Cons.prems(1,2) b])
      let ?recs = "List.map_filter (recommendContainer L Q spec (fs_rec fs) ns (d_Name d)) (sortedKeys (fs_containers fs))"
      let ?out = "if ?recs \<noteq> [] then out @ [\<lparr>Workload = d_Name d, Containers = ?recs\<rparr>] else out"
      let ?usage = "if fs_sums fs \<noteq> [] then AList.update (d_Name d) (meanUsage fs) usage else usage"
      have b2: "n + length ?xs + length (passSamples Q asSelector provider ns ds) < 2 ^ 53"
        using Cons.prems(3) ws by simp
      have step: "computeLoop L Q asSelector provider ns spec (d # ds) r out usage =
          computeLoop L Q asSelector provider ns spec ds (fs_rec fs) ?out ?usage"
        using sel us fs(1) by (simp add: Let_def)
      have p: "rec_pairs ?out = rec_pairs out \<union> sampled_pairs spec ?xs"
        unfolding rec_pairs_snoc workload_pairs [OF Q fs(3-6)] ..
      have tot: "passSamples Q asSelector provider ns (d # ds) = ?xs @ passSamples Q asSelector provider ns ds"
        by (simp add: ws)
      show ?thesis using Cons.IH [OF fs(2,3) b2, of ?out ?usage]
        unfolding step p tot sampled_pairs_append by (simp add: ws(2) Un_assoc del: if_split)
    qed
  qed
qed

section \<open>Bounds\<close>

definition bounds_ok :: "('q \<Rightarrow> rat) \<Rightarrow> 'q resource_bounds \<Rightarrow> bool" where
  "bounds_ok qv b \<longleftrightarrow> qv (Min b) \<le> qv (Max b)"

definition spec_ok :: "('q \<Rightarrow> rat) \<Rightarrow> ('q, 'ls) dr_spec \<Rightarrow> bool" where
  \<comment> \<open>every pair of bounds of the spec has min at most max\<close>
  "spec_ok qv spec \<longleftrightarrow> bounds_ok qv (rp_CPU (Resources spec)) \<and> bounds_ok qv (rp_Memory (Resources spec))
     \<and> list_all (\<lambda>ov. pred_option (bounds_ok qv) (co_CPU ov) \<and> pred_option (bounds_ok qv) (co_Memory ov))
         (ContainerOverrides spec)"

abbreviation containerBoundsOf where
  "containerBoundsOf spec name \<equiv> boundsFor (Resources spec) (findOverride (ContainerOverrides spec) name)"

lemma findOverride_find: "findOverride os name = List.find (\<lambda>ov. co_ContainerName ov = name) os"
  by (induction os) auto

lemma spec_ok_bounds:
  assumes "spec_ok qv spec"
  shows "bounds_ok qv (fst (containerBoundsOf spec name))" "bounds_ok qv (snd (containerBoundsOf spec name))"
proof -
  have "bounds_ok qv (fst (containerBoundsOf spec name)) \<and> bounds_ok qv (snd (containerBoundsOf spec name))"
  proof (cases "findOverride (ContainerOverrides spec) name")
    case None
    then show ?thesis using assms by (simp add: boundsFor_def spec_ok_def)
  next
    case (Some ov)
    then have "ov \<in> set (ContainerOverrides spec)"
      unfolding findOverride_find by (rule conjunct2 [OF find_Some_sat])
    then have "pred_option (bounds_ok qv) (co_CPU ov)" "pred_option (bounds_ok qv) (co_Memory ov)"
      using assms by (auto simp: spec_ok_def list_all_iff)
    then show ?thesis using assms Some
      by (cases "co_CPU ov"; cases "co_Memory ov") (simp_all add: boundsFor_def spec_ok_def)
  qed
  then show "bounds_ok qv (fst (containerBoundsOf spec name))" "bounds_ok qv (snd (containerBoundsOf spec name))"
    by simp_all
qed

context quantity_laws
begin

lemma clamp_between:
  assumes "bounds_ok qv b"
  shows "qv (Min b) \<le> qv (clampQuantity Q q b)" "qv (clampQuantity Q q b) \<le> qv (Max b)"
  using assms by (auto simp: clampQuantity_def bounds_ok_def cmp_neg_iff cmp_pos_iff)

lemma clamp_ge: "x \<le> qv q \<Longrightarrow> min x (qv (Max b)) \<le> qv (clampQuantity Q q b)"
  by (auto simp: clampQuantity_def cmp_neg_iff cmp_pos_iff min_le_iff_disj)

end

definition rec_in_bounds :: "('q \<Rightarrow> rat) \<Rightarrow> ('q, 'ls) dr_spec \<Rightarrow> 'q container_recommendation \<Rightarrow> bool" where
  \<comment> \<open>the target has exactly a CPU and a memory value, each inside the container's effective bounds\<close>
  "rec_in_bounds qv spec c \<longleftrightarrow>
     (case (Target c, containerBoundsOf spec (ContainerName c)) of
        ([(n1, cpu), (n2, mem)], (cb, mb)) \<Rightarrow>
          n1 = ResourceCPU \<and> n2 = ResourceMemory
          \<and> qv (Min cb) \<le> qv cpu \<and> qv cpu \<le> qv (Max cb) \<and> qv (Min mb) \<le> qv mem \<and> qv mem \<le> qv (Max mb)
      | _ \<Rightarrow> False)"

lemma recommendContainer_in_bounds:
  assumes Q: "quantity_laws Q qv" and s: "spec_ok qv spec"
    and c: "recommendContainer L Q spec r ns w name = Some c"
  shows "rec_in_bounds qv spec c"
proof -
  obtain cb mb where b: "containerBoundsOf spec name = (cb, mb)" by fastforce
  have ok: "bounds_ok qv cb" "bounds_ok qv mb" using spec_ok_bounds [OF s, of name] b by simp_all
  obtain q1 q2 where c': "ContainerName c = name"
    "Target c = [(ResourceCPU, clampQuantity Q q1 cb), (ResourceMemory, clampQuantity Q q2 mb)]"
    using c b by (auto simp: recommendContainer_def Let_def split: if_splits option.splits prod.splits)
  then show ?thesis using b quantity_laws.clamp_between [OF Q] ok by (simp add: rec_in_bounds_def)
qed

lemma recommendContainer_off:
  "recommendContainer L Q spec r ns w name = Some c \<Longrightarrow>
   findOverride (ContainerOverrides spec) (ContainerName c) = Some ov \<Longrightarrow> co_Mode ov \<noteq> ContainerModeOff"
  using recommendContainer_name [of L Q spec r ns w name c]
  by (auto simp: recommendContainer_def Let_def split: if_splits option.splits prod.splits)

section \<open>The memory floor\<close>

lemma safetyMargin_val: "safetyMarginFactor = Fin (2476979795053773 / 2251799813685248)"
  by code_simp

lemma memory_rounded_up:
  assumes "quantity_laws Q qv" "1 \<le> x" "x \<le> 2 ^ 44"
  shows "33554432 \<le> qv (roundUpBytes Q (f_max (f_mul (Fin x) safetyMarginFactor) minMemoryRecommendationBytes) memRoundingBytes)"
proof -
  let ?m = "x * (2476979795053773 / 2251799813685248)"
  have "?m \<le> 2 ^ 44 * (2476979795053773 / 2251799813685248)" using assms(3) by (rule mult_right_mono) simp
  also have "\<dots> \<le> of_int (2 ^ 46)" by simp
  finally have m2: "?m \<le> of_int (2 ^ 46)" .
  have m1: "0 \<le> ?m" using assms(2) by (intro mult_nonneg_nonneg) simp_all
  note m = m1 m2
  have lim: "\<bar>y\<bar> \<le> f64_half_limit" if "0 \<le> y" "y \<le> of_int (2 ^ 46)" for y :: rat
    using that by (intro le_half_limit) simp
  have f: "f_mul (Fin x) safetyMarginFactor = Fin (rnd ?m)"
    using lim [OF m] by (simp add: safetyMargin_val round64_Fin del: times_divide_eq_right)
  have "\<bar>2 ^ 46 :: int\<bar> \<le> 2 ^ 53" by simp
  then have r: "0 \<le> rnd ?m" "rnd ?m \<le> of_int (2 ^ 46)"
    using rnd_nonneg [OF m1] rnd_le_iff_f64 [OF is_f64_int m2] by blast+
  define y where "y = max (rnd ?m) 33554432"
  have y: "33554432 \<le> y" "y \<le> of_int (2 ^ 46)" using r by (simp_all add: y_def)
  have fm: "f_max (Fin (rnd ?m)) minMemoryRecommendationBytes = Fin y"
    by (simp add: f_max_def minMemoryRecommendationBytes_def y_def max_def)
  have d: "f_div (Fin y) (f_of_i64 memRoundingBytes) = Fin (rnd (y / 1048576))"
    using y lim [of "y / 1048576"] by (simp add: memRoundingBytes_def f_of_i64_exact round64_Fin)
  have lo: "of_int 32 \<le> rnd (y / 1048576)" using y by (intro rnd_ge_iff_f64 is_f64_int) simp_all
  have hi: "rnd (y / 1048576) \<le> of_int (2 ^ 26)" using y by (intro rnd_le_iff_f64 is_f64_int) simp_all
  let ?k = "\<lceil>rnd (y / 1048576)\<rceil>"
  have "of_int 32 \<le> (of_int ?k :: rat)" using lo le_of_int_ceiling order_trans by blast
  then have k: "32 \<le> ?k" "?k \<le> 2 ^ 26" using hi by (simp_all only: of_int_le_iff ceiling_le_iff)
  have k2: "?k < 2 ^ 63" "?k * 1048576 < 2 ^ 63" using k(2) by simp_all
  have i: "i64_of_f (f_ceil (Fin (rnd (y / 1048576)))) = ?k"
    unfolding f_ceil.simps using k k2 by (intro i64_of_f_int in_i64_nonneg) linarith+
  have in64: "in_i64 (?k * 1048576)" using k k2 by (intro in_i64_nonneg) linarith+
  have "roundUpBytes Q (Fin y) memRoundingBytes = q_new Q (?k * 1048576) BinarySI"
    using in64 unfolding roundUpBytes_def d i by (simp add: memRoundingBytes_def wrap64_id Let_def)
  moreover have "qv (q_new Q (?k * 1048576) BinarySI) = of_int (?k * 1048576)"
    by (rule quantity_laws.new_val [OF assms(1) in64])
  moreover have "(of_int 33554432 :: rat) \<le> of_int (?k * 1048576)"
    using k(1) unfolding of_int_le_iff by linarith
  ultimately show ?thesis unfolding f fm by simp
qed

lemma recommendContainer_floor:
  assumes L: "libm_laws L" and Q: "quantity_laws Q qv" and r: "rec_ok n r"
    and live: "rec_live r" and c: "recommendContainer L Q spec r ns w name = Some c"
  shows "min 33554432 (qv (Max (snd (containerBoundsOf spec name))))
    \<le> qv (map_zero (q_zero Q) (Target c) ResourceMemory)"
proof -
  let ?key = "\<lparr>ck_Namespace = ns, ck_Workload = w, ck_Container = name\<rparr>"
  obtain cp mp where p: "percentiles (MetricsCfg spec) = (cp, mp)" by fastforce
  obtain cb mb where b: "containerBoundsOf spec name = (cb, mb)" by fastforce
  obtain raw where raw: "Recommend L r ?key cp mp = Some raw"
    "map_zero (q_zero Q) (Target c) ResourceMemory =
       clampQuantity Q (roundUpBytes Q (f_max (f_mul (MemBytes raw) safetyMarginFactor) minMemoryRecommendationBytes)
         memRoundingBytes) mb"
    using c p b by (auto simp: recommendContainer_def Let_def map_zero_def split: if_splits option.splits prod.splits)
  obtain st where st: "map_of (states r) ?key = Some st" "MemBytes raw = h_percentile L (st_mem st) mp"
    using raw(1) by (auto simp: Recommend_def split: option.splits if_splits)
  have h: "hist_ok n (st_mem st)" "hist_live (st_mem st)"
    using r live st(1) by (auto simp: rec_ok_def rec_live_def)
  obtain x where x: "MemBytes raw = Fin x" "1 \<le> x" "x \<le> 2 ^ 44"
    using libm_laws.h_percentile_Fin [OF L h(1) hist_live_not_empty [OF h(2)], of mp] st(2) by metis
  have "33554432 \<le> qv (roundUpBytes Q (f_max (f_mul (MemBytes raw) safetyMarginFactor) minMemoryRecommendationBytes)
         memRoundingBytes)"
    unfolding x(1) using memory_rounded_up [OF Q x(2,3)] .
  then show ?thesis unfolding raw(2) b by (simp add: quantity_laws.clamp_ge [OF Q])
qed

end
