(* ===== verification/RecommendationTheorems.thy ===== *)
theory RecommendationTheorems
  imports RecommendationProps
begin

text \<open>
  The properties of \<open>computeRecommendations\<close>: when it succeeds and for which containers, the order
  of its answer, the bounds and the memory floor of every target, and that a pass over unchanged
  metrics changes nothing.
\<close>

section \<open>The loop, from a state that has seen the samples\<close>

definition unfed :: "feed_state \<Rightarrow> (string, bool) gomap \<times> (string, usage_snapshot) gomap \<times> (string, i64) gomap" where
  \<comment> \<open>what a feed leaves besides the recommender\<close>
  "unfed fs = (fs_containers fs, fs_sums fs, fs_counts fs)"

lemma feedContainer_seen:
  assumes "feedContainer L Q ns w pod cu fs = Some fs'" "unfed gs = unfed fs"
    "seen (fs_rec gs) (containerSample Q ns w pod cu)"
  shows "feedContainer L Q ns w pod cu gs = Some (fs'\<lparr>fs_rec := fs_rec gs\<rparr>)"
proof -
  have "observe1 L (Some (fs_rec gs)) (containerSample Q ns w pod cu) = Some (fs_rec gs)"
    by (rule Observe_seen [OF assms(3)])
  then show ?thesis using assms(1,2)
    by (auto simp: feedContainer_def unfed_def observe1_Some containerSample_def Let_def split: option.splits)
qed

lemma feedContainers_seen:
  assumes "feedContainers L Q ns w pod cus fs = Some fs'" "unfed gs = unfed fs"
    "\<forall>s \<in> set (map (containerSample Q ns w pod) cus). seen (fs_rec gs) s"
  shows "feedContainers L Q ns w pod cus gs = Some (fs'\<lparr>fs_rec := fs_rec gs\<rparr>)"
  using assms
proof (induction cus arbitrary: fs gs)
  case Nil
  then show ?case by (cases gs; cases fs) (simp add: unfed_def)
next
  case (Cons cu cus)
  obtain fs1 where f: "feedContainer L Q ns w pod cu fs = Some fs1" "feedContainers L Q ns w pod cus fs1 = Some fs'"
    using Cons.prems(1) by (auto split: option.splits)
  have g: "feedContainer L Q ns w pod cu gs = Some (fs1\<lparr>fs_rec := fs_rec gs\<rparr>)"
    using Cons.prems(3) by (intro feedContainer_seen [OF f(1) Cons.prems(2)]) simp
  show ?case
    using Cons.IH [OF f(2), of "fs1\<lparr>fs_rec := fs_rec gs\<rparr>"] Cons.prems(3) by (simp add: g unfed_def)
qed

lemma feedPods_seen:
  assumes "feedPods L Q ns w pods fs = Some fs'" "unfed gs = unfed fs"
    "\<forall>s \<in> set (usageSamples Q ns w pods). seen (fs_rec gs) s"
  shows "feedPods L Q ns w pods gs = Some (fs'\<lparr>fs_rec := fs_rec gs\<rparr>)"
  using assms
proof (induction pods arbitrary: fs gs)
  case Nil
  then show ?case by (cases gs; cases fs) (simp add: unfed_def)
next
  case (Cons pod pods)
  obtain fs1 where f: "feedContainers L Q ns w pod (pu_Containers pod) fs = Some fs1"
      "feedPods L Q ns w pods fs1 = Some fs'"
    using Cons.prems(1) by (auto split: option.splits)
  have s: "\<forall>s \<in> set (map (containerSample Q ns w pod) (pu_Containers pod)). seen (fs_rec gs) s"
      "\<forall>s \<in> set (usageSamples Q ns w pods). seen (fs_rec gs) s"
    using Cons.prems(3) by (simp_all add: usageSamples_def podSamples_def)
  show ?case
    using Cons.IH [OF f(2), of "fs1\<lparr>fs_rec := fs_rec gs\<rparr>"] s(2)
    by (simp add: feedContainers_seen [OF f(1) Cons.prems(2) s(1)] unfed_def)
qed

lemma recommendContainer_cong:
  "map_of (states r') \<lparr>ck_Namespace = ns, ck_Workload = w, ck_Container = name\<rparr> =
     map_of (states r) \<lparr>ck_Namespace = ns, ck_Workload = w, ck_Container = name\<rparr> \<Longrightarrow>
   recommendContainer L Q spec r' ns w name = recommendContainer L Q spec r ns w name"
  by (simp only: recommendContainer_def Recommend_def)

lemma passSamples_workload:
  "s \<in> set (passSamples Q asSelector provider ns ds) \<Longrightarrow> ck_Workload (s_key s) \<in> d_Name ` set ds"
  by (fastforce simp: workloadSamples_def usageSamples_def podSamples_def containerSample_def split: sum.splits)

lemma computeLoop_recs_from_Nil:
  assumes "computeLoop L Q asSelector provider ns spec ds r [] [] = Some (Inr (out', usage'), r')"
    and "\<And>d ys zs r1 m. d \<in> set ds \<Longrightarrow> passSamples Q asSelector provider ns ds = ys @ zs \<Longrightarrow>
           observe_all L r ys = Some r1 \<Longrightarrow> gomap_wf m \<Longrightarrow>
           List.map_filter (recommendContainer L Q spec r1 ns (d_Name d)) (sortedKeys m) \<noteq> [] \<Longrightarrow>
           P \<lparr>Workload = d_Name d, Containers =
                List.map_filter (recommendContainer L Q spec r1 ns (d_Name d)) (sortedKeys m)\<rparr>"
  shows "(\<forall>w \<in> set out'. P w) \<and> (\<exists>ds'. subseq ds' ds \<and> map Workload out' = map d_Name ds')"
  using computeLoop_recs [OF assms(1), where P = P] assms(2) by simp

lemma meanUsage_fs_rec [simp]: "meanUsage (fs\<lparr>fs_rec := r\<rparr>) = meanUsage fs"
  by (simp add: meanUsage_def)

lemma computeLoop_again:
  assumes "computeLoop L Q asSelector provider ns spec ds r out usage = Some (Inr res, r')"
    and "distinct (map d_Name ds)"
  shows "computeLoop L Q asSelector provider ns spec ds r' out usage = Some (Inr res, r')"
  using assms
proof (induction ds arbitrary: r out usage)
  case (Cons d ds)
  show ?case
  proof (cases "asSelector (PodSelector d)")
    case (Inl e)
    then show ?thesis using Cons by simp
  next
    case sel: (Inr sel)
    obtain us where us: "provider ns sel = Inr us" using Cons.prems sel by (cases "provider ns sel") auto
    obtain fs where fs: "feedPods L Q ns (d_Name d) us (empty_feed r) = Some fs"
      using Cons.prems sel us by (auto split: option.splits)
    let ?f = "\<lambda>r. recommendContainer L Q spec r ns (d_Name d)"
    let ?out = "\<lambda>r. let recs = List.map_filter (?f r) (sortedKeys (fs_containers fs)) in
      if recs \<noteq> [] then out @ [\<lparr>Workload = d_Name d, Containers = recs\<rparr>] else out"
    let ?usage = "if fs_sums fs \<noteq> [] then AList.update (d_Name d) (meanUsage fs) usage else usage"
    have o: "observe_all L r (usageSamples Q ns (d_Name d) us) = Some (fs_rec fs)"
      using feedPods_eq [where L = L and Q = Q and ns = ns and w = "d_Name d" and pods = us and fs = "empty_feed r"]
        fs by simp
    have rest: "computeLoop L Q asSelector provider ns spec ds (fs_rec fs) (?out (fs_rec fs)) ?usage = Some (Inr res, r')"
      using Cons.prems(1) sel us fs by (simp add: Let_def)
    have o2: "observe_all L (fs_rec fs) (passSamples Q asSelector provider ns ds) = Some r'"
      using rest by (cases res) (blast intro: computeLoop_observes)
    have fs2: "feedPods L Q ns (d_Name d) us (empty_feed r') = Some (fs\<lparr>fs_rec := r'\<rparr>)"
      using feedPods_seen [OF fs, of "empty_feed r'"] observe_all_seen [OF o2] observe_all_records [OF o]
      by (simp add: unfed_def)
    have "\<lparr>ck_Namespace = ns, ck_Workload = d_Name d, ck_Container = n\<rparr>
        \<notin> s_key ` set (passSamples Q asSelector provider ns ds)" for n
    proof
      assume "\<lparr>ck_Namespace = ns, ck_Workload = d_Name d, ck_Container = n\<rparr>
        \<in> s_key ` set (passSamples Q asSelector provider ns ds)"
      then obtain s where s: "s_key s = \<lparr>ck_Namespace = ns, ck_Workload = d_Name d, ck_Container = n\<rparr>"
        "s \<in> set (passSamples Q asSelector provider ns ds)" by (metis imageE)
      then show False using passSamples_workload [OF s(2)] Cons.prems(2) by simp
    qed
    then have e: "?f r' = ?f (fs_rec fs)"
      by (intro ext recommendContainer_cong observe_all_other [OF o2])
    have "computeLoop L Q asSelector provider ns spec ds r' (?out (fs_rec fs)) ?usage = Some (Inr res, r')"
      using Cons.prems(2) by (intro Cons.IH [OF rest]) simp
    then show ?thesis using sel us fs2 by (simp add: Let_def e split del: if_split cong: if_cong)
  qed
qed simp

section \<open>A small pass\<close>

definition ex_spec :: "(exact_q, string) dr_spec" where
  "ex_spec = \<lparr>Selector = ''app=web'', UpdateMode = UpdateModeInPlaceOrRecreate,
     Resources = \<lparr>rp_CPU = \<lparr>Min = mq 100, Max = mq 1000\<rparr>, rp_Memory = \<lparr>Min = bq 67108864, Max = bq 1073741824\<rparr>,
       ControlledValues = ControlledValuesRequestsAndLimits\<rparr>,
     ContainerOverrides = [], MetricsCfg = None, Behavior = None, HPA = None\<rparr>"

definition ex_deploy :: "string deployment" where
  "ex_deploy = \<lparr>d_Name = ''web'', d_Labels = [(''app'', ''web'')], PodSelector = ''app=web''\<rparr>"

definition ex_provider :: "(exact_q, string) provider" where
  "ex_provider ns sel = Inr [\<lparr>pu_Pod = ''p0'', pu_Timestamp = 60000000000,
     pu_Containers = [\<lparr>cu_Container = ''app'', cu_CPU = mq 250, cu_Memory = bq 52428800\<rparr>]\<rparr>]"

lemma ex_passSamples:
  "passSamples exact_api Inr ex_provider ''prod'' [ex_deploy] =
     [\<lparr>s_key = \<lparr>ck_Namespace = ''prod'', ck_Workload = ''web'', ck_Container = ''app''\<rparr>, s_pod = ''p0'',
        s_cpu = 250, s_mem = 52428800, s_time = 60000000000\<rparr>]"
  by (simp add: workloadSamples_def usageSamples_def podSamples_def containerSample_def ex_deploy_def ex_provider_def
      wrap64_id in_i64_def del: exact_api_simps(4,5))

lemma ex_pass_ok:
  "0 + length (passSamples exact_api Inr ex_provider ''prod'' [ex_deploy]) < 2 ^ 53"
  "sampled_pairs ex_spec (passSamples exact_api Inr ex_provider ''prod'' [ex_deploy]) = {(''web'', ''app'')}"
  "\<not> list_ex (metrics_fail Inr ex_provider ''prod'') [ex_deploy]"
  unfolding ex_passSamples
  by (simp_all add: sampled_pairs_def switched_off_def ex_spec_def metrics_fail_def ex_provider_def)

lemma ex_pass:
  obtains out usage r' where
    "computeRecommendations ex_libm exact_api Inr ex_provider ''prod'' ex_spec [ex_deploy] New = Some (Inr (out, usage), r')"
    "rec_pairs out = {(''web'', ''app'')}"
proof -
  obtain res r' where "computeLoop ex_libm exact_api Inr ex_provider ''prod'' ex_spec [ex_deploy] New [] [] = Some (res, r')"
    "pass_result False {(''web'', ''app'')} res"
    using computeLoop_result [OF exl.libm_laws_axioms exq.quantity_laws_axioms rec_ok_New rec_live_New ex_pass_ok(1),
        of ex_spec "[]" "[]"] unfolding ex_pass_ok(2) using ex_pass_ok(3) by (auto simp: rec_pairs_def)
  then show ?thesis using that
    by (cases res) (auto simp: computeRecommendations_def pass_result_def rec_pairs_def split: prod.splits)
qed

section \<open>Properties\<close>

text \<open>C13. A recommendation pass never panics, and it is complete: it fails exactly when the metrics query
  of some matched workload with a valid selector fails, and otherwise it recommends for exactly the
  containers it has a sample of in this pass and that are not switched off. The recommender is any
  that fewer than \<open>2^53\<close> samples were fed to.\<close>

theorem recommendations_complete:
  assumes "libm_laws L" "quantity_laws Q qv" "rec_ok n r" "rec_live r"
    and "n + length (passSamples Q asSelector provider ns ds) < 2 ^ 53"
  shows "\<exists>res r'. computeRecommendations L Q asSelector provider ns spec ds r = Some (res, r')
    \<and> pass_result (list_ex (metrics_fail asSelector provider ns) ds)
        (sampled_pairs spec (passSamples Q asSelector provider ns ds)) res"
proof -
  obtain res r' where l: "computeLoop L Q asSelector provider ns spec ds r [] [] = Some (res, r')"
    "pass_result (list_ex (metrics_fail asSelector provider ns) ds)
      (sampled_pairs spec (passSamples Q asSelector provider ns ds)) res"
    using computeLoop_result [OF assms, of spec "[]" "[]"] by (auto simp: rec_pairs_def)
  then show ?thesis
    by (cases res) (auto simp: computeRecommendations_def pass_result_def rec_pairs_def split: prod.splits)
qed

theorem recommendations_complete_witness:
  "\<exists>res r'. computeRecommendations ex_libm exact_api Inr ex_provider ''prod'' ex_spec [ex_deploy] New = Some (res, r')
     \<and> pass_result False {(''web'', ''app'')} res"
  using recommendations_complete [OF exl.libm_laws_axioms exq.quantity_laws_axioms rec_ok_New rec_live_New
      ex_pass_ok(1), of ex_spec] unfolding ex_pass_ok(2) using ex_pass_ok(3) by simp

text \<open>C29. A pass over unchanged metrics changes nothing: running \<open>computeRecommendations\<close> again on the
  same metrics answers, from the recommender the first pass left, returns exactly the same
  recommendations and mean usage and leaves the recommender as it is, although the second pass
  reads every histogram after all workloads were fed and the first one reads it in between.\<close>

theorem recommendation_pass_repeatable:
  assumes "distinct (map d_Name ds)"
    and "computeRecommendations L Q asSelector provider ns spec ds r = Some (Inr res, r')"
  shows "computeRecommendations L Q asSelector provider ns spec ds r' = Some (Inr res, r')"
proof -
  obtain out usage where l: "computeLoop L Q asSelector provider ns spec ds r [] [] = Some (Inr (out, usage), r')"
    "res = (sort_key Workload out, usage)"
    using assms(2) by (auto simp: computeRecommendations_def split: option.splits sum.splits)
  then show ?thesis using computeLoop_again [OF l(1) assms(1)] by (simp add: computeRecommendations_def)
qed

theorem recommendation_pass_repeatable_witness:
  "\<exists>res r'. computeRecommendations ex_libm exact_api Inr ex_provider ''prod'' ex_spec [ex_deploy] New = Some (Inr res, r')
     \<and> computeRecommendations ex_libm exact_api Inr ex_provider ''prod'' ex_spec [ex_deploy] r' = Some (Inr res, r')"
proof -
  obtain out usage r' where
    p: "computeRecommendations ex_libm exact_api Inr ex_provider ''prod'' ex_spec [ex_deploy] New = Some (Inr (out, usage), r')"
    by (rule ex_pass)
  have "distinct (map d_Name [ex_deploy])" by simp
  from recommendation_pass_repeatable [OF this p] p show ?thesis by blast
qed

text \<open>C32. The published list is in canonical order: with the workloads of one namespace, whose names are
  distinct, the recommendations are strictly sorted by workload name, every entry is a matched
  workload with at least one container, and inside an entry the containers are strictly sorted by
  name. Equal recommendations are therefore equal lists, and the status is not rewritten because
  of Go's random map order.\<close>

theorem recommendations_sorted:
  assumes "distinct (map d_Name ds)"
    and "computeRecommendations L Q asSelector provider ns spec ds r = Some (Inr (out, usage), r')"
  shows "sorted_wrt (<) (map Workload out)
    \<and> list_all (\<lambda>w. Workload w \<in> d_Name ` set ds \<and> Containers w \<noteq> []
        \<and> sorted_wrt (<) (map ContainerName (Containers w))) out"
proof -
  obtain out0 where l: "computeLoop L Q asSelector provider ns spec ds r [] [] = Some (Inr (out0, usage), r')"
    "out = sort_key Workload out0"
    using assms(2) by (auto simp: computeRecommendations_def split: option.splits sum.splits)
  let ?P = "\<lambda>w. \<exists>r1. rec_of_workload L Q spec ns (map d_Name ds) r1 w"
  have "(\<forall>w \<in> set out0. ?P w) \<and> (\<exists>ds'. subseq ds' ds \<and> map Workload out0 = map d_Name ds')"
    by (rule computeLoop_recs_from_Nil [OF l(1)]) (auto simp: rec_of_workload_def)
  then obtain ds' where P: "\<And>w. w \<in> set out0 \<Longrightarrow> ?P w" and ds': "subseq ds' ds" "map Workload out0 = map d_Name ds'"
    by auto
  have "distinct (map Workload out0)"
    unfolding ds'(2) using subseq_map [OF ds'(1), of d_Name] assms(1)
    by (auto simp: subseq_conv_nths distinct_nthsI)
  then have "distinct (map Workload out)" unfolding l(2) distinct_map by (auto simp: inj_on_def)
  moreover have "sorted (map Workload out)" by (simp add: l(2))
  ultimately have "sorted_wrt (<) (map Workload out)" by (simp add: strict_sorted_iff)
  moreover have "list_all (\<lambda>w. Workload w \<in> d_Name ` set ds \<and> Containers w \<noteq> []
        \<and> sorted_wrt (<) (map ContainerName (Containers w))) out"
    unfolding list_all_iff l(2) using P rec_of_workload_sorted by (fastforce simp: rec_of_workload_def)
  ultimately show ?thesis by blast
qed

theorem recommendations_sorted_witness:
  "\<exists>out usage r'. computeRecommendations ex_libm exact_api Inr ex_provider ''prod'' ex_spec [ex_deploy] New
       = Some (Inr (out, usage), r') \<and> out \<noteq> [] \<and> sorted_wrt (<) (map Workload out)"
proof -
  obtain out usage r' where
    p: "computeRecommendations ex_libm exact_api Inr ex_provider ''prod'' ex_spec [ex_deploy] New = Some (Inr (out, usage), r')"
      "rec_pairs out = {(''web'', ''app'')}"
    by (rule ex_pass)
  have "distinct (map d_Name [ex_deploy])" by simp
  from recommendations_sorted [OF this p(1)] p show ?thesis by (auto simp: rec_pairs_def)
qed



text \<open>Memory is never recommended below the floor of 32 MiB, except where the maximum in force for
  the container is itself lower: for every recommendation made from a well-formed recommender, the
  safety margin, the rounding up to whole MiB and all float64 steps included.\<close>

theorem memory_recommendation_floor:
  assumes "libm_laws L" "quantity_laws Q qv" "rec_ok n r" "rec_live r"
    and "recommendContainer L Q spec r ns w name = Some c"
  shows "min 33554432 (qv (Max (snd (boundsFor (Resources spec) (findOverride (ContainerOverrides spec) name)))))
    \<le> qv (map_zero (q_zero Q) (Target c) ResourceMemory)"
  by (rule recommendContainer_floor [OF assms])

theorem memory_recommendation_floor_witness:
  "\<exists>r c. observe_all ex_libm New ex_samples = Some r
     \<and> recommendContainer ex_libm exact_api ex_spec r ''default'' ''web'' ''app'' = Some c
     \<and> 33554432 \<le> fst (map_zero (q_zero exact_api) (Target c) ResourceMemory)"
proof -
  have in64: "\<forall>s \<in> set ex_samples. in_i64 (s_cpu s) \<and> in_i64 (s_mem s)" by (simp add: ex_samples_def in_i64_def)
  obtain r where r: "observe_all ex_libm New ex_samples = Some r" "rec_ok (0 + length ex_samples) r" "rec_live r"
      "dom (map_of (states r)) = s_key ` set ex_samples \<union> dom (map_of (states New))"
    using observe_all_ok [OF exl.libm_laws_axioms rec_ok_New _ in64] rec_live_New by (auto simp: ex_samples_def)
  have "\<lparr>ck_Namespace = ''default'', ck_Workload = ''web'', ck_Container = ''app''\<rparr> \<in> dom (map_of (states r))"
    using r(4) by (simp add: ex_samples_def ex_key_def)
  from recommendContainer_None [OF r(3) this, of ex_libm exact_api ex_spec]
  obtain c where c: "recommendContainer ex_libm exact_api ex_spec r ''default'' ''web'' ''app'' = Some c"
    by (auto simp: switched_off_def ex_spec_def)
  have "min 33554432 (fst (Max (snd (boundsFor (Resources ex_spec) (findOverride (ContainerOverrides ex_spec) ''app''))))) = (33554432 :: rat)"
    by (simp add: ex_spec_def boundsFor_def)
  with memory_recommendation_floor [OF exl.libm_laws_axioms exq.quantity_laws_axioms r(2,3) c] c r(1)
  show ?thesis by auto
qed

end
