(* ===== verification/Actuation.thy ===== *)
theory Actuation
  imports Oom Resizer Coordination Recommendation
begin

text \<open>
  \<open>internal/controller/actuation.go\<close> and the metrics of \<open>prommetrics.go\<close>: one actuation pass over the
  workloads of a DynamicResource.

  The pass reads the cluster (HPAs, Pods) and writes to it (resize patches, evictions), so its state
  carries the trace of \<open>Resizer\<close>; what the API server answers to a list is a function of the trace
  so far. The fixed locals of \<open>actuate\<close> while it visits the Pods of one workload are the record
  \<open>workload_pass\<close>, its mutable locals are \<open>pod_state\<close> (one workload) and \<open>pass_state\<close> (the whole
  pass). \<open>recByWorkload\<close> holds pointers into the slice of recommendations; here they are indices.
  The slice is \<open>dr.Status.Recommendations\<close> itself at the only call, and the \<open>targets\<close> share their
  resource lists with it, so the floors \<open>coordinateHPA\<close> writes into \<open>targets\<close> are written back to the
  status (\<open>writeBack\<close>). A status target is never a nil map: \<open>recommendContainer\<close> always fills it.
  Log output is left out.
\<close>

section \<open>Defaults and small helpers\<close>

definition defaultScaleUpCooldown :: duration where [const_defs]: "defaultScaleUpCooldown = 2 * minute"
definition defaultScaleDownCooldown :: duration where [const_defs]: "defaultScaleDownCooldown = 10 * minute"
definition defaultCooldownAfterHPA :: duration where [const_defs]: "defaultCooldownAfterHPA = 10 * minute"
definition defaultReserveHeadroomPercent :: i32 where [const_defs]: "defaultReserveHeadroomPercent = 10"

record actuation_result =
  ar_resized :: int
  ar_infeasible :: "string list"
  ar_recreateBlocked :: bool

definition maxMemoryBounds :: "('q, 'ls) dr_spec \<Rightarrow> string list \<Rightarrow> (string, 'q) gomap" where
  "maxMemoryBounds spec containers =
     foldl (\<lambda>out name.
       let bounds = (case findOverride (ContainerOverrides spec) name of
                       Some ov \<Rightarrow> (case co_Memory ov of Some b \<Rightarrow> b | None \<Rightarrow> rp_Memory (Resources spec))
                     | None \<Rightarrow> rp_Memory (Resources spec))
       in AList.update name (Max bounds) out) [] containers"

definition containerBounds :: "('q, 'ls) dr_spec \<Rightarrow> string \<Rightarrow> 'q \<times> 'q" where
  "containerBounds spec container =
     (let bounds = (case findOverride (ContainerOverrides spec) container of
                      Some ov \<Rightarrow> (case co_CPU ov of Some b \<Rightarrow> b | None \<Rightarrow> rp_CPU (Resources spec))
                    | None \<Rightarrow> rp_CPU (Resources spec))
      in (Min bounds, Max bounds))"

definition hpa_rank :: "hpa_state \<Rightarrow> int" where
  \<comment> \<open>the map literal; a missing key reads as 0\<close>
  "hpa_rank s = map_zero 0 [(HPAStateIdle, 0), (HPAStateAtMaxVertical, 1), (HPAStateScaling, 2)] s"

definition worseHPAState :: "hpa_state \<Rightarrow> hpa_state \<Rightarrow> hpa_state" where
  "worseHPAState a b = (if hpa_rank a < hpa_rank b then b else a)"

definition podResizeInfeasible :: "'q pod \<Rightarrow> bool" where
  "podResizeInfeasible pod =
     list_ex (\<lambda>cond. pc_Type cond = ''PodResizePending'' \<and> pc_Reason cond = ''Infeasible'') (PodConditions pod)"

definition cooldownFor :: "('q, 'ls) dr_spec \<Rightarrow> direction \<Rightarrow> duration" where
  "cooldownFor spec d =
     (let default = (if d = DirectionUp then defaultScaleUpCooldown else defaultScaleDownCooldown)
      in case Behavior spec of
           None \<Rightarrow> default
         | Some b \<Rightarrow>
             (case (if d = DirectionUp then ScaleUp b else ScaleDown b) of
                None \<Rightarrow> default
              | Some s \<Rightarrow> (case Cooldown s of Some c \<Rightarrow> c | None \<Rightarrow> default)))"

section \<open>Published metrics\<close>

definition publishRecommendationMetrics ::
  "'q quantity_api \<Rightarrow> string \<Rightarrow> string \<Rightarrow> 'q workload_recommendation list \<Rightarrow> 'q effect list" where
  "publishRecommendationMetrics Q namespace name recs =
     concat (map (\<lambda>w. map (\<lambda>c.
       let cpu = map_zero (q_zero Q) (Target c) ResourceCPU;
           mem = map_zero (q_zero Q) (Target c) ResourceMemory
       in RecommendedPublished namespace name (Workload w) (ContainerName c)
            (f_of_i64 (q_milli Q cpu)) (f_of_i64 (q_value Q mem))) (Containers w)) recs)"

fun reclaimableContainers ::
  "'q quantity_api \<Rightarrow> (string, 'q rlist) gomap \<Rightarrow> 'q container list \<Rightarrow> f64 \<times> f64 \<Rightarrow> f64 \<times> f64" where
  "reclaimableContainers Q targets [] gaps = gaps"
| "reclaimableContainers Q targets (c # cs) (cpuGapMilli, memGapBytes) =
     (case map_of targets (c_Name c) of
        None \<Rightarrow> reclaimableContainers Q targets cs (cpuGapMilli, memGapBytes)
      | Some target \<Rightarrow>
          let curCPU = map_zero (q_zero Q) (Requests c) ResourceCPU;
              curMem = map_zero (q_zero Q) (Requests c) ResourceMemory;
              tgtCPU = map_zero (q_zero Q) target ResourceCPU;
              tgtMem = map_zero (q_zero Q) target ResourceMemory;
              d = wrap64 (q_milli Q curCPU - q_milli Q tgtCPU);
              cpuGapMilli = (if 0 < d then f_add cpuGapMilli (f_of_i64 d) else cpuGapMilli);
              d = wrap64 (q_value Q curMem - q_value Q tgtMem);
              memGapBytes = (if 0 < d then f_add memGapBytes (f_of_i64 d) else memGapBytes)
          in reclaimableContainers Q targets cs (cpuGapMilli, memGapBytes))"

fun reclaimablePods ::
  "'q quantity_api \<Rightarrow> (string, 'q rlist) gomap \<Rightarrow> 'q pod list \<Rightarrow> f64 \<times> f64 \<Rightarrow> f64 \<times> f64" where
  "reclaimablePods Q targets [] gaps = gaps"
| "reclaimablePods Q targets (pod # pods) gaps =
     (if DeletionTimestamp pod \<noteq> None \<or> Phase pod \<noteq> PodRunning then reclaimablePods Q targets pods gaps
      else reclaimablePods Q targets pods (reclaimableContainers Q targets (PodContainers pod) gaps))"

definition publishReclaimableMetrics ::
  "'q quantity_api \<Rightarrow> string \<Rightarrow> string \<Rightarrow> string \<Rightarrow> 'q pod list \<Rightarrow> (string, 'q rlist) gomap \<Rightarrow> 'q effect" where
  "publishReclaimableMetrics Q namespace name workload pods targets =
     (let (cpuGapMilli, memGapBytes) = reclaimablePods Q targets pods (Fin 0, Fin 0)
      in ReclaimablePublished namespace name workload cpuGapMilli memGapBytes)"

section \<open>HPA coordination of one workload\<close>

definition floorTarget ::
  "'q quantity_api \<Rightarrow> i32 \<times> i32 \<Rightarrow> i32 \<Rightarrow> usage_snapshot option \<Rightarrow> 'q rlist \<Rightarrow> 'q rlist" where
  \<comment> \<open>the two floors of one container's target, when its usage is known\<close>
  "floorTarget Q utilization headroom u target =
     (case u of
        None \<Rightarrow> target
      | Some u \<Rightarrow>
          let (cpuTarget, memTarget) = utilization;
              floor = RequestFloor (us_CPUMilli u) cpuTarget headroom;
              target = (if 0 < floor \<and> q_milli Q (map_zero (q_zero Q) target ResourceCPU) < floor
                        then AList.update ResourceCPU (q_newMilli Q floor DecimalSI) target else target);
              floor = RequestFloor (us_MemBytes u) memTarget headroom
          in if 0 < floor \<and> q_value Q (map_zero (q_zero Q) target ResourceMemory) < floor
             then AList.update ResourceMemory (q_new Q floor BinarySI) target else target)"

definition pinnedAtMax :: "'q quantity_api \<Rightarrow> ('q, 'ls) dr_spec \<Rightarrow> string \<Rightarrow> 'q rlist \<Rightarrow> bool" where
  "pinnedAtMax Q spec name target =
     (let (_, maxCPU) = containerBounds spec name;
          cpu = map_zero (q_zero Q) target ResourceCPU
      in \<not> (q_isZero Q maxCPU \<or> q_cmp Q cpu maxCPU < 0))"

record hpa_settings =
  hs_settle :: duration
  hs_pause :: bool
  hs_headroom :: i32

definition hpaSettings :: "hpa_coordination option \<Rightarrow> hpa_settings" where
  "hpaSettings cfg =
     (case cfg of
        None \<Rightarrow> \<lparr>hs_settle = defaultCooldownAfterHPA, hs_pause = True, hs_headroom = defaultReserveHeadroomPercent\<rparr>
      | Some c \<Rightarrow>
          \<lparr>hs_settle = (case CooldownAfterHPA c of Some d \<Rightarrow> d | None \<Rightarrow> defaultCooldownAfterHPA),
           hs_pause = (case PauseWhileHPAScaling c of Some b \<Rightarrow> b | None \<Rightarrow> True),
           hs_headroom = (if 0 < ReserveHeadroomPercent c then ReserveHeadroomPercent c
                          else defaultReserveHeadroomPercent)\<rparr>)"

definition coordinateHPA ::
  "'q quantity_api \<Rightarrow> ('q, 'ls) dr_spec \<Rightarrow> hpa list go_result \<Rightarrow> string \<Rightarrow> (string, 'q rlist) gomap
   \<Rightarrow> (string, usage_snapshot) gomap \<Rightarrow> time \<Rightarrow> (hpa_state \<times> (string, 'q rlist) gomap) go_result" where
  \<comment> \<open>the third argument is the answer to listing the HPAs of the namespace; the targets, mutated in
      place by the code, are returned. Iterating over the map \<open>targets\<close> handles each entry alone, so
      the random order of Go does not matter\<close>
  "coordinateHPA Q spec hpas workload targets usage now =
     (if (case HPA spec of Some c \<Rightarrow> hc_Mode c = HPAModeIgnore | None \<Rightarrow> False) then Inr (HPAStateIdle, targets)
      else case FindHPA hpas workload of
             Inl err \<Rightarrow> Inl err
           | Inr None \<Rightarrow> Inr (HPAStateIdle, targets)
           | Inr (Some h) \<Rightarrow>
               let s = hpaSettings (HPA spec)
               in if hs_pause s \<and> IsScaling (Some h) (hs_settle s) now then Inr (HPAStateScaling, targets)
                  else
                    let utilization = TargetUtilization (Some h);
                        targets = map (\<lambda>(name, target).
                          (name, floorTarget Q utilization (hs_headroom s) (map_of usage name) target)) targets;
                        atMax = (targets \<noteq> [] \<and> list_all (\<lambda>(name, target). pinnedAtMax Q spec name target) targets)
                    in Inr (if atMax then HPAStateAtMaxVertical else HPAStateIdle, targets))"

section \<open>One Pod\<close>

record ('q, 'ls) workload_pass =
  \<comment> \<open>what is fixed while \<open>actuate\<close> visits the Pods of one workload\<close>
  wp_Namespace :: string
  wp_Workload :: string
  wp_Spec :: "('q, 'ls) dr_spec"
  wp_Targets :: "(string, 'q rlist) gomap"
  wp_Policy :: policy
  wp_Now :: time
  wp_Cooldowns :: cooldowns
  wp_WebhookEnabled :: bool

record 'q pod_state =
  \<comment> \<open>what changes while it does\<close>
  ps_trace :: "'q trace"
  ps_res :: actuation_result
  ps_resizedDirections :: "(direction, bool) gomap"
  ps_evictBudget :: int

definition cooldownKey :: "('q, 'ls) workload_pass \<Rightarrow> string" where
  "cooldownKey X = wp_Namespace X @ ''/'' @ wp_Workload X"

definition recreateMode :: "('q, 'ls) workload_pass \<Rightarrow> bool" where
  "recreateMode X \<longleftrightarrow> UpdateMode (wp_Spec X) = UpdateModeInPlaceOrRecreate"

definition cooldownAllows :: "('q, 'ls) workload_pass \<Rightarrow> direction \<Rightarrow> bool" where
  "cooldownAllows X d \<longleftrightarrow> cd_Allow (wp_Cooldowns X) (cooldownKey X) d (cooldownFor (wp_Spec X) d) (wp_Now X)"

definition countResized :: "'q effect list \<Rightarrow> 'q pod_state \<Rightarrow> 'q pod_state" where
  \<comment> \<open>\<open>res.resized++\<close> and the metric and event that go with it\<close>
  "countResized es st =
     st\<lparr>ps_trace := ps_trace st @ es, ps_res := (ps_res st)\<lparr>ar_resized := ar_resized (ps_res st) + 1\<rparr>\<rparr>"

definition evictPod ::
  "'q cluster_api \<Rightarrow> ('q, 'ls) workload_pass \<Rightarrow> 'q pod \<Rightarrow> 'q pod_state \<Rightarrow> 'q pod_state" where
  "evictPod A X pod st =
     (if \<not> wp_WebhookEnabled X then st\<lparr>ps_res := (ps_res st)\<lparr>ar_recreateBlocked := True\<rparr>\<rparr>
      else if ps_evictBudget st = 0 \<or> \<not> cooldownAllows X DirectionDown then st
      else case Evict A (wp_Namespace X) (p_Name pod) (ps_trace st) of
             (Some err, tr) \<Rightarrow> st\<lparr>ps_trace := tr\<rparr>
           | (None, tr) \<Rightarrow>
               let st = st\<lparr>ps_trace := tr, ps_evictBudget := ps_evictBudget st - 1,
                           ps_resizedDirections := AList.update DirectionDown True (ps_resizedDirections st)\<rparr>
               in countResized [ResizeCounted (wp_Namespace X) (wp_Workload X) DirectionDown,
                                EventRecorded EventNormal ''PodEvictedForResize''] st)"

definition applyOOM ::
  "'q cluster_api \<Rightarrow> ('q, 'ls) workload_pass \<Rightarrow> 'q pod_plan \<Rightarrow> 'q pod_state \<Rightarrow> go_error option \<times> 'q pod_state" where
  "applyOOM A X plan st =
     (case Apply A (wp_Namespace X) plan (ps_trace st) of
        (Some ErrRateLimited, tr) \<Rightarrow> (None, st\<lparr>ps_trace := tr\<rparr>)
      | (Some err, tr) \<Rightarrow> (Some err, st\<lparr>ps_trace := tr\<rparr>)
      | (None, tr) \<Rightarrow>
          (None, countResized [ResizeCounted (wp_Namespace X) (wp_Workload X) DirectionUp,
                               EventRecorded EventWarning ''OOMFastPath''] (st\<lparr>ps_trace := tr\<rparr>)))"

definition applyPlan ::
  "'q cluster_api \<Rightarrow> ('q, 'ls) workload_pass \<Rightarrow> 'q pod_plan \<Rightarrow> 'q pod_state \<Rightarrow> go_error option \<times> 'q pod_state" where
  "applyPlan A X plan st =
     (if \<not> cooldownAllows X (pp_Direction plan) then (None, st)
      else case Apply A (wp_Namespace X) plan (ps_trace st) of
             (Some ErrRateLimited, tr) \<Rightarrow> (None, st\<lparr>ps_trace := tr\<rparr>)
           | (Some err, tr) \<Rightarrow> (Some err, st\<lparr>ps_trace := tr\<rparr>)
           | (None, tr) \<Rightarrow>
               let st = st\<lparr>ps_trace := tr,
                           ps_resizedDirections := AList.update (pp_Direction plan) True (ps_resizedDirections st)\<rparr>
               in (None, countResized [ResizeCounted (wp_Namespace X) (wp_Workload X) (pp_Direction plan)] st))"

definition oomPlan :: "'q quantity_api \<Rightarrow> ('q, 'ls) workload_pass \<Rightarrow> 'q pod \<Rightarrow> 'q pod_plan option" where
  "oomPlan Q X pod =
     (let oomContainers = OOMKilledContainers (ContainerStatuses pod) (wp_Now X)
      in if oomContainers \<noteq> []
         then PlanOOMBump Q pod oomContainers (maxMemoryBounds (wp_Spec X) oomContainers) (wp_Policy X)
         else None)"

definition actuatePod ::
  "'q quantity_api \<Rightarrow> 'q cluster_api \<Rightarrow> ('q, 'ls) workload_pass \<Rightarrow> 'q pod \<Rightarrow> 'q pod_state \<Rightarrow> go_error option \<times> 'q pod_state" where
  \<comment> \<open>the body of the loop over the Pods; \<open>Some err\<close> is the early return\<close>
  "actuatePod Q A X pod st =
     (if DeletionTimestamp pod \<noteq> None \<or> Phase pod \<noteq> PodRunning then (None, st)
      else if recreateMode X
              \<and> (podResizeInfeasible pod \<or> BlockedMemoryShrink Q pod (wp_Targets X) (wp_Policy X))
      then (None, evictPod A X pod st)
      else if podResizeInfeasible pod
      then (None, st\<lparr>ps_res := (ps_res st)\<lparr>ar_infeasible := ar_infeasible (ps_res st) @ [p_Name pod]\<rparr>\<rparr>)
      else case oomPlan Q X pod of
             Some plan \<Rightarrow> applyOOM A X plan st
           | None \<Rightarrow>
               (case PlanPod Q pod (wp_Targets X) (wp_Policy X) of
                  None \<Rightarrow> (None, st)
                | Some plan \<Rightarrow> applyPlan A X plan st))"

fun actuatePods ::
  "'q quantity_api \<Rightarrow> 'q cluster_api \<Rightarrow> ('q, 'ls) workload_pass \<Rightarrow> 'q pod list \<Rightarrow> 'q pod_state \<Rightarrow> go_error option \<times> 'q pod_state" where
  "actuatePods Q A X [] st = (None, st)"
| "actuatePods Q A X (pod # pods) st =
     (case actuatePod Q A X pod st of
        (Some err, st) \<Rightarrow> (Some err, st)
      | (None, st) \<Rightarrow> actuatePods Q A X pods st)"

section \<open>One workload\<close>

record ('q, 'ls, 'sel) env =
  \<comment> \<open>the cluster the reconciler talks to: its writes, its lists, and the selector library\<close>
  e_api :: "'q cluster_api"
  e_hpas :: "'q trace \<Rightarrow> string \<Rightarrow> hpa list go_result"
  e_pods :: "'q trace \<Rightarrow> string \<Rightarrow> 'sel \<Rightarrow> 'q pod list go_result"
  e_asSelector :: "'ls \<Rightarrow> 'sel go_result"

definition listWorkloadPods ::
  "('q, 'ls, 'sel) env \<Rightarrow> 'q trace \<Rightarrow> string \<Rightarrow> 'ls deployment \<Rightarrow> 'q pod list go_result" where
  "listWorkloadPods E tr namespace deploy =
     (case e_asSelector E (PodSelector deploy) of
        Inl err \<Rightarrow> Inl (''workload '' @ d_Name deploy @ '': invalid pod selector: '' @ err)
      | Inr sel \<Rightarrow> e_pods E tr namespace sel)"

record 'q pass_state =
  \<comment> \<open>what changes from workload to workload\<close>
  as_trace :: "'q trace"
  as_cooldowns :: cooldowns
  as_res :: actuation_result
  as_hpaState :: hpa_state
  as_recs :: "'q workload_recommendation list"

definition recByWorkload :: "'q workload_recommendation list \<Rightarrow> (string, nat) gomap" where
  \<comment> \<open>the pointer \<open>&recs[i]\<close> is the index \<open>i\<close>\<close>
  "recByWorkload recs = foldl (\<lambda>m i. AList.update (Workload (recs ! i)) i m) [] [0..<length recs]"

definition workloadTargets :: "'q container_recommendation list \<Rightarrow> (string, 'q rlist) gomap" where
  "workloadTargets cs = foldl (\<lambda>targets c. AList.update (ContainerName c) (Target c) targets) [] cs"

fun writeBack ::
  "(string, 'q rlist) gomap \<Rightarrow> 'q container_recommendation list \<Rightarrow> 'q container_recommendation list" where
  \<comment> \<open>\<open>targets\<close> shares its resource lists with the last recommendation of each container name\<close>
  "writeBack targets [] = []"
| "writeBack targets (c # cs) =
     (if ContainerName c \<in> set (map ContainerName cs) then c
      else c\<lparr>Target := map_zero (Target c) targets (ContainerName c)\<rparr>) # writeBack targets cs"

definition recordCooldowns :: "cooldowns \<Rightarrow> string \<Rightarrow> (direction, bool) gomap \<Rightarrow> time \<Rightarrow> cooldowns" where
  "recordCooldowns cds key dirs now = foldl (\<lambda>cds d. cd_Record cds key d now) cds (gomap_keys dirs)"

definition actuateWorkload ::
  "'q quantity_api \<Rightarrow> ('q, 'ls, 'sel) env \<Rightarrow> bool \<Rightarrow> ('q, 'ls) dynamic_resource \<Rightarrow> usage_map \<Rightarrow> time \<Rightarrow> (string, nat) gomap
   \<Rightarrow> 'ls deployment \<Rightarrow> 'q pass_state \<Rightarrow> go_error option \<times> 'q pass_state" where
  \<comment> \<open>the body of the loop over the matched workloads\<close>
  "actuateWorkload Q E webhookEnabled dr usage now byWorkload deploy st =
     (case map_of byWorkload (d_Name deploy) of
        None \<Rightarrow> (None, st)
      | Some i \<Rightarrow>
          let rec = as_recs st ! i;
              ns = dr_Namespace dr
          in case coordinateHPA Q (Spec dr) (e_hpas E (as_trace st) ns) (d_Name deploy)
                    (workloadTargets (Containers rec)) (map_zero [] usage (d_Name deploy)) now of
               Inl err \<Rightarrow> (Some (ErrOther err), st)
             | Inr (state, targets) \<Rightarrow>
                 let st = st\<lparr>as_recs := (as_recs st)[i := rec\<lparr>Containers := writeBack targets (Containers rec)\<rparr>],
                             as_hpaState := worseHPAState (as_hpaState st) state\<rparr>
                 in if state = HPAStateScaling then (None, st)
                    else case listWorkloadPods E (as_trace st) ns deploy of
                           Inl err \<Rightarrow> (Some (ErrOther err), st)
                         | Inr pods \<Rightarrow>
                             let tr = as_trace st @ [publishReclaimableMetrics Q ns (dr_Name dr) (d_Name deploy) pods targets];
                                 X = \<lparr>wp_Namespace = ns, wp_Workload = d_Name deploy, wp_Spec = Spec dr,
                                      wp_Targets = targets, wp_Policy = DefaultPolicy (Spec dr), wp_Now = now,
                                      wp_Cooldowns = as_cooldowns st, wp_WebhookEnabled = webhookEnabled\<rparr>;
                                 (err, ps) = actuatePods Q (e_api E) X pods
                                    \<lparr>ps_trace = tr, ps_res = as_res st, ps_resizedDirections = [], ps_evictBudget = 1\<rparr>;
                                 st = st\<lparr>as_trace := ps_trace ps, as_res := ps_res ps\<rparr>
                             in case err of
                                  Some e \<Rightarrow> (Some e, st)
                                | None \<Rightarrow> (None, st\<lparr>as_cooldowns :=
                                    recordCooldowns (as_cooldowns st) (cooldownKey X) (ps_resizedDirections ps) now\<rparr>))"

fun actuateLoop ::
  "'q quantity_api \<Rightarrow> ('q, 'ls, 'sel) env \<Rightarrow> bool \<Rightarrow> ('q, 'ls) dynamic_resource \<Rightarrow> usage_map \<Rightarrow> time \<Rightarrow> (string, nat) gomap
   \<Rightarrow> 'ls deployment list \<Rightarrow> 'q pass_state \<Rightarrow> go_error option \<times> 'q pass_state" where
  "actuateLoop Q E webhookEnabled dr usage now byWorkload [] st = (None, st)"
| "actuateLoop Q E webhookEnabled dr usage now byWorkload (deploy # matched) st =
     (case actuateWorkload Q E webhookEnabled dr usage now byWorkload deploy st of
        (Some err, st) \<Rightarrow> (Some err, st)
      | (None, st) \<Rightarrow> actuateLoop Q E webhookEnabled dr usage now byWorkload matched st)"

section \<open>The pass\<close>

definition markApplied ::
  "(string, nat) gomap \<Rightarrow> 'q workload_recommendation list \<Rightarrow> 'q workload_recommendation list" where
  "markApplied byWorkload recs =
     map (\<lambda>w. if map_of byWorkload (Workload w) = None then w
              else w\<lparr>Containers := map (\<lambda>c. c\<lparr>Applied := Target c\<rparr>) (Containers w)\<rparr>) recs"

record ('q, 'ls) actuate_outcome =
  ao_err :: "go_error option"
  ao_res :: actuation_result
  ao_dr :: "('q, 'ls) dynamic_resource"
  ao_cooldowns :: cooldowns
  ao_trace :: "'q trace"

definition actuate ::
  "'q quantity_api \<Rightarrow> ('q, 'ls, 'sel) env \<Rightarrow> bool \<Rightarrow> ('q, 'ls) dynamic_resource \<Rightarrow> 'ls deployment list \<Rightarrow> usage_map
   \<Rightarrow> time \<Rightarrow> cooldowns \<Rightarrow> 'q trace \<Rightarrow> ('q, 'ls) actuate_outcome" where
  "actuate Q E webhookEnabled dr matched usage now cds tr =
     (let recs = Recommendations (Status dr);
          byWorkload = recByWorkload recs;
          (err, st) = actuateLoop Q E webhookEnabled dr usage now byWorkload matched
            \<lparr>as_trace = tr, as_cooldowns = cds,
             as_res = \<lparr>ar_resized = 0, ar_infeasible = [], ar_recreateBlocked = False\<rparr>,
             as_hpaState = HPAStateIdle, as_recs = recs\<rparr>;
          dr = dr\<lparr>Status := (Status dr)\<lparr>Recommendations := as_recs st\<rparr>\<rparr>
      in case err of
           Some e \<Rightarrow>
             \<lparr>ao_err = Some e, ao_res = as_res st, ao_dr = dr, ao_cooldowns = as_cooldowns st, ao_trace = as_trace st\<rparr>
         | None \<Rightarrow>
             let status = (Status dr)\<lparr>HPAState := as_hpaState st\<rparr>
             in if 0 < ar_resized (as_res st)
                then \<lparr>ao_err = None, ao_res = as_res st,
                      ao_dr = dr\<lparr>Status := status\<lparr>LastResizeTime := Some now,
                                  Recommendations := markApplied byWorkload (Recommendations status)\<rparr>\<rparr>,
                      ao_cooldowns = as_cooldowns st, ao_trace = as_trace st @ [EventRecorded EventNormal ''PodsResized'']\<rparr>
                else \<lparr>ao_err = None, ao_res = as_res st, ao_dr = dr\<lparr>Status := status\<rparr>,
                      ao_cooldowns = as_cooldowns st, ao_trace = as_trace st\<rparr>)"

end
