(* ===== verification/ActuationProps.thy ===== *)
theory ActuationProps
  imports Actuation
begin

text \<open>
  What an actuation pass may do. \<open>justified\<close> is the specification of a write: an inductive
  predicate with one rule per reason the program has to touch a Pod, each with all the guards that
  must hold. The lemmas show that every write of a pass is justified, that the counters agree with
  the trace, and which cooldowns a pass records.
\<close>

section \<open>The specification of a write\<close>

definition serving :: "'q pod \<Rightarrow> bool" where
  "serving pod \<longleftrightarrow> DeletionTimestamp pod = None \<and> Phase pod = PodRunning"

inductive justified ::
  "'q quantity_api \<Rightarrow> ('q, 'ls) workload_pass \<Rightarrow> 'q pod list \<Rightarrow> 'q effect \<Rightarrow> bool"
  for Q X pods where
    bookkeeping: "\<not> is_patch e \<Longrightarrow> \<not> is_evict e \<Longrightarrow> \<not> is_status e \<Longrightarrow> justified Q X pods e"
  | oom: "pod \<in> set pods \<Longrightarrow> serving pod \<Longrightarrow> \<not> podResizeInfeasible pod \<Longrightarrow> oomPlan Q X pod = Some plan \<Longrightarrow>
      justified Q X pods (ResizePatched (wp_Namespace X) (p_Name pod) (Changes plan) r)"
  | planned: "pod \<in> set pods \<Longrightarrow> serving pod \<Longrightarrow> \<not> podResizeInfeasible pod \<Longrightarrow> oomPlan Q X pod = None \<Longrightarrow>
      PlanPod Q pod (wp_Targets X) (wp_Policy X) = Some plan \<Longrightarrow> cooldownAllows X (pp_Direction plan) \<Longrightarrow>
      justified Q X pods (ResizePatched (wp_Namespace X) (p_Name pod) (Changes plan) r)"
  | eviction: "pod \<in> set pods \<Longrightarrow> serving pod \<Longrightarrow> recreateMode X \<Longrightarrow> wp_WebhookEnabled X \<Longrightarrow>
      podResizeInfeasible pod \<or> BlockedMemoryShrink Q pod (wp_Targets X) (wp_Policy X) \<Longrightarrow>
      cooldownAllows X DirectionDown \<Longrightarrow>
      justified Q X pods (PodEvicted (wp_Namespace X) (p_Name pod) r)"

lemma justified_not_status: "justified Q X pods e \<Longrightarrow> \<not> is_status e"
  by (cases rule: justified.cases) auto

inductive_simps justified_evict: "justified Q X pods (PodEvicted ns p r)"
inductive_simps justified_patch: "justified Q X pods (ResizePatched ns p chs r)"

definition is_success :: "'q effect \<Rightarrow> bool" where
  "is_success e \<longleftrightarrow> (case e of ResizePatched _ _ _ None \<Rightarrow> True | PodEvicted _ _ None \<Rightarrow> True | _ \<Rightarrow> False)"

definition is_evicted :: "'q effect \<Rightarrow> bool" where
  "is_evicted e \<longleftrightarrow> (case e of PodEvicted _ _ None \<Rightarrow> True | _ \<Rightarrow> False)"

lemma is_success_simps [simp]:
  "\<not> is_success (LimiterAsked b)" "is_success (ResizePatched ns p chs r) \<longleftrightarrow> r = None"
  "is_success (PodEvicted ns p r) \<longleftrightarrow> r = None" "\<not> is_success (EventRecorded t n)"
  "\<not> is_success (ResizeCounted ns w d)" "\<not> is_success (ReclaimablePublished ns dr w x y)"
  by (simp_all add: is_success_def split: option.split)

lemma is_evicted_simps [simp]:
  "\<not> is_evicted (LimiterAsked b)" "\<not> is_evicted (ResizePatched ns p chs r)"
  "is_evicted (PodEvicted ns p r) \<longleftrightarrow> r = None" "\<not> is_evicted (EventRecorded t n)"
  "\<not> is_evicted (ResizeCounted ns w d)" "\<not> is_evicted (ReclaimablePublished ns dr w x y)"
  by (simp_all add: is_evicted_def split: option.split)

definition counted :: "string \<Rightarrow> string \<Rightarrow> direction \<Rightarrow> 'q effect list \<Rightarrow> bool" where
  \<comment> \<open>a resize of the workload was counted that is subject to the cooldown: the OOM fast path, which
      only counts upward resizes and announces each, is not\<close>
  "counted ns w d es \<longleftrightarrow> ResizeCounted ns w d \<in> set es
     \<and> (d = DirectionDown \<or> EventRecorded EventWarning ''OOMFastPath'' \<notin> set es)"

lemma counted_append: "counted ns w d (xs @ ys) \<Longrightarrow> counted ns w d xs \<or> counted ns w d ys"
  by (auto simp: counted_def)

lemma counted_Nil [simp]: "\<not> counted ns w d []"
  by (simp add: counted_def)

section \<open>One Pod\<close>

lemma oomLoop_pod: "pp_Pod (oomLoop Q oom maxMemory p g plan cs) = pp_Pod plan"
  by (induction cs arbitrary: plan) (auto split: option.split)

lemma oomPlan_pod: "oomPlan Q X pod = Some plan \<Longrightarrow> pp_Pod plan = p_Name pod"
  by (auto simp: oomPlan_def PlanOOMBump_def oomLoop_pod Let_def split: if_splits)

lemma planLoop_pod: "pp_Pod (planLoop Q targets p g plan cs) = pp_Pod plan"
  by (induction cs arbitrary: plan) (auto split: option.split prod.split)

lemma PlanPod_pod: "PlanPod Q pod targets p = Some plan \<Longrightarrow> pp_Pod plan = p_Name pod"
  by (auto simp: PlanPod_def planLoop_pod Let_def split: if_splits)

definition pod_step ::
  "'q quantity_api \<Rightarrow> ('q, 'ls) workload_pass \<Rightarrow> 'q pod list \<Rightarrow> 'q effect list \<Rightarrow> 'q pod_state \<Rightarrow> 'q pod_state \<Rightarrow> bool" where
  \<comment> \<open>from one state to the other exactly \<open>ext\<close> was done: every write of it is justified, the counters
      agree with it, and every resize under the cooldown was allowed and noted for recording\<close>
  "pod_step Q X pods ext st st' \<longleftrightarrow>
     ps_trace st' = ps_trace st @ ext \<and> list_all (justified Q X pods) ext
     \<and> ar_resized (ps_res st') = ar_resized (ps_res st) + int (length (filter is_success ext))
     \<and> ps_evictBudget st' = ps_evictBudget st - int (length (filter is_evicted ext))
     \<and> (0 \<le> ps_evictBudget st \<longrightarrow> 0 \<le> ps_evictBudget st')
     \<and> set (gomap_keys (ps_resizedDirections st)) \<subseteq> set (gomap_keys (ps_resizedDirections st'))
     \<and> (\<forall>ns w d. counted ns w d ext \<longrightarrow> ns = wp_Namespace X \<and> w = wp_Workload X
          \<and> d \<in> set (gomap_keys (ps_resizedDirections st')) \<and> cooldownAllows X d)"

lemma pod_step_refl: "pod_step Q X pods [] st st"
  by (simp add: pod_step_def)

lemma pod_step_trans:
  assumes "pod_step Q X pods e1 st st1" "pod_step Q X pods e2 st1 st2"
  shows "pod_step Q X pods (e1 @ e2) st st2"
proof -
  have c: "ns = wp_Namespace X \<and> w = wp_Workload X \<and> d \<in> set (gomap_keys (ps_resizedDirections st2)) \<and> cooldownAllows X d"
    if "counted ns w d (e1 @ e2)" for ns w d
    using counted_append [OF that] assms unfolding pod_step_def by blast
  then show ?thesis using assms unfolding pod_step_def by (auto simp: c)
qed

lemma success_true [simp]: "set ext \<subseteq> {LimiterAsked True} \<Longrightarrow> filter is_success ext = [] \<and> filter is_evicted ext = []"
  by (induction ext) auto

lemma limiter_justified: "set ext \<subseteq> {LimiterAsked b} \<Longrightarrow> list_all (justified Q X pods) ext"
  by (induction ext) (auto intro: bookkeeping)

lemma counted_limiter:
  "set ext \<subseteq> {LimiterAsked True} \<Longrightarrow> counted ns w d (ext @ es) \<longleftrightarrow> counted ns w d es"
  by (auto simp: counted_def)

lemma counted_simps [simp]:
  "counted ns w d (LimiterAsked b # es) \<longleftrightarrow> counted ns w d es"
  "counted ns w d (ResizePatched ns' p chs r # es) \<longleftrightarrow> counted ns w d es"
  "counted ns w d (PodEvicted ns' p r # es) \<longleftrightarrow> counted ns w d es"
  "counted ns w d (ReclaimablePublished ns' dr w' x y # es) \<longleftrightarrow> counted ns w d es"
  by (auto simp: counted_def)

lemma evictPod_step:
  assumes "pod \<in> set pods" "serving pod" "recreateMode X"
    and "podResizeInfeasible pod \<or> BlockedMemoryShrink Q pod (wp_Targets X) (wp_Policy X)"
  shows "\<exists>ext. pod_step Q X pods ext st (evictPod A X pod st)"
proof (cases "wp_WebhookEnabled X \<and> ps_evictBudget st \<noteq> 0 \<and> cooldownAllows X DirectionDown")
  case False
  then have "pod_step Q X pods [] st (evictPod A X pod st)" by (auto simp: evictPod_def pod_step_def)
  then show ?thesis ..
next
  case True
  note j = eviction [OF assms(1-3) conjunct1 [OF True] assms(4)]
  obtain err tr where e: "Evict A (wp_Namespace X) (p_Name pod) (ps_trace st) = (err, tr)" by fastforce
  from e show ?thesis
  proof (cases rule: Evict_cases)
    case limited
    then have "pod_step Q X pods [LimiterAsked False] st (evictPod A X pod st)"
      using True e by (simp add: evictPod_def pod_step_def bookkeeping)
    then show ?thesis ..
  next
    case (evicted ext r)
    show ?thesis
    proof (cases err)
      case None
      then have "pod_step Q X pods (ext @ [PodEvicted (wp_Namespace X) (p_Name pod) None,
          ResizeCounted (wp_Namespace X) (wp_Workload X) DirectionDown,
          EventRecorded EventNormal ''PodEvictedForResize'']) st (evictPod A X pod st)"
        using True e evicted limiter_justified [OF evicted(2)]
        by (auto simp: evictPod_def pod_step_def countResized_def gomap_keys_update counted_limiter bookkeeping j
            Let_def) (auto simp: counted_def)
      then show ?thesis ..
    next
      case (Some err')
      then have "pod_step Q X pods (ext @ [PodEvicted (wp_Namespace X) (p_Name pod) r]) st (evictPod A X pod st)"
        using True e evicted limiter_justified [OF evicted(2)]
        by (auto simp: evictPod_def pod_step_def counted_limiter j)
      then show ?thesis ..
    qed
  qed
qed

lemma applyOOM_step:
  assumes "pod \<in> set pods" "serving pod" "\<not> podResizeInfeasible pod" "oomPlan Q X pod = Some plan"
    and a: "applyOOM A X plan st = (err, st')"
  shows "\<exists>ext. pod_step Q X pods ext st st'"
proof -
  note j = justified.oom [OF assms(1-4), folded oomPlan_pod [OF assms(4)]]
  obtain e tr where e: "Apply A (wp_Namespace X) plan (ps_trace st) = (e, tr)" by fastforce
  from e show ?thesis
  proof (cases rule: Apply_cases)
    case limited
    then have "pod_step Q X pods [LimiterAsked False] st st'"
      using a e by (auto simp: applyOOM_def pod_step_def bookkeeping)
    then show ?thesis ..
  next
    case (patched ext r)
    show ?thesis
    proof (cases e)
      case None
      then have "pod_step Q X pods (ext @ [ResizePatched (wp_Namespace X) (pp_Pod plan) (Changes plan) None,
          ResizeCounted (wp_Namespace X) (wp_Workload X) DirectionUp, EventRecorded EventWarning ''OOMFastPath'']) st st'"
        using a e patched limiter_justified [OF patched(2)]
        by (auto simp: applyOOM_def pod_step_def countResized_def counted_limiter bookkeeping j)
          (auto simp: counted_def)
      then show ?thesis ..
    next
      case (Some e')
      then have "pod_step Q X pods (ext @ [ResizePatched (wp_Namespace X) (pp_Pod plan) (Changes plan) r]) st st'"
        using a e patched limiter_justified [OF patched(2)]
        by (auto simp: applyOOM_def pod_step_def counted_limiter j split: go_error.splits)
      then show ?thesis ..
    qed
  qed
qed

lemma applyPlan_step:
  assumes "pod \<in> set pods" "serving pod" "\<not> podResizeInfeasible pod" "oomPlan Q X pod = None"
    and p: "PlanPod Q pod (wp_Targets X) (wp_Policy X) = Some plan" and a: "applyPlan A X plan st = (err, st')"
  shows "\<exists>ext. pod_step Q X pods ext st st'"
proof (cases "cooldownAllows X (pp_Direction plan)")
  case False
  then have "st' = st" using a by (simp add: applyPlan_def)
  then show ?thesis using pod_step_refl by blast
next
  case True
  note j = justified.planned [OF assms(1-4) p True, folded PlanPod_pod [OF p]]
  obtain e tr where e: "Apply A (wp_Namespace X) plan (ps_trace st) = (e, tr)" by fastforce
  from e show ?thesis
  proof (cases rule: Apply_cases)
    case limited
    then have "pod_step Q X pods [LimiterAsked False] st st'"
      using a e True by (auto simp: applyPlan_def pod_step_def bookkeeping)
    then show ?thesis ..
  next
    case (patched ext r)
    show ?thesis
    proof (cases e)
      case None
      then have "pod_step Q X pods (ext @ [ResizePatched (wp_Namespace X) (pp_Pod plan) (Changes plan) None,
          ResizeCounted (wp_Namespace X) (wp_Workload X) (pp_Direction plan)]) st st'"
        using a e True patched limiter_justified [OF patched(2)]
        by (auto simp: applyPlan_def pod_step_def countResized_def gomap_keys_update counted_limiter bookkeeping j
            Let_def) (auto simp: counted_def)
      then show ?thesis ..
    next
      case (Some e')
      then have "pod_step Q X pods (ext @ [ResizePatched (wp_Namespace X) (pp_Pod plan) (Changes plan) r]) st st'"
        using a e True patched limiter_justified [OF patched(2)]
        by (auto simp: applyPlan_def pod_step_def counted_limiter j split: go_error.splits)
      then show ?thesis ..
    qed
  qed
qed

lemma actuatePod_step:
  assumes "pod \<in> set pods" "actuatePod Q A X pod st = (err, st')"
  shows "\<exists>ext. pod_step Q X pods ext st st'"
proof -
  consider (skipped) "st' = st"
    | (evict) "serving pod" "recreateMode X"
        "podResizeInfeasible pod \<or> BlockedMemoryShrink Q pod (wp_Targets X) (wp_Policy X)" "st' = evictPod A X pod st"
    | (infeasible) "st' = st\<lparr>ps_res := (ps_res st)\<lparr>ar_infeasible := ar_infeasible (ps_res st) @ [p_Name pod]\<rparr>\<rparr>"
    | (oom) plan where "serving pod" "\<not> podResizeInfeasible pod" "oomPlan Q X pod = Some plan"
        "applyOOM A X plan st = (err, st')"
    | (planned) plan where "serving pod" "\<not> podResizeInfeasible pod" "oomPlan Q X pod = None"
        "PlanPod Q pod (wp_Targets X) (wp_Policy X) = Some plan" "applyPlan A X plan st = (err, st')"
    using assms(2) by (auto simp: actuatePod_def serving_def split: if_splits option.splits)
  then show ?thesis
  proof cases
    case skipped
    then show ?thesis using pod_step_refl by blast
  next
    case evict
    then show ?thesis using evictPod_step [OF assms(1)] by blast
  next
    case infeasible
    then have "pod_step Q X pods [] st st'" by (simp add: pod_step_def)
    then show ?thesis ..
  next
    case oom
    then show ?thesis using applyOOM_step [OF assms(1)] by blast
  next
    case planned
    then show ?thesis using applyPlan_step [OF assms(1)] by blast
  qed
qed

lemma actuatePods_step:
  "set pods \<subseteq> set all \<Longrightarrow> actuatePods Q A X pods st = (err, st') \<Longrightarrow> \<exists>ext. pod_step Q X all ext st st'"
proof (induction pods arbitrary: st)
  case Nil
  then have "st' = st" by simp
  then show ?case using pod_step_refl by blast
next
  case (Cons pod pods)
  obtain e st1 where p: "actuatePod Q A X pod st = (e, st1)" by fastforce
  from actuatePod_step [OF _ this, of all] Cons.prems(1) obtain e1 where e1: "pod_step Q X all e1 st st1" by auto
  show ?case
  proof (cases e)
    case None
    then obtain e2 where "pod_step Q X all e2 st1 st'" using Cons p by auto
    then show ?thesis using pod_step_trans [OF e1] by blast
  next
    case (Some _)
    then show ?thesis using Cons.prems(2) p e1 by auto
  qed
qed

section \<open>The pass\<close>

lemma recordCooldowns_rec_all:
  "recordCooldowns cds key dirs now = cdt.rec_all cds (map (\<lambda>d. (key, d, now)) (gomap_keys dirs))"
proof -
  have "foldl (\<lambda>cds d. cd_Record cds key d now) cds ds = cdt.rec_all cds (map (\<lambda>d. (key, d, now)) ds)" for ds
    by (induction ds arbitrary: cds) (simp_all add: cdt.rec_all_def)
  then show ?thesis by (simp add: recordCooldowns_def)
qed

lemma recByWorkload_Some:
  assumes "map_of (recByWorkload recs) w = Some i"
  shows "i < length recs" "Workload (recs ! i) = w"
proof -
  have "i < length recs \<and> Workload (recs ! i) = w"
    if "map_of (foldl (\<lambda>m i. AList.update (Workload (recs ! i)) i m) [] is) w = Some i" "set is \<subseteq> {..<length recs}" for "is"
    using that by (induction "is" rule: rev_induct) (auto simp: map_of_update split: if_splits)
  from this [of "[0..<length recs]"] show "i < length recs" "Workload (recs ! i) = w"
    using assms by (auto simp: recByWorkload_def lessThan_atLeast0)
qed

definition workload_view ::
  "'q quantity_api \<Rightarrow> ('q, 'ls, 'sel) env \<Rightarrow> bool \<Rightarrow> ('q, 'ls) dynamic_resource \<Rightarrow> 'ls deployment list \<Rightarrow> usage_map \<Rightarrow> time
   \<Rightarrow> ('q, 'ls) workload_pass \<Rightarrow> 'q pod list \<Rightarrow> bool" where
  \<comment> \<open>the locals of a pass over a matched workload: its Pods as listed, its published targets as left
      by the HPA coordination, and an HPA that is not scaling\<close>
  "workload_view Q E webhookEnabled dr matched usage now X pods \<longleftrightarrow>
     wp_Namespace X = dr_Namespace dr \<and> wp_Spec X = Spec dr \<and> wp_Policy X = DefaultPolicy (Spec dr)
     \<and> wp_Now X = now \<and> wp_WebhookEnabled X = webhookEnabled
     \<and> (\<exists>deploy \<in> set matched. wp_Workload X = d_Name deploy
          \<and> (\<exists>tr. listWorkloadPods E tr (dr_Namespace dr) deploy = Inr pods))
     \<and> (\<exists>rec \<in> set (Recommendations (Status dr)). Workload rec = wp_Workload X
          \<and> (\<exists>tr state. coordinateHPA Q (Spec dr) (e_hpas E tr (dr_Namespace dr)) (wp_Workload X)
                (workloadTargets (Containers rec)) (map_zero [] usage (wp_Workload X)) now = Inr (state, wp_Targets X)
              \<and> state \<noteq> HPAStateScaling))"

definition admitted ::
  "'q quantity_api \<Rightarrow> ('q, 'ls, 'sel) env \<Rightarrow> bool \<Rightarrow> ('q, 'ls) dynamic_resource \<Rightarrow> 'ls deployment list \<Rightarrow> usage_map \<Rightarrow> time
   \<Rightarrow> 'q effect \<Rightarrow> bool" where
  "admitted Q E webhookEnabled dr matched usage now e \<longleftrightarrow>
     \<not> is_status e \<and> (is_patch e \<or> is_evict e \<longrightarrow>
        (\<exists>X pods. workload_view Q E webhookEnabled dr matched usage now X pods \<and> justified Q X pods e))"

abbreviation cdKey :: "string \<Rightarrow> string \<Rightarrow> string" where
  "cdKey ns w \<equiv> ns @ ''/'' @ w"

definition pass_step ::
  "('q effect \<Rightarrow> bool) \<Rightarrow> (direction \<Rightarrow> duration) \<Rightarrow> time \<Rightarrow> bool \<Rightarrow> nat \<Rightarrow> 'q effect list
   \<Rightarrow> (string \<times> direction \<times> time) list \<Rightarrow> 'q pass_state \<Rightarrow> 'q pass_state \<Rightarrow> bool" where
  \<comment> \<open>from one state to the other exactly \<open>ext\<close> was done and \<open>stamps\<close> recorded; \<open>ended\<close> holds when
      no error cut the pass short\<close>
  "pass_step J cd now ended n ext stamps st st' \<longleftrightarrow>
     as_trace st' = as_trace st @ ext \<and> list_all J ext
     \<and> ar_resized (as_res st') = ar_resized (as_res st) + int (length (filter is_success ext))
     \<and> length (filter is_evicted ext) \<le> n
     \<and> as_cooldowns st' = cdt.rec_all (as_cooldowns st) stamps
     \<and> (\<forall>s \<in> set stamps. snd (snd s) = now)
     \<and> (ended \<longrightarrow> (\<forall>ns w d. counted ns w d ext \<longrightarrow> (cdKey ns w, d, now) \<in> set stamps))
     \<and> (\<forall>ns w d. counted ns w d ext \<longrightarrow> (\<exists>pre post. stamps = pre @ post
          \<and> cd_Allow (cdt.rec_all (as_cooldowns st) pre) (cdKey ns w) d (cd d) now))"

lemma pass_step_refl:
  "as_trace st' = as_trace st \<Longrightarrow> as_res st' = as_res st \<Longrightarrow> as_cooldowns st' = as_cooldowns st \<Longrightarrow>
   pass_step J cd now ended n [] [] st st'"
  by (simp add: pass_step_def)

lemma pass_step_trans:
  assumes 1: "pass_step J cd now True n1 e1 s1 st st1" and 2: "pass_step J cd now ended n2 e2 s2 st1 st2"
  shows "pass_step J cd now ended (n1 + n2) (e1 @ e2) (s1 @ s2) st st2"
proof -
  have a: "\<exists>pre post. s1 @ s2 = pre @ post \<and> cd_Allow (cdt.rec_all (as_cooldowns st) pre) (cdKey ns w) d (cd d) now"
    if "counted ns w d (e1 @ e2)" for ns w d
    using counted_append [OF that]
  proof
    assume "counted ns w d e1"
    then obtain pre post where "s1 = pre @ post" "cd_Allow (cdt.rec_all (as_cooldowns st) pre) (cdKey ns w) d (cd d) now"
      using 1 unfolding pass_step_def by blast
    then show ?thesis by (intro exI [of _ pre] exI [of _ "post @ s2"]) simp
  next
    assume "counted ns w d e2"
    then obtain pre post where "s2 = pre @ post" "cd_Allow (cdt.rec_all (as_cooldowns st1) pre) (cdKey ns w) d (cd d) now"
      using 2 unfolding pass_step_def by blast
    moreover have "as_cooldowns st1 = cdt.rec_all (as_cooldowns st) s1" using 1 by (simp add: pass_step_def)
    ultimately show ?thesis by (intro exI [of _ "s1 @ pre"] exI [of _ post]) (simp add: cdt.rec_all_append)
  qed
  have b: "(cdKey ns w, d, now) \<in> set (s1 @ s2)" if "ended" "counted ns w d (e1 @ e2)" for ns w d
    using counted_append [OF that(2)] 1 2 that(1) unfolding pass_step_def by auto
  have "length (filter is_evicted e1) \<le> n1" "length (filter is_evicted e2) \<le> n2"
    using 1 2 unfolding pass_step_def by blast+
  then show ?thesis using 1 2 a b unfolding pass_step_def by (auto simp: cdt.rec_all_append)
qed

lemma actuateWorkload_frame:
  assumes "actuateWorkload Q E wh dr usage now byWorkload deploy st = (err, st')"
    and "map_of byWorkload (d_Name deploy) \<noteq> Some j"
  shows "as_recs st' ! j = as_recs st ! j"
  using assms by (auto simp: actuateWorkload_def Let_def split: option.splits sum.splits prod.splits if_splits)

lemma actuateWorkload_step:
  assumes m: "deploy \<in> set matched" and recs: "recs = Recommendations (Status dr)"
    and same: "\<And>i. map_of (recByWorkload recs) (d_Name deploy) = Some i \<Longrightarrow> as_recs st ! i = recs ! i"
    and a: "actuateWorkload Q E wh dr usage now (recByWorkload recs) deploy st = (err, st')"
  shows "\<exists>ext stamps. pass_step (admitted Q E wh dr matched usage now) (cooldownFor (Spec dr)) now (err = None) 1 ext stamps st st'"
proof (cases "map_of (recByWorkload recs) (d_Name deploy)")
  case None
  then have "st' = st" using a by (simp add: actuateWorkload_def)
  then show ?thesis using pass_step_refl by blast
next
  case (Some i)
  note rec = recByWorkload_Some [OF Some] same [OF Some]
  let ?rec = "recs ! i" and ?ns = "dr_Namespace dr" and ?w = "d_Name deploy"
  let ?c = "coordinateHPA Q (Spec dr) (e_hpas E (as_trace st) ?ns) ?w (workloadTargets (Containers ?rec))
    (map_zero [] usage ?w) now"
  show ?thesis
  proof (cases ?c)
    case (Inl e)
    then have "st' = st" using a Some by (auto simp: actuateWorkload_def rec(3))
    then show ?thesis using pass_step_refl by blast
  next
    case (Inr r)
    obtain state targets where c: "?c = Inr (state, targets)" using Inr by (cases r) simp
    let ?st = "st\<lparr>as_recs := (as_recs st)[i := ?rec\<lparr>Containers := writeBack targets (Containers ?rec)\<rparr>],
      as_hpaState := worseHPAState (as_hpaState st) state\<rparr>"
    show ?thesis
    proof (cases "state = HPAStateScaling \<or> isl (listWorkloadPods E (as_trace st) ?ns deploy)")
      case True
      then have "st' = ?st" using a Some c
        by (auto simp: actuateWorkload_def rec(3) Let_def split: sum.splits if_splits)
      then have "as_trace st' = as_trace st" "as_res st' = as_res st" "as_cooldowns st' = as_cooldowns st" by simp_all
      then show ?thesis using pass_step_refl by blast
    next
      case False
      then obtain pods where p: "listWorkloadPods E (as_trace st) ?ns deploy = Inr pods"
        by (cases "listWorkloadPods E (as_trace st) ?ns deploy") auto
      let ?X = "\<lparr>wp_Namespace = ?ns, wp_Workload = ?w, wp_Spec = Spec dr, wp_Targets = targets,
        wp_Policy = DefaultPolicy (Spec dr), wp_Now = now, wp_Cooldowns = as_cooldowns st, wp_WebhookEnabled = wh\<rparr>"
      let ?pub = "publishReclaimableMetrics Q ?ns (dr_Name dr) ?w pods targets"
      let ?ps = "\<lparr>ps_trace = as_trace st @ [?pub], ps_res = as_res st, ps_resizedDirections = [], ps_evictBudget = 1\<rparr>"
      obtain e ps where e: "actuatePods Q (e_api E) ?X pods ?ps = (e, ps)" by fastforce
      obtain ext where ext: "pod_step Q ?X pods ext ?ps ps" using actuatePods_step [OF subset_refl e] by blast
      have r: "?rec \<in> set (Recommendations (Status dr))" using rec(1) recs nth_mem by blast
      have v: "workload_view Q E wh dr matched usage now ?X pods"
        unfolding workload_view_def using m p False
        by (auto intro!: bexI [OF _ r] exI [of _ "as_trace st"] exI [of _ state] simp: rec(2) c)
      then have J: "list_all (admitted Q E wh dr matched usage now) (?pub # ext)"
        using ext unfolding pod_step_def
        by (auto simp: list_all_iff admitted_def publishReclaimableMetrics_def Let_def justified_not_status split: prod.splits)
      let ?stamps = "if e = None then map (\<lambda>d. (cdKey ?ns ?w, d, now)) (gomap_keys (ps_resizedDirections ps)) else []"
      have st': "err = e" "as_trace st' = ps_trace ps" "as_res st' = ps_res ps"
        "as_cooldowns st' = cdt.rec_all (as_cooldowns st) ?stamps"
        using a Some c False p e
        by (auto simp: actuateWorkload_def rec(3) Let_def recordCooldowns_rec_all cooldownKey_def split: option.splits)
      have pub: "\<not> is_success ?pub" "\<not> is_evicted ?pub" "counted ns w d (?pub # ext) \<longleftrightarrow> counted ns w d ext" for ns w d
        by (simp_all add: publishReclaimableMetrics_def Let_def split: prod.splits)
      have "pass_step (admitted Q E wh dr matched usage now) (cooldownFor (Spec dr)) now (err = None) 1 (?pub # ext) ?stamps st st'"
        unfolding pass_step_def
      proof (intro conjI allI impI)
        fix ns w d assume "counted ns w d (?pub # ext)"
        then have "counted ns w d ext" by (simp only: pub(3))
        then have "ns = wp_Namespace ?X \<and> w = wp_Workload ?X \<and> cooldownAllows ?X d"
          using ext unfolding pod_step_def by blast
        then have "cd_Allow (as_cooldowns st) (cdKey ns w) d (cooldownFor (Spec dr) d) now"
          by (simp add: cooldownAllows_def cooldownKey_def)
        then show "\<exists>pre post. ?stamps = pre @ post \<and> cd_Allow (cdt.rec_all (as_cooldowns st) pre) (cdKey ns w) d
            (cooldownFor (Spec dr) d) now"
          by (intro exI [of _ "[]"] exI [of _ ?stamps]) simp
      next
        fix ns w d assume "err = None" "counted ns w d (?pub # ext)"
        then show "(cdKey ns w, d, now) \<in> set ?stamps"
          using ext pub(3) st'(1) unfolding pod_step_def by auto
      qed (use ext J pub(1,2) st' in \<open>auto simp: pod_step_def\<close>)
      then show ?thesis by blast
    qed
  qed
qed

lemma actuateLoop_step:
  assumes recs: "recs = Recommendations (Status dr)"
  shows "set ds \<subseteq> set matched \<Longrightarrow> distinct (map d_Name ds) \<Longrightarrow>
    (\<And>d i. d \<in> set ds \<Longrightarrow> map_of (recByWorkload recs) (d_Name d) = Some i \<Longrightarrow> as_recs st ! i = recs ! i) \<Longrightarrow>
    actuateLoop Q E wh dr usage now (recByWorkload recs) ds st = (err, st') \<Longrightarrow>
    \<exists>ext stamps. pass_step (admitted Q E wh dr matched usage now) (cooldownFor (Spec dr)) now (err = None) (length ds) ext stamps st st'"
proof (induction ds arbitrary: st)
  case Nil
  then have "st' = st" by simp
  then show ?case using pass_step_refl by blast
next
  case (Cons d ds)
  let ?ok = "pass_step (admitted Q E wh dr matched usage now) (cooldownFor (Spec dr)) now"
  obtain e st1 where w: "actuateWorkload Q E wh dr usage now (recByWorkload recs) d st = (e, st1)" by fastforce
  obtain e1 s1 where 1: "?ok (e = None) 1 e1 s1 st st1"
    using actuateWorkload_step [OF _ recs _ w, of matched] Cons.prems(1,3) by auto
  show ?case
  proof (cases e)
    case None
    have "as_recs st1 ! i = recs ! i" if "d' \<in> set ds" "map_of (recByWorkload recs) (d_Name d') = Some i" for d' i
    proof -
      have "d_Name d \<notin> d_Name ` set ds" using Cons.prems(2) by simp
      then have "d_Name d' \<noteq> d_Name d" using that(1) by (metis imageI)
      then have "map_of (recByWorkload recs) (d_Name d) \<noteq> Some i"
        using recByWorkload_Some(2) that(2) by metis
      moreover have "as_recs st ! i = recs ! i" using that by (intro Cons.prems(3) [of d']) simp_all
      ultimately show ?thesis using actuateWorkload_frame [OF w] by simp
    qed
    then obtain e2 s2 where "?ok (err = None) (length ds) e2 s2 st1 st'"
      using Cons.IH [of st1] Cons.prems(1,2,4) w None by auto
    then show ?thesis using pass_step_trans [OF 1 [unfolded None, simplified]] by fastforce
  next
    case (Some _)
    then have "st' = st1" "err = e" using Cons.prems(4) w by auto
    then have "?ok (err = None) (length (d # ds)) e1 s1 st st'" using 1 by (auto simp: pass_step_def)
    then show ?thesis by blast
  qed
qed

lemma actuate_step:
  assumes "distinct (map d_Name matched)"
  shows "\<exists>ext stamps.
    ao_trace (actuate Q E wh dr matched usage now cds tr) = tr @ ext
    \<and> list_all (admitted Q E wh dr matched usage now) ext
    \<and> ar_resized (ao_res (actuate Q E wh dr matched usage now cds tr)) = int (length (filter is_success ext))
    \<and> length (filter is_evicted ext) \<le> length matched
    \<and> ao_cooldowns (actuate Q E wh dr matched usage now cds tr) = cdt.rec_all cds stamps
    \<and> (\<forall>s \<in> set stamps. snd (snd s) = now)
    \<and> (ao_err (actuate Q E wh dr matched usage now cds tr) = None
        \<longrightarrow> (\<forall>ns w d. counted ns w d ext \<longrightarrow> (cdKey ns w, d, now) \<in> set stamps))
    \<and> (\<forall>ns w d. counted ns w d ext \<longrightarrow> (\<exists>pre post. stamps = pre @ post
          \<and> cd_Allow (cdt.rec_all cds pre) (cdKey ns w) d (cooldownFor (Spec dr) d) now))"
proof -
  let ?recs = "Recommendations (Status dr)"
  let ?st = "\<lparr>as_trace = tr, as_cooldowns = cds,
             as_res = \<lparr>ar_resized = 0, ar_infeasible = [], ar_recreateBlocked = False\<rparr>,
             as_hpaState = HPAStateIdle, as_recs = ?recs\<rparr>"
  obtain err st where l: "actuateLoop Q E wh dr usage now (recByWorkload ?recs) matched ?st = (err, st)" by fastforce
  obtain ext stamps where p: "pass_step (admitted Q E wh dr matched usage now) (cooldownFor (Spec dr)) now (err = None)
      (length matched) ext stamps ?st st"
    using actuateLoop_step [OF refl subset_refl assms _ l] by auto
  let ?o = "actuate Q E wh dr matched usage now cds tr"
  obtain es where es: "es = [] \<or> es = [EventRecorded EventNormal ''PodsResized'']" "ao_trace ?o = as_trace st @ es"
    using l by (cases err; cases "0 < ar_resized (as_res st)") (auto simp: actuate_def Let_def)
  have o: "ao_err ?o = err" "ao_res ?o = as_res st" "ao_cooldowns ?o = as_cooldowns st"
    using l by (auto simp: actuate_def Let_def split: option.splits)
  have c: "counted ns w d (ext @ es) \<longleftrightarrow> counted ns w d ext" for ns w d using es(1) by (auto simp: counted_def)
  have e: "list_all (admitted Q E wh dr matched usage now) es" "filter is_success es = []" "filter is_evicted es = []"
    using es(1) by (auto simp: admitted_def)
  show ?thesis
    by (rule exI [of _ "ext @ es"], rule exI [of _ stamps])
      (use p in \<open>simp add: es(2) o c e pass_step_def\<close>)
qed

end
