(* ===== verification/ActuationTheorems.thy ===== *)
theory ActuationTheorems
  imports ActuationProps RecommendationTheorems
begin

text \<open>
  The properties of an actuation pass and of sequences of passes, and a small cluster on which they
  are evaluated.
\<close>

section \<open>A small cluster\<close>

definition ex_api :: "'q cluster_api" where
  "ex_api = \<lparr>limiter_allow = None, resize_answer = (\<lambda>_ _ _ _. None), evict_answer = (\<lambda>_ _ _. None)\<rparr>"

definition ex_env :: "(exact_q, string, string) env" where
  "ex_env = \<lparr>e_api = ex_api, e_hpas = (\<lambda>_ _. Inr []), e_pods = (\<lambda>_ _ _. Inr [ex_pod]), e_asSelector = Inr\<rparr>"

definition ex_status :: "exact_q dr_status" where
  "ex_status = \<lparr>Conditions = [], MatchedWorkloads = [],
     Recommendations = [\<lparr>Workload = ''web'', Containers =
       [\<lparr>ContainerName = ''app'', Target = [(ResourceCPU, mq 500), (ResourceMemory, bq 52428800)], Applied = []\<rparr>]\<rparr>],
     LastResizeTime = None, HPAState = HPAStateUnset, ObservedGeneration = 1\<rparr>"

definition ex_dr :: "(exact_q, string) dynamic_resource" where
  "ex_dr = \<lparr>dr_Namespace = ''prod'', dr_Name = ''dr'', dr_CreationTimestamp = 1, dr_Generation = 1,
     Spec = ex_spec, Status = ex_status\<rparr>"

definition ex_patch :: "exact_q effect list" where
  "ex_patch = [ReclaimablePublished ''prod'' ''dr'' ''web'' (Fin 0) (Fin 52428800),
     ResizePatched ''prod'' ''p0'' (Changes ex_plan) None, ResizeCounted ''prod'' ''web'' DirectionUp,
     EventRecorded EventNormal ''PodsResized'']"

definition ex_cooldowns :: "time \<Rightarrow> cooldowns" where
  "ex_cooldowns t = [(''prod/web'', [(DirectionUp, t)])]"

definition ex_outcome :: "time \<Rightarrow> exact_q trace \<Rightarrow> (exact_q, string) actuate_outcome" where
  "ex_outcome t tr = \<lparr>ao_err = None, ao_res = \<lparr>ar_resized = 1, ar_infeasible = [], ar_recreateBlocked = False\<rparr>,
     ao_dr = ex_dr\<lparr>Status := ex_status\<lparr>HPAState := HPAStateIdle, LastResizeTime := Some t,
       Recommendations := [\<lparr>Workload = ''web'', Containers =
         [\<lparr>ContainerName = ''app'', Target = [(ResourceCPU, mq 500), (ResourceMemory, bq 52428800)],
           Applied = [(ResourceCPU, mq 500), (ResourceMemory, bq 52428800)]\<rparr>]\<rparr>]\<rparr>\<rparr>,
     ao_cooldowns = ex_cooldowns t, ao_trace = tr @ ex_patch\<rparr>"

lemma ex_actuate:
  "actuate exact_api ex_env True ex_dr [ex_deploy] [] hour NewCooldownTracker [] = ex_outcome hour []"
  by code_simp

lemma ex_actuate_again:
  "actuate exact_api ex_env True ex_dr [ex_deploy] [] (hour + 2 * minute) (ex_cooldowns hour) ex_patch
     = ex_outcome (hour + 2 * minute) ex_patch"
  by code_simp

section \<open>Sequences of passes\<close>

record ('q, 'ls) pass_input =
  pi_dr :: "('q, 'ls) dynamic_resource"
  pi_matched :: "'ls deployment list"
  pi_usage :: usage_map
  pi_now :: time

definition run_pass ::
  "'q quantity_api \<Rightarrow> ('q, 'ls, 'sel) env \<Rightarrow> bool \<Rightarrow> cooldowns \<times> 'q trace \<Rightarrow> ('q, 'ls) pass_input \<Rightarrow> cooldowns \<times> 'q trace" where
  \<comment> \<open>one pass on the shared tracker, of any DynamicResource\<close>
  "run_pass Q E webhookEnabled s p =
     (let o1 = actuate Q E webhookEnabled (pi_dr p) (pi_matched p) (pi_usage p) (pi_now p) (fst s) (snd s)
      in (ao_cooldowns o1, ao_trace o1))"

definition run_passes ::
  "'q quantity_api \<Rightarrow> ('q, 'ls, 'sel) env \<Rightarrow> bool \<Rightarrow> cooldowns \<times> 'q trace \<Rightarrow> ('q, 'ls) pass_input list \<Rightarrow> cooldowns \<times> 'q trace" where
  "run_passes Q E webhookEnabled s ps = foldl (run_pass Q E webhookEnabled) s ps"

lemma run_passes_stamps:
  assumes "\<forall>p \<in> set ps. distinct (map d_Name (pi_matched p))" "sorted (map pi_now ps)"
  shows "\<exists>stamps. fst (run_passes Q E wh s ps) = cdt.rec_all (fst s) stamps
    \<and> sorted (map (\<lambda>x. snd (snd x)) stamps) \<and> (\<forall>x \<in> set stamps. \<exists>p \<in> set ps. snd (snd x) = pi_now p)"
  using assms
proof (induction ps arbitrary: s)
  case Nil
  show ?case by (intro exI [of _ "[]"]) (simp add: run_passes_def)
next
  case (Cons p ps)
  obtain stamps where 1: "fst (run_pass Q E wh s p) = cdt.rec_all (fst s) stamps" "\<forall>x \<in> set stamps. snd (snd x) = pi_now p"
    using actuate_step [of "pi_matched p" Q E wh "pi_dr p" "pi_usage p" "pi_now p" "fst s" "snd s"] Cons.prems(1)
    by (auto simp: run_pass_def Let_def)
  obtain stamps' where 2: "fst (run_passes Q E wh (run_pass Q E wh s p) ps) = cdt.rec_all (fst (run_pass Q E wh s p)) stamps'"
      "sorted (map (\<lambda>x. snd (snd x)) stamps')" "\<forall>x \<in> set stamps'. \<exists>p \<in> set ps. snd (snd x) = pi_now p"
    using Cons.IH [of "run_pass Q E wh s p"] Cons.prems by auto
  have srt: "sorted (map (\<lambda>x. snd (snd x)) stamps)"
    using 1(2) by (induction stamps) auto
  have "pi_now p \<le> snd (snd x)" if "x \<in> set stamps'" for x using 2(3) that Cons.prems(2) by auto
  then have "sorted (map (\<lambda>x. snd (snd x)) (stamps @ stamps'))" using srt 1(2) 2(2) by (auto simp: sorted_append)
  then show ?case using 1 2(1,3)
    by (intro exI [of _ "stamps @ stamps'"]) (auto simp: run_passes_def cdt.rec_all_append)
qed

section \<open>Properties\<close>





text \<open>Cooldowns space the passes: after a pass at time \<open>t\<close> that completed without error and resized or
  evicted Pods of a workload in a direction, and after any passes of any DynamicResources in
  between, a later pass does so again for the same workload and direction only when the cooldown of
  that direction has passed since \<open>t\<close>. Upward resizes of the OOM fast path, the only ones that are
  exempt, are left aside; siblings within one pass are not held back.\<close>

theorem resizes_spaced:
  assumes "distinct (map d_Name m)" "distinct (map d_Name m')" "\<forall>p \<in> set ps. distinct (map d_Name (pi_matched p))"
    and "sorted (t # map pi_now ps @ [t'])" "0 \<le> cooldownFor (Spec dr') d"
    and "actuate Q E wh dr m u t cds tr = out" "ao_err out = None" "ao_trace out = tr @ ext" "counted ns w d ext"
    and "run_passes Q E wh (ao_cooldowns out, ao_trace out) ps = (cdsM, trM)"
    and "ao_trace (actuate Q E wh dr' m' u' t' cdsM trM) = trM @ ext'" "counted ns w d ext'"
  shows "t + cooldownFor (Spec dr') d \<le> t'"
proof -
  obtain s1 where s1: "ao_cooldowns out = cdt.rec_all cds s1" "\<forall>x \<in> set s1. snd (snd x) = t" "(cdKey ns w, d, t) \<in> set s1"
    using actuate_step [OF assms(1), of Q E wh dr u t cds tr] assms(6-9) by auto
  obtain s2 where s2: "cdsM = cdt.rec_all (ao_cooldowns out) s2" "sorted (map (\<lambda>x. snd (snd x)) s2)"
      "\<forall>x \<in> set s2. \<exists>p \<in> set ps. snd (snd x) = pi_now p"
    using run_passes_stamps [OF assms(3), of Q E wh "(ao_cooldowns out, ao_trace out)"] assms(4,10) by (auto simp: sorted_append)
  obtain ext2 s3 where x: "ao_trace (actuate Q E wh dr' m' u' t' cdsM trM) = trM @ ext2"
      "\<forall>x \<in> set s3. snd (snd x) = t'"
      "\<forall>ns w d. counted ns w d ext2 \<longrightarrow> (\<exists>pre post. s3 = pre @ post
          \<and> cd_Allow (cdt.rec_all cdsM pre) (cdKey ns w) d (cooldownFor (Spec dr') d) t')"
    using actuate_step [OF assms(2), of Q E wh dr' u' t' cdsM trM] by blast
  have "ext2 = ext'" using x(1) assms(11) by simp
  with x(2,3) assms(12) obtain pre post where s3: "\<forall>x \<in> set s3. snd (snd x) = t'" "s3 = pre @ post"
      "cd_Allow (cdt.rec_all cdsM pre) (cdKey ns w) d (cooldownFor (Spec dr') d) t'" by blast
  have const: "sorted (map (\<lambda>x. snd (snd x)) xs)" if "\<forall>x \<in> set xs. snd (snd x) = c" for xs :: "(string \<times> direction \<times> time) list" and c
    using that by (induction xs) auto
  have "sorted (map (\<lambda>x. snd (snd x)) (s1 @ s2 @ pre))"
    using const [OF s1(2)] const [of pre t'] s1(2) s2(2,3) s3(1,2) assms(4) by (fastforce simp: sorted_append)
  moreover have "cd_Allow (cdt.rec_all cds (s1 @ s2 @ pre)) (cdKey ns w) d (cooldownFor (Spec dr') d) t'"
    using s3(3) by (simp add: s1(1) s2(1) cdt.rec_all_append)
  ultimately show ?thesis using s1(3) assms(5) by (intro cdt.allow_spaced [where k = "cdKey ns w" and d = d]) auto
qed

lemma ex_patch_counted: "counted ''prod'' ''web'' DirectionUp ex_patch"
  by (simp add: counted_def ex_patch_def)

theorem resizes_spaced_witness:
  "ao_trace (actuate exact_api ex_env True ex_dr [ex_deploy] [] (hour + 2 * minute) (ex_cooldowns hour) ex_patch)
     = ex_patch @ ex_patch
   \<and> hour + cooldownFor (Spec ex_dr) DirectionUp \<le> hour + 2 * minute"
proof -
  have d: "distinct (map d_Name [ex_deploy])" by simp
  have "hour + cooldownFor (Spec ex_dr) DirectionUp \<le> hour + 2 * minute"
  proof (rule resizes_spaced [where ps = "[]" and ext = ex_patch and ext' = ex_patch, OF d d _ _ _ ex_actuate _ _ ex_patch_counted _ _ ex_patch_counted])
    show "ao_trace (actuate exact_api ex_env True ex_dr [ex_deploy] [] (hour + 2 * minute) (ex_cooldowns hour) ex_patch)
        = ex_patch @ ex_patch" unfolding ex_actuate_again by (simp add: ex_outcome_def)
  qed (simp_all add: ex_outcome_def run_passes_def cooldownFor_def ex_dr_def ex_spec_def const_defs)
  then show ?thesis unfolding ex_actuate_again by (simp add: ex_outcome_def)
qed

text \<open>The status tells the truth about the writes: the reported number of resized Pods is exactly the
  number of patches and evictions the API server accepted, and a pass that completes sets
  \<open>lastResizeTime\<close> if and only if there was one.\<close>

theorem pass_accounting:
  assumes "distinct (map d_Name matched)"
  shows "\<exists>ext. ao_trace (actuate Q E webhookEnabled dr matched usage now cds tr) = tr @ ext
    \<and> ar_resized (ao_res (actuate Q E webhookEnabled dr matched usage now cds tr)) = int (length (filter is_success ext))
    \<and> LastResizeTime (Status (ao_dr (actuate Q E webhookEnabled dr matched usage now cds tr))) =
        (if ao_err (actuate Q E webhookEnabled dr matched usage now cds tr) = None \<and> list_ex is_success ext
         then Some now else LastResizeTime (Status dr))"
proof -
  let ?o = "actuate Q E webhookEnabled dr matched usage now cds tr"
  obtain ext where ext: "ao_trace ?o = tr @ ext" "ar_resized (ao_res ?o) = int (length (filter is_success ext))"
    using actuate_step [OF assms, of Q E webhookEnabled dr usage now cds tr] by blast
  have "LastResizeTime (Status (ao_dr ?o)) =
      (if ao_err ?o = None \<and> 0 < ar_resized (ao_res ?o) then Some now else LastResizeTime (Status dr))"
    by (auto simp: actuate_def Let_def split: prod.splits option.splits)
  moreover have "0 < ar_resized (ao_res ?o) \<longleftrightarrow> list_ex is_success ext"
    unfolding ext(2) by (induction ext) (auto simp: list_ex_iff)
  ultimately show ?thesis using ext by auto
qed

theorem pass_accounting_witness:
  "ar_resized (ao_res (actuate exact_api ex_env True ex_dr [ex_deploy] [] hour NewCooldownTracker [])) = 1
   \<and> LastResizeTime (Status (ao_dr (actuate exact_api ex_env True ex_dr [ex_deploy] [] hour NewCooldownTracker []))) = Some hour"
proof -
  have "distinct (map d_Name [ex_deploy])" by simp
  from pass_accounting [OF this, of exact_api ex_env True ex_dr "[]" hour NewCooldownTracker "[]"]
  show ?thesis by (auto simp: ex_actuate ex_outcome_def ex_patch_def)
qed

section \<open>HPA coordination\<close>

lemma RequestFloor_in:"in_i64 (RequestFloor u target headroom)"
  by (simp add: RequestFloor_def Let_def in_i64_zero)

lemma map_of_map_entries: "map_of (map (\<lambda>(k, v). (k, f k v)) xs) k = map_option (f k) (map_of xs k)"
  by (induction xs) auto

context quantity_laws
begin

lemma floorTarget_cpu:
  "q_milli Q (map_zero (q_zero Q) (floorTarget Q (ct, mt) headroom u target) ResourceCPU) =
     (case u of None \<Rightarrow> q_milli Q (map_zero (q_zero Q) target ResourceCPU)
      | Some u \<Rightarrow>
          let floor = RequestFloor (us_CPUMilli u) ct headroom; cur = q_milli Q (map_zero (q_zero Q) target ResourceCPU)
          in if 0 < floor then max floor cur else cur)"
  using RequestFloor_in
  by (cases u) (auto simp: floorTarget_def Let_def milli_newMilli max_def)

lemma floorTarget_mem:
  "q_value Q (map_zero (q_zero Q) (floorTarget Q (ct, mt) headroom u target) ResourceMemory) =
     (case u of None \<Rightarrow> q_value Q (map_zero (q_zero Q) target ResourceMemory)
      | Some u \<Rightarrow>
          let floor = RequestFloor (us_MemBytes u) mt headroom; cur = q_value Q (map_zero (q_zero Q) target ResourceMemory)
          in if 0 < floor then max floor cur else cur)"
  using RequestFloor_in
  by (cases u) (auto simp: floorTarget_def Let_def value_new max_def)

end

definition ex_hpa :: hpa where
  "ex_hpa = \<lparr>RefKind = ''Deployment'', RefName = ''web'',
     Metrics = [\<lparr>ms_Type = ResourceMetricSourceType,
       ms_Resource = Some (ResourceCPU, \<lparr>mt_Type = UtilizationMetricType, AverageUtilization = Some 80\<rparr>),
       ms_ContainerResource = None\<rparr>],
     DesiredReplicas = 2, CurrentReplicas = 2, LastScaleTime = None\<rparr>"

definition ex_usage :: "int \<Rightarrow> (string, usage_snapshot) gomap" where
  "ex_usage u = [(''app'', \<lparr>us_CPUMilli = Fin (of_int u), us_MemBytes = Fin 50000000\<rparr>)]"

definition ex_small_targets :: "(string, exact_q rlist) gomap" where
  "ex_small_targets = [(''app'', [(ResourceCPU, mq 200), (ResourceMemory, bq 67108864)])]"

lemma ex_coordinate:
  "coordinateHPA exact_api ex_spec (Inr [ex_hpa]) ''web'' ex_small_targets (ex_usage 350) 0 =
     Inr (HPAStateIdle, [(''app'', [(ResourceCPU, mq 500), (ResourceMemory, bq 67108864)])])"
  by code_simp

lemma floor_exceeds_max:
  \<comment> \<open>the floor is not clamped to the maximum of the spec, here 1000m\<close>
  "coordinateHPA exact_api ex_spec (Inr [ex_hpa]) ''web'' ex_small_targets (ex_usage 1400) 0 =
     Inr (HPAStateAtMaxVertical, [(''app'', [(ResourceCPU, mq 2000), (ResourceMemory, bq 67108864)])])"
  by code_simp

lemma floor_suffices:
  assumes "0 \<le> u" "u \<le> 2 ^ 38" "hpa_params_ok target headroom" "0 \<le> cur"
  shows "100 * u \<le> (let floor = RequestFloor (Fin (of_int u)) target headroom in if 0 < floor then max floor cur else cur)
    * (target - headroom)"
  using assms(4) by (intro iffD1 [OF RequestFloor_le_iff [OF assms(1-3)]]) (simp add: Let_def)



text \<open>
  An early return of \<open>actuate\<close> skips \<open>Cooldowns.Record\<close> for the workload it happened in: here the first of
  two Pods is resized, the second patch is rejected, and no cooldown is recorded, so the next pass
  may resize the first Pod again at once.
\<close>

definition ex_failing_env :: "(exact_q, string, string) env" where
  "ex_failing_env = ex_env\<lparr>e_pods := \<lambda>_ _ _. Inr [ex_pod, ex_pod\<lparr>p_Name := ''p1''\<rparr>],
     e_api := ex_api\<lparr>resize_answer := \<lambda>_ _ p _. if p = ''p1'' then Some ''conflict'' else None\<rparr>\<rparr>"

lemma error_skips_cooldown:
  "actuate exact_api ex_failing_env True ex_dr [ex_deploy] [] hour NewCooldownTracker [] =
     \<lparr>ao_err = Some (ErrOther ''resizing pod p1: conflict''),
      ao_res = \<lparr>ar_resized = 1, ar_infeasible = [], ar_recreateBlocked = False\<rparr>, ao_dr = ex_dr,
      ao_cooldowns = NewCooldownTracker,
      ao_trace = [ReclaimablePublished ''prod'' ''dr'' ''web'' (Fin 0) (Fin 104857600),
        ResizePatched ''prod'' ''p0'' (Changes ex_plan) None, ResizeCounted ''prod'' ''web'' DirectionUp,
        ResizePatched ''prod'' ''p1'' (Changes ex_plan) (Some ''conflict'')]\<rparr>"
  by code_simp

end
