(* ===== verification/Reconcile.thy ===== *)
theory Reconcile
  imports Actuation
begin

text \<open>
  \<open>internal/controller/dynamicresource_controller.go\<close> and \<open>vpa.go\<close>: one reconcile of a
  DynamicResource, from reading it to patching its status, and the maps from watched objects to
  reconcile requests.

  Everything outside the repository that a reconcile talks to is the record \<open>reconciler\<close>: the answers
  of the API server (functions of the trace so far), the label selectors, \<open>meta.SetStatusCondition\<close>,
  \<open>equality.Semantic.DeepEqual\<close> and \<open>Quantity.String\<close> of \<open>k8s.io/apimachinery\<close>, and the metrics
  providers. The state a reconcile shares with the others is \<open>rec_state\<close>: the recommender, the
  cooldown tracker and the trace. Controller-runtime runs the reconciles one after the other. A panic
  of the recommender is \<open>None\<close>. The manager set-up and log output are left out.
\<close>

section \<open>The reconciler\<close>

definition defaultPollingInterval :: duration where [const_defs]: "defaultPollingInterval = 30 * second"
definition kindDeployment :: string where [const_defs]: "kindDeployment = ''Deployment''"

type_synonym labels = "(string, string) gomap"

record ('q, 'ls, 'sel) reconciler =
  r_env :: "('q, 'ls, 'sel) env"
  r_get :: "'q trace \<Rightarrow> string \<Rightarrow> string \<Rightarrow> ('q, 'ls) dynamic_resource option go_result"
    \<comment> \<open>\<open>Inr None\<close> is a NotFound error\<close>
  r_listDynamicResources :: "'q trace \<Rightarrow> string \<Rightarrow> ('q, 'ls) dynamic_resource list go_result"
  r_listDeployments :: "'q trace \<Rightarrow> string \<Rightarrow> 'sel \<Rightarrow> 'ls deployment list go_result"
  r_listVPAs :: "'q trace \<Rightarrow> string \<Rightarrow> (string \<times> string) list option go_result"
    \<comment> \<open>kind and name of each \<open>spec.targetRef\<close>, empty when missing; \<open>Inr None\<close> is a NoMatch error\<close>
  r_patchStatus :: "'q trace \<Rightarrow> string \<Rightarrow> string \<Rightarrow> 'q dr_status \<Rightarrow> string option"
  r_selEmpty :: "'sel \<Rightarrow> bool"
  r_selMatches :: "'sel \<Rightarrow> labels \<Rightarrow> bool"
  r_setCondition :: "condition list \<Rightarrow> condition \<Rightarrow> condition list"
  r_recsEqual :: "'q recommendations \<Rightarrow> 'q recommendations \<Rightarrow> bool"
  r_statusEqual :: "'q dr_status \<Rightarrow> 'q dr_status \<Rightarrow> bool"
  r_quantityString :: "'q \<Rightarrow> string"
  Metrics :: "('q, 'sel) provider"
  PrometheusMetrics :: "('q, 'sel) provider option"
  ResizeSupported :: bool
  WebhookEnabled :: bool

record 'q rec_state =
  rs_Recommender :: recommender
  rs_Cooldowns :: cooldowns
  rs_trace :: "'q trace"

section \<open>Text\<close>

fun spaced :: "string list \<Rightarrow> string" where
  "spaced [] = []"
| "spaced [x] = x"
| "spaced (x # xs) = x @ '' '' @ spaced xs"

definition sprintStrings :: "string list \<Rightarrow> string" where
  \<comment> \<open>\<open>%v\<close> of a \<open>[]string\<close>\<close>
  "sprintStrings xs = ''['' @ spaced xs @ '']''"

section \<open>Validation\<close>

definition checkBounds :: "'q quantity_api \<Rightarrow> ('q \<Rightarrow> string) \<Rightarrow> string \<Rightarrow> 'q resource_bounds option \<Rightarrow> string option" where
  "checkBounds Q str name b =
     (case b of
        None \<Rightarrow> None
      | Some b \<Rightarrow>
          if 0 < q_cmp Q (Min b) (Max b)
          then Some (name @ '': min '' @ str (Min b) @ '' exceeds max '' @ str (Max b)) else None)"

fun validateOverrides :: "'q quantity_api \<Rightarrow> ('q \<Rightarrow> string) \<Rightarrow> 'q container_override list \<Rightarrow> string option" where
  "validateOverrides Q str [] = None"
| "validateOverrides Q str (ov # ovs) =
     (let prefix = ''containerOverrides['' @ co_ContainerName ov @ '']''
      in case checkBounds Q str (prefix @ ''.cpu'') (co_CPU ov) of
           Some err \<Rightarrow> Some err
         | None \<Rightarrow>
             (case checkBounds Q str (prefix @ ''.memory'') (co_Memory ov) of
                Some err \<Rightarrow> Some err
              | None \<Rightarrow> validateOverrides Q str ovs))"

definition validateBounds :: "'q quantity_api \<Rightarrow> ('q \<Rightarrow> string) \<Rightarrow> ('q, 'ls) dr_spec \<Rightarrow> string option" where
  "validateBounds Q str spec =
     (case checkBounds Q str ''resources.cpu'' (Some (rp_CPU (Resources spec))) of
        Some err \<Rightarrow> Some err
      | None \<Rightarrow>
          (case checkBounds Q str ''resources.memory'' (Some (rp_Memory (Resources spec))) of
             Some err \<Rightarrow> Some err
           | None \<Rightarrow> validateOverrides Q str (ContainerOverrides spec)))"

section \<open>The workloads and who owns them\<close>

definition resolveSelector ::
  "('q, 'ls, 'sel) reconciler \<Rightarrow> 'q trace \<Rightarrow> ('q, 'ls) dynamic_resource \<Rightarrow> 'ls deployment list go_result" where
  "resolveSelector R tr dr =
     (case e_asSelector (r_env R) (Selector (Spec dr)) of
        Inl err \<Rightarrow> Inl (''invalid selector: '' @ err)
      | Inr sel \<Rightarrow>
          if r_selEmpty R sel then Inl ''selector must not be empty''
          else case r_listDeployments R tr (dr_Namespace dr) sel of
                 Inl err \<Rightarrow> Inl err
               | Inr items \<Rightarrow> Inr (sort_key d_Name items))"

definition olderThan :: "('q, 'ls) dynamic_resource \<Rightarrow> ('q, 'ls) dynamic_resource \<Rightarrow> bool" where
  "olderThan a b \<longleftrightarrow>
     (if dr_CreationTimestamp a \<noteq> dr_CreationTimestamp b then dr_CreationTimestamp a < dr_CreationTimestamp b
      else dr_Name a < dr_Name b)"

definition selects :: "('q, 'ls, 'sel) reconciler \<Rightarrow> ('q, 'ls) dynamic_resource \<Rightarrow> labels \<Rightarrow> bool" where
  \<comment> \<open>the selector is valid, not empty, and matches the labels\<close>
  "selects R dr ls =
     (case e_asSelector (r_env R) (Selector (Spec dr)) of
        Inl _ \<Rightarrow> False
      | Inr sel \<Rightarrow> \<not> r_selEmpty R sel \<and> r_selMatches R sel ls)"

fun claimedByOlder ::
  "('q, 'ls, 'sel) reconciler \<Rightarrow> ('q, 'ls) dynamic_resource \<Rightarrow> 'ls deployment \<Rightarrow> ('q, 'ls) dynamic_resource list \<Rightarrow> bool" where
  \<comment> \<open>the loop over the other DynamicResources, which breaks at the first that claims the workload\<close>
  "claimedByOlder R dr deploy [] = False"
| "claimedByOlder R dr deploy (other # others) =
     (if dr_Name other = dr_Name dr \<or> \<not> olderThan other dr then claimedByOlder R dr deploy others
      else if selects R other (d_Labels deploy) then True
      else claimedByOlder R dr deploy others)"

definition conflictedWorkloads ::
  "('q, 'ls, 'sel) reconciler \<Rightarrow> 'q trace \<Rightarrow> ('q, 'ls) dynamic_resource \<Rightarrow> 'ls deployment list \<Rightarrow> string list go_result" where
  "conflictedWorkloads R tr dr matched =
     (case r_listDynamicResources R tr (dr_Namespace dr) of
        Inl err \<Rightarrow> Inl err
      | Inr items \<Rightarrow> Inr (map d_Name (filter (\<lambda>deploy. claimedByOlder R dr deploy items) matched)))"

definition vpaTargeted :: "(string \<times> string) list \<Rightarrow> (string, bool) gomap" where
  "vpaTargeted items =
     foldl (\<lambda>targeted (kind, name).
       if kind = kindDeployment \<and> name \<noteq> [] then AList.update name True targeted else targeted) [] items"

definition vpaConflicts ::
  "('q, 'ls, 'sel) reconciler \<Rightarrow> 'q trace \<Rightarrow> string \<Rightarrow> 'ls deployment list \<Rightarrow> string list go_result" where
  "vpaConflicts R tr namespace matched =
     (case r_listVPAs R tr namespace of
        Inl err \<Rightarrow> Inl err
      | Inr None \<Rightarrow> Inr []
      | Inr (Some items) \<Rightarrow>
          let targeted = vpaTargeted items
          in Inr (map d_Name (filter (\<lambda>deploy. map_zero False targeted (d_Name deploy)) matched)))"

definition workloadRefs :: "'ls deployment list \<Rightarrow> workload_reference list" where
  "workloadRefs deployments = map (\<lambda>d. \<lparr>wr_Kind = kindDeployment, wr_Name = d_Name d\<rparr>) deployments"

section \<open>Requests for watched objects\<close>

definition mapDeploymentToDynamicResources ::
  "('q, 'ls, 'sel) reconciler \<Rightarrow> 'q trace \<Rightarrow> string \<Rightarrow> labels \<Rightarrow> (string \<times> string) list" where
  "mapDeploymentToDynamicResources R tr namespace ls =
     (case r_listDynamicResources R tr namespace of
        Inl _ \<Rightarrow> []
      | Inr items \<Rightarrow> map (\<lambda>dr. (dr_Namespace dr, dr_Name dr)) (filter (\<lambda>dr. selects R dr ls) items))"

definition mapNamespaceToDynamicResources ::
  "('q, 'ls, 'sel) reconciler \<Rightarrow> 'q trace \<Rightarrow> string \<Rightarrow> (string \<times> string) list" where
  "mapNamespaceToDynamicResources R tr namespace =
     (case r_listDynamicResources R tr namespace of
        Inl _ \<Rightarrow> []
      | Inr items \<Rightarrow> map (\<lambda>dr. (dr_Namespace dr, dr_Name dr)) items)"

section \<open>Status\<close>

definition pollingInterval :: "('q, 'ls) dynamic_resource \<Rightarrow> duration" where
  "pollingInterval dr =
     (case MetricsCfg (Spec dr) of
        None \<Rightarrow> defaultPollingInterval
      | Some m \<Rightarrow> (case PollingInterval m of
            Some d \<Rightarrow> (if 0 < d then d else defaultPollingInterval)
          | None \<Rightarrow> defaultPollingInterval))"

definition setCondition ::
  "('q, 'ls, 'sel) reconciler \<Rightarrow> ('q, 'ls) dynamic_resource \<Rightarrow> string \<Rightarrow> condition_status \<Rightarrow> string \<Rightarrow> string
   \<Rightarrow> ('q, 'ls) dynamic_resource" where
  "setCondition R dr condType status reason message =
     dr\<lparr>Status := (Status dr)\<lparr>Conditions := r_setCondition R (Conditions (Status dr))
       \<lparr>cond_Type = condType, cond_Status = status, cond_Reason = reason, cond_Message = message,
        cond_Generation = dr_Generation dr\<rparr>\<rparr>\<rparr>"

definition patchStatus ::
  "('q, 'ls, 'sel) reconciler \<Rightarrow> ('q, 'ls) dynamic_resource \<Rightarrow> ('q, 'ls) dynamic_resource \<Rightarrow> duration \<Rightarrow> 'q trace
   \<Rightarrow> (go_error + duration) \<times> 'q trace" where
  \<comment> \<open>a result \<open>ctrl.Result{RequeueAfter: d}\<close> is the duration \<open>d\<close>, 0 for none\<close>
  "patchStatus R orig dr res tr =
     (if r_statusEqual R (Status orig) (Status dr) then (Inr res, tr)
      else
        let err = r_patchStatus R tr (dr_Namespace dr) (dr_Name dr) (Status dr);
            tr = tr @ [StatusPatched (dr_Namespace dr) (dr_Name dr) (Status dr) err]
        in (case err of Some e \<Rightarrow> (Inl (ErrOther e), tr) | None \<Rightarrow> (Inr res, tr)))"

section \<open>One reconcile\<close>

type_synonym 'q rec_result = "(go_error + duration) \<times> 'q rec_state"

definition finish ::
  "('q, 'ls, 'sel) reconciler \<Rightarrow> ('q, 'ls) dynamic_resource \<Rightarrow> ('q, 'ls) dynamic_resource \<Rightarrow> duration \<Rightarrow> 'q rec_state
   \<Rightarrow> 'q rec_result" where
  \<comment> \<open>\<open>return r.patchStatus(ctx, orig, &dr, res)\<close>\<close>
  "finish R orig dr res s =
     (let (r, tr) = patchStatus R orig dr res (rs_trace s) in (r, s\<lparr>rs_trace := tr\<rparr>))"

definition finishError ::
  "('q, 'ls, 'sel) reconciler \<Rightarrow> ('q, 'ls) dynamic_resource \<Rightarrow> ('q, 'ls) dynamic_resource \<Rightarrow> go_error \<Rightarrow> 'q rec_state
   \<Rightarrow> 'q rec_result" where
  \<comment> \<open>the status is patched, then the error returned; an error of the patch takes its place\<close>
  "finishError R orig dr err s =
     (case finish R orig dr 0 s of
        (Inl patchErr, s) \<Rightarrow> (Inl patchErr, s)
      | (Inr _, s) \<Rightarrow> (Inl err, s))"

definition emit :: "'q effect list \<Rightarrow> 'q rec_state \<Rightarrow> 'q rec_state" where
  "emit es s = s\<lparr>rs_trace := rs_trace s @ es\<rparr>"

definition conflictStatus ::
  "('q, 'ls, 'sel) reconciler \<Rightarrow> ('q, 'ls) dynamic_resource \<Rightarrow> string \<Rightarrow> string \<Rightarrow> ('q, 'ls) dynamic_resource" where
  \<comment> \<open>the two conditions set when a workload belongs to somebody else\<close>
  "conflictStatus R dr reason msg =
     setCondition R (setCondition R dr ConditionConflicted ConditionTrue reason msg)
       ConditionReady ConditionFalse ''Conflicted'' msg"

definition resizeCondition ::
  "('q, 'ls, 'sel) reconciler \<Rightarrow> actuation_result \<Rightarrow> ('q, 'ls) dynamic_resource \<Rightarrow> ('q, 'ls) dynamic_resource" where
  \<comment> \<open>the condition ResizeInfeasible after an actuation pass\<close>
  "resizeCondition R result dr =
     (if ar_recreateBlocked result
      then setCondition R dr ConditionResizeInfeasible ConditionTrue ''RecreateRequiresWebhook''
        (''pods need evict-and-recreate to converge, but the pod webhook is disabled; '' @
         ''start the operator with --enable-pod-webhook (recreated pods would otherwise inherit stale template resources)'')
      else if ar_infeasible result \<noteq> []
      then setCondition R dr ConditionResizeInfeasible ConditionTrue ''NodeCapacity''
        (''resize infeasible for pod(s): '' @ sprintStrings (ar_infeasible result))
      else setCondition R dr ConditionResizeInfeasible ConditionFalse ''Feasible'' ''no infeasible resizes'')"

definition reconcileReady ::
  "('q, 'ls, 'sel) reconciler \<Rightarrow> ('q, 'ls) dynamic_resource \<Rightarrow> ('q, 'ls) dynamic_resource \<Rightarrow> nat \<Rightarrow> 'q rec_state
   \<Rightarrow> 'q rec_result" where
  \<comment> \<open>the end of a reconcile that got through: Ready, and an HPA state\<close>
  "reconcileReady R orig dr matched s =
     (let dr = setCondition R dr ConditionReady ConditionTrue ''Reconciled''
                 (''managing '' @ dec matched @ '' workload(s)'');
          dr = (if HPAState (Status dr) = HPAStateUnset
                then dr\<lparr>Status := (Status dr)\<lparr>HPAState := HPAStateIdle\<rparr>\<rparr> else dr)
      in finish R orig dr (pollingInterval dr) s)"

definition reconcileActuate ::
  "'q quantity_api \<Rightarrow> ('q, 'ls, 'sel) reconciler \<Rightarrow> ('q, 'ls) dynamic_resource \<Rightarrow> ('q, 'ls) dynamic_resource
   \<Rightarrow> 'ls deployment list \<Rightarrow> usage_map \<Rightarrow> time \<Rightarrow> 'q rec_state \<Rightarrow> 'q rec_result" where
  \<comment> \<open>from the update mode on\<close>
  "reconcileActuate Q R orig dr matched usage now s =
     (if UpdateMode (Spec dr) \<noteq> UpdateModeOff \<and> UpdateMode (Spec dr) \<noteq> UpdateModeUnset then
        if \<not> ResizeSupported R
        then reconcileReady R orig
          (setCondition R dr ConditionResizeInfeasible ConditionTrue ''ClusterUnsupported''
             ''cluster does not support the Pod resize subresource (needs Kubernetes 1.33+)'')
          (length matched) s
        else
          let act = actuate Q (r_env R) (WebhookEnabled R) dr matched usage now (rs_Cooldowns s) (rs_trace s);
              s = s\<lparr>rs_Cooldowns := ao_cooldowns act, rs_trace := ao_trace act\<rparr>
          in (case ao_err act of
                Some err \<Rightarrow> finishError R orig (ao_dr act) err s
              | None \<Rightarrow> reconcileReady R orig (resizeCondition R (ao_res act) (ao_dr act)) (length matched) s)
      else reconcileReady R orig dr (length matched) s)"

definition publish ::
  "'q quantity_api \<Rightarrow> ('q, 'ls, 'sel) reconciler \<Rightarrow> ('q, 'ls) dynamic_resource \<Rightarrow> 'q recommendations \<Rightarrow> 'q rec_state
   \<Rightarrow> ('q, 'ls) dynamic_resource \<times> 'q rec_state" where
  \<comment> \<open>the recommendations of a pass go to the gauges and the status; without any, the last ones stay\<close>
  "publish Q R dr recs s =
     (let recs = (if recs = [] \<and> Recommendations (Status dr) \<noteq> [] then Recommendations (Status dr) else recs);
          s = emit (publishRecommendationMetrics Q (dr_Namespace dr) (dr_Name dr) recs) s
      in if \<not> r_recsEqual R (Recommendations (Status dr)) recs
         then (dr\<lparr>Status := (Status dr)\<lparr>Recommendations := recs\<rparr>\<rparr>,
               emit [EventRecorded EventNormal ''RecommendationUpdated''] s)
         else (dr, s))"

definition reconcileRecommend ::
  "libm \<Rightarrow> 'q quantity_api \<Rightarrow> ('q, 'ls, 'sel) reconciler \<Rightarrow> ('q, 'ls) dynamic_resource \<Rightarrow> ('q, 'ls) dynamic_resource
   \<Rightarrow> 'ls deployment list \<Rightarrow> time \<Rightarrow> 'q rec_state \<Rightarrow> 'q rec_result option" where
  \<comment> \<open>from the choice of the metrics provider on\<close>
  "reconcileRecommend L Q R orig dr matched now s =
     (if (case MetricsCfg (Spec dr) of Some m \<Rightarrow> Provider m = MetricsProviderPrometheus \<and> PrometheusMetrics R = None
          | None \<Rightarrow> False)
      then Some (finish R orig
        (setCondition R dr ConditionReady ConditionFalse ''UnsupportedProvider''
           ''Prometheus provider requested but the operator was started without --prometheus-url'') 0 s)
      else
        (case computeRecommendations L Q (e_asSelector (r_env R))
                (providerFor (Spec dr) (PrometheusMetrics R) (Metrics R)) (dr_Namespace dr) (Spec dr) matched
                (rs_Recommender s) of
           None \<Rightarrow> None
         | Some (Inl err, r) \<Rightarrow>
             Some (finishError R orig
               (setCondition R dr ConditionReady ConditionFalse ''MetricsUnavailable'' err)
               (ErrOther err) (s\<lparr>rs_Recommender := r\<rparr>))
         | Some (Inr (recs, usage), r) \<Rightarrow>
             let (dr, s) = publish Q R dr recs (s\<lparr>rs_Recommender := r\<rparr>)
             in Some (reconcileActuate Q R orig dr matched usage now s)))"

definition reconcileResource ::
  "libm \<Rightarrow> 'q quantity_api \<Rightarrow> ('q, 'ls, 'sel) reconciler \<Rightarrow> ('q, 'ls) dynamic_resource \<Rightarrow> time \<Rightarrow> 'q rec_state
   \<Rightarrow> 'q rec_result option" where
  \<comment> \<open>the guards on a DynamicResource that exists\<close>
  "reconcileResource L Q R orig now s =
     (let dr = orig\<lparr>Status := (Status orig)\<lparr>ObservedGeneration := dr_Generation orig\<rparr>\<rparr>;
          ns = dr_Namespace dr
      in case validateBounds Q (r_quantityString R) (Spec dr) of
        Some err \<Rightarrow>
          Some (finish R orig (setCondition R dr ConditionReady ConditionFalse ''InvalidBounds'' err) 0 s)
      | None \<Rightarrow>
        (case resolveSelector R (rs_trace s) dr of
          Inl err \<Rightarrow>
            Some (finish R orig (setCondition R dr ConditionReady ConditionFalse ''InvalidSelector'' err) 0 s)
        | Inr matched \<Rightarrow>
          let dr = dr\<lparr>Status := (Status dr)\<lparr>MatchedWorkloads := workloadRefs matched\<rparr>\<rparr>
          in case conflictedWorkloads R (rs_trace s) dr matched of
            Inl err \<Rightarrow> Some (Inl (ErrOther err), s)
          | Inr conflicted \<Rightarrow>
            if conflicted \<noteq> [] then
              let msg = ''workloads already managed by an older DynamicResource: '' @ sprintStrings conflicted
              in Some (finish R orig (conflictStatus R dr ''OverlappingSelector'' msg) 0
                   (emit [EventRecorded EventWarning ''Conflicted''] s))
            else (case vpaConflicts R (rs_trace s) ns matched of
              Inl err \<Rightarrow> Some (Inl (ErrOther err), s)
            | Inr vpaConf \<Rightarrow>
              if vpaConf \<noteq> [] then
                let msg = ''workloads already managed by a VerticalPodAutoscaler: '' @ sprintStrings vpaConf
                in Some (finish R orig (conflictStatus R dr ''VPAConflict'' msg) (pollingInterval dr)
                     (emit [EventRecorded EventWarning ''VPAConflict''] s))
              else
                let dr = setCondition R dr ConditionConflicted ConditionFalse ''NoConflict''
                           ''no overlapping DynamicResource or VPA''
                in if matched = [] then
                     Some (finish R orig
                       (setCondition R dr ConditionReady ConditionFalse ''NoMatch''
                          ''selector matches no Deployment in namespace'') (pollingInterval dr) s)
                   else reconcileRecommend L Q R orig dr matched now s)))"

definition Reconcile ::
  "libm \<Rightarrow> 'q quantity_api \<Rightarrow> ('q, 'ls, 'sel) reconciler \<Rightarrow> string \<Rightarrow> string \<Rightarrow> time \<Rightarrow> 'q rec_state
   \<Rightarrow> 'q rec_result option" where
  "Reconcile L Q R namespace name now s =
     (case r_get R (rs_trace s) namespace name of
        Inl err \<Rightarrow> Some (Inl (ErrOther err), s)
      | Inr None \<Rightarrow> Some (Inr 0, s)
      | Inr (Some dr) \<Rightarrow> reconcileResource L Q R dr now s)"

end
