(* ===== verification/ReconcileProps.thy ===== *)
theory ReconcileProps
  imports Reconcile ActuationProps RecommendationTheorems "HOL-Library.Product_Lexorder"
begin

text \<open>
  What one reconcile does to the cluster and to the state it shares. The locale \<open>status_policy\<close> walks
  through every path of a reconcile once, for any property \<open>P\<close> of the statuses it patches; it is
  interpreted for the trivial policy, and through the contract of \<open>meta.SetStatusCondition\<close> (locale
  \<open>condition_store\<close>) for the consistency of the conditions. Then come the ownership of workloads,
  the validation of bounds, and the absence of panics.
\<close>

section \<open>Outcomes\<close>

definition is_write :: "'q effect \<Rightarrow> bool" where
  "is_write e \<longleftrightarrow> is_patch e \<or> is_evict e"

definition status_holds :: "('q dr_status \<Rightarrow> bool) \<Rightarrow> 'q effect \<Rightarrow> bool" where
  "status_holds P e \<longleftrightarrow> (case e of StatusPatched _ _ st _ \<Rightarrow> P st | _ \<Rightarrow> True)"

lemma status_holds_no_status: "\<not> is_status e \<Longrightarrow> status_holds P e"
  by (cases e) (simp_all add: status_holds_def)

definition outcome_ok :: "('q dr_status \<Rightarrow> bool) \<Rightarrow> bool \<Rightarrow> 'q rec_state \<Rightarrow> 'q rec_state \<Rightarrow> bool" where
  \<comment> \<open>what was done extends the trace, patches the status at most once and only with a status in
      \<open>P\<close>, and neither writes to a Pod nor moves a cooldown unless \<open>cleared\<close>\<close>
  "outcome_ok P cleared s s' \<longleftrightarrow>
     (\<exists>ext. rs_trace s' = rs_trace s @ ext \<and> list_all (status_holds P) ext \<and> length (filter is_status ext) \<le> 1
        \<and> (cleared \<or> \<not> list_ex is_write ext \<and> rs_Cooldowns s' = rs_Cooldowns s))"

lemma outcome_refl: "rs_trace s' = rs_trace s \<Longrightarrow> rs_Cooldowns s' = rs_Cooldowns s \<Longrightarrow> outcome_ok P c s s'"
  by (simp add: outcome_ok_def)

lemma outcome_prefix:
  assumes "rs_trace s1 = rs_trace s @ es" "\<not> list_ex is_status es" "c \<or> \<not> list_ex is_write es \<and> rs_Cooldowns s1 = rs_Cooldowns s"
    and "outcome_ok P c s1 s'"
  shows "outcome_ok P c s s'"
proof -
  obtain ext where ext: "rs_trace s' = rs_trace s1 @ ext" "list_all (status_holds P) ext" "length (filter is_status ext) \<le> 1"
    "c \<or> \<not> list_ex is_write ext \<and> rs_Cooldowns s' = rs_Cooldowns s1"
    using assms(4) by (auto simp: outcome_ok_def)
  have "filter is_status es = []" "list_all (status_holds P) es"
    using assms(2) by (auto simp: filter_empty_conv list_ex_iff list_all_iff status_holds_no_status)
  then show ?thesis unfolding outcome_ok_def using assms(1,3) ext by (intro exI [of _ "es @ ext"]) auto
qed

lemma finish_ok:
  assumes "P (Status dr)"
  shows "outcome_ok P c s (snd (finish R orig dr res s))"
proof (cases "r_statusEqual R (Status orig) (Status dr)")
  case True
  then show ?thesis by (simp add: finish_def patchStatus_def outcome_refl)
next
  case False
  let ?e = "StatusPatched (dr_Namespace dr) (dr_Name dr) (Status dr)
    (r_patchStatus R (rs_trace s) (dr_Namespace dr) (dr_Name dr) (Status dr))"
  have "rs_trace (snd (finish R orig dr res s)) = rs_trace s @ [?e]" "rs_Cooldowns (snd (finish R orig dr res s)) = rs_Cooldowns s"
    using False by (simp_all add: finish_def patchStatus_def Let_def split: option.splits)
  then show ?thesis unfolding outcome_ok_def using assms
    by (intro exI [of _ "[?e]"]) (simp add: status_holds_def is_write_def)
qed

lemma finishError_snd: "snd (finishError R orig dr err s) = snd (finish R orig dr 0 s)"
  by (cases "finish R orig dr 0 s") (auto simp: finishError_def split: sum.splits)

lemma actuate_conditions:
  "Conditions (Status (ao_dr (actuate Q E wh dr matched usage now cds tr))) = Conditions (Status dr)"
  by (auto simp: actuate_def Let_def split: prod.splits option.splits)

lemma setCondition_simps [simp]:
  "Spec (setCondition R dr t c reason msg) = Spec dr"
  "dr_Namespace (setCondition R dr t c reason msg) = dr_Namespace dr"
  "dr_Name (setCondition R dr t c reason msg) = dr_Name dr"
  by (simp_all add: setCondition_def)

lemma resolveSelector_status [simp]: "resolveSelector R tr (dr\<lparr>Status := st\<rparr>) = resolveSelector R tr dr"
  by (simp add: resolveSelector_def split: sum.split)

lemma claimedByOlder_status [simp]: "claimedByOlder R (dr\<lparr>Status := st\<rparr>) deploy others = claimedByOlder R dr deploy others"
  by (induction others) (simp_all add: olderThan_def)

lemma conflictedWorkloads_status [simp]:
  "conflictedWorkloads R tr (dr\<lparr>Status := st\<rparr>) matched = conflictedWorkloads R tr dr matched"
  by (simp add: conflictedWorkloads_def split: sum.split)

lemma publish_simps:
  assumes "publish Q R dr recs s = (dr', s')"
  shows "Spec dr' = Spec dr" "Conditions (Status dr') = Conditions (Status dr)"
    "rs_Cooldowns s' = rs_Cooldowns s" "rs_Recommender s' = rs_Recommender s"
    "\<exists>es. rs_trace s' = rs_trace s @ es \<and> \<not> list_ex is_status es \<and> \<not> list_ex is_write es"
proof -
  have q: "\<not> list_ex is_status (publishRecommendationMetrics Q ns n recs)"
    "\<not> list_ex is_write (publishRecommendationMetrics Q ns n recs)" for ns n and recs :: "'a recommendations"
    by (auto simp: publishRecommendationMetrics_def list_ex_iff is_write_def Let_def)
  show "Spec dr' = Spec dr" "Conditions (Status dr') = Conditions (Status dr)"
    "rs_Cooldowns s' = rs_Cooldowns s" "rs_Recommender s' = rs_Recommender s"
    "\<exists>es. rs_trace s' = rs_trace s @ es \<and> \<not> list_ex is_status es \<and> \<not> list_ex is_write es"
    using assms q by (auto simp: publish_def emit_def Let_def is_write_def split: if_splits)
qed

section \<open>When a reconcile may write\<close>

definition may_resize :: "('q, 'ls, 'sel) reconciler \<Rightarrow> ('q, 'ls) dynamic_resource \<Rightarrow> bool" where
  "may_resize R dr \<longleftrightarrow> (UpdateMode (Spec dr) = UpdateModeInPlaceOnly \<or> UpdateMode (Spec dr) = UpdateModeInPlaceOrRecreate)
     \<and> ResizeSupported R"

definition cleared ::
  "libm \<Rightarrow> 'q quantity_api \<Rightarrow> ('q, 'ls, 'sel) reconciler \<Rightarrow> 'q rec_state \<Rightarrow> ('q, 'ls) dynamic_resource \<Rightarrow> bool" where
  \<comment> \<open>every guard of a reconcile let the DynamicResource through\<close>
  "cleared L Q R s dr \<longleftrightarrow> validateBounds Q (r_quantityString R) (Spec dr) = None \<and> may_resize R dr
     \<and> (\<exists>matched. matched \<noteq> [] \<and> resolveSelector R (rs_trace s) dr = Inr matched
          \<and> conflictedWorkloads R (rs_trace s) dr matched = Inr []
          \<and> vpaConflicts R (rs_trace s) (dr_Namespace dr) matched = Inr []
          \<and> (\<exists>recs usage r. computeRecommendations L Q (e_asSelector (r_env R))
                (providerFor (Spec dr) (PrometheusMetrics R) (Metrics R)) (dr_Namespace dr) (Spec dr) matched
                (rs_Recommender s) = Some (Inr (recs, usage), r)))"

section \<open>Every path of a reconcile\<close>

locale status_policy =
  fixes R :: "('q, 'ls, 'sel) reconciler"
    and P :: "'q dr_status \<Rightarrow> bool"  \<comment> \<open>what holds of every patched status\<close>
    and N :: "'q dr_status \<Rightarrow> bool"  \<comment> \<open>what holds once the conflict guards have passed\<close>
  assumes unready: "P (Status (setCondition R dr ConditionReady ConditionFalse reason msg))"
    and clear: "N (Status (setCondition R dr ConditionConflicted ConditionFalse reason msg))"
    and keep: "N (Status dr) \<Longrightarrow> t \<noteq> ConditionConflicted \<Longrightarrow> N (Status (setCondition R dr t c reason msg))"
    and frame: "Conditions st = Conditions st' \<Longrightarrow> N st = N st'"
    and enough: "N st \<Longrightarrow> P st"
begin

lemma finish_unready:
  "outcome_ok P c s (snd (finish R orig (setCondition R dr ConditionReady ConditionFalse reason msg) res s))"
  by (rule finish_ok) (rule unready)

lemma reconcileReady_ok:
  assumes "N (Status dr)"
  shows "outcome_ok P c s (snd (reconcileReady R orig dr n s))"
proof -
  let ?dr = "setCondition R dr ConditionReady ConditionTrue ''Reconciled'' (''managing '' @ dec n @ '' workload(s)'')"
  have n: "N (Status ?dr)" using keep [OF assms, of ConditionReady] by simp
  then have "N (Status (?dr\<lparr>Status := (Status ?dr)\<lparr>HPAState := HPAStateIdle\<rparr>\<rparr>))"
    using frame [of "Status ?dr" "(Status ?dr)\<lparr>HPAState := HPAStateIdle\<rparr>"] by simp
  then show ?thesis using n unfolding reconcileReady_def Let_def by (auto intro!: finish_ok enough)
qed

lemma resizeCondition_N: "N (Status dr) \<Longrightarrow> N (Status (resizeCondition R result dr))"
  by (auto simp: resizeCondition_def intro!: keep)

lemma reconcileActuate_ok:
  assumes "N (Status dr)" "distinct (map d_Name matched)"
  shows "outcome_ok P (may_resize R dr) s (snd (reconcileActuate Q R orig dr matched usage now s))"
    (is "outcome_ok P ?c s _")
proof (cases ?c)
  case False
  then have "snd (reconcileActuate Q R orig dr matched usage now s) \<in> {snd (reconcileReady R orig dr (length matched) s),
      snd (reconcileReady R orig (setCondition R dr ConditionResizeInfeasible ConditionTrue ''ClusterUnsupported''
        ''cluster does not support the Pod resize subresource (needs Kubernetes 1.33+)'') (length matched) s)}"
    by (cases "UpdateMode (Spec dr)") (auto simp: reconcileActuate_def may_resize_def)
  then show ?thesis using assms(1) by (auto intro!: reconcileReady_ok keep)
next
  case True
  let ?act = "actuate Q (r_env R) (WebhookEnabled R) dr matched usage now (rs_Cooldowns s) (rs_trace s)"
  let ?s = "s\<lparr>rs_Cooldowns := ao_cooldowns ?act, rs_trace := ao_trace ?act\<rparr>"
  have act: "reconcileActuate Q R orig dr matched usage now s =
      (case ao_err ?act of Some err \<Rightarrow> finishError R orig (ao_dr ?act) err ?s
       | None \<Rightarrow> reconcileReady R orig (resizeCondition R (ao_res ?act) (ao_dr ?act)) (length matched) ?s)"
    using True by (auto simp: reconcileActuate_def may_resize_def Let_def)
  obtain ext where ext: "ao_trace ?act = rs_trace s @ ext"
    "list_all (admitted Q (r_env R) (WebhookEnabled R) dr matched usage now) ext"
    using actuate_step [OF assms(2), of Q "r_env R" "WebhookEnabled R" dr usage now "rs_Cooldowns s" "rs_trace s"] by blast
  have "N (Status (ao_dr ?act))" using assms(1) frame [OF actuate_conditions] by blast
  then have "outcome_ok P ?c ?s (snd (reconcileActuate Q R orig dr matched usage now s))"
    unfolding act by (auto simp: finishError_snd intro: finish_ok enough reconcileReady_ok resizeCondition_N split: option.split)
  moreover have "\<not> list_ex is_status ext" using ext(2) by (auto simp: list_ex_iff list_all_iff admitted_def)
  ultimately show ?thesis using True ext(1) by (intro outcome_prefix [of ?s s ext]) simp_all
qed

lemma reconcileRecommend_ok:
  assumes n: "N (Status dr)" and d: "distinct (map d_Name matched)"
    and r: "reconcileRecommend L Q R orig dr matched now s = Some (res, s')"
  shows "outcome_ok P (may_resize R dr \<and> (\<exists>recs usage r. computeRecommendations L Q (e_asSelector (r_env R))
      (providerFor (Spec dr) (PrometheusMetrics R) (Metrics R)) (dr_Namespace dr) (Spec dr) matched
      (rs_Recommender s) = Some (Inr (recs, usage), r))) s s'" (is "outcome_ok P (_ \<and> ?ok) s s'")
proof -
  let ?c = "computeRecommendations L Q (e_asSelector (r_env R))
      (providerFor (Spec dr) (PrometheusMetrics R) (Metrics R)) (dr_Namespace dr) (Spec dr) matched (rs_Recommender s)"
  let ?unsupported = "case MetricsCfg (Spec dr) of Some m \<Rightarrow> Provider m = MetricsProviderPrometheus \<and> PrometheusMetrics R = None
          | None \<Rightarrow> False"
  show ?thesis
  proof (cases ?unsupported)
    case True
    then have "s' = snd (finish R orig (setCondition R dr ConditionReady ConditionFalse ''UnsupportedProvider''
        ''Prometheus provider requested but the operator was started without --prometheus-url'') 0 s)"
      using r unfolding reconcileRecommend_def by (simp only: if_True option.inject) simp
    then show ?thesis using finish_unready by simp
  next
    case supported: False
    obtain result r1 where c: "?c = Some (result, r1)"
      using r supported unfolding reconcileRecommend_def by (cases ?c) auto
    note rr = r [unfolded reconcileRecommend_def if_not_P [OF supported] c option.case prod.case]
    show ?thesis
    proof (cases result)
      case (Inl err)
      then have "s' = snd (finish R orig (setCondition R dr ConditionReady ConditionFalse ''MetricsUnavailable'' err) 0
          (s\<lparr>rs_Recommender := r1\<rparr>))"
        using rr by (simp flip: finishError_snd [where err = "ErrOther err"])
      then show ?thesis using outcome_prefix [OF _ _ _ finish_unready, of "s\<lparr>rs_Recommender := r1\<rparr>" s "[]"] by simp
    next
      case (Inr ru)
      obtain recs usage where ru: "ru = (recs, usage)" by (cases ru)
      obtain dr1 s1 where p: "publish Q R dr recs (s\<lparr>rs_Recommender := r1\<rparr>) = (dr1, s1)" by fastforce
      then have s': "s' = snd (reconcileActuate Q R orig dr1 matched usage now s1)"
        using rr by (simp add: Inr ru)
      note p = publish_simps [OF p]
      have "N (Status dr1)" using n frame [OF p(2)] by blast
      then have o: "outcome_ok P (may_resize R dr1) s1 s'" using reconcileActuate_ok [OF _ d] s' by blast
      obtain es where es: "rs_trace s1 = rs_trace s @ es" "\<not> list_ex is_status es" "\<not> list_ex is_write es"
        using p(5) by auto
      have m: "may_resize R dr1 = may_resize R dr" by (simp add: may_resize_def p(1))
      have "outcome_ok P (may_resize R dr) s s'"
        using es p(3) o unfolding m by (intro outcome_prefix [OF es(1)]) simp_all
      then show ?thesis using c by (simp add: Inr ru)
    qed
  qed
qed

lemma conflictStatus_P: "P (Status (conflictStatus R dr reason msg))"
  by (simp add: conflictStatus_def unready)

lemma reconcileResource_ok:
  assumes d: "\<And>tr ns sel ds. r_listDeployments R tr ns sel = Inr ds \<Longrightarrow> distinct (map d_Name ds)"
    and r: "reconcileResource L Q R dr now s = Some (res, s')"
  shows "outcome_ok P (cleared L Q R s dr) s s'"
proof -
  let ?dr = "dr\<lparr>Status := (Status dr)\<lparr>ObservedGeneration := dr_Generation dr\<rparr>\<rparr>"
  let ?drm = "\<lambda>m. ?dr\<lparr>Status := (Status ?dr)\<lparr>MatchedWorkloads := workloadRefs m\<rparr>\<rparr>"
  let ?drc = "\<lambda>m. setCondition R (?drm m) ConditionConflicted ConditionFalse ''NoConflict'' ''no overlapping DynamicResource or VPA''"
  have refl: "outcome_ok P c s s" for c by (simp add: outcome_refl)
  have conf: "outcome_ok P c s (snd (finish R orig (conflictStatus R x reason msg) t (emit [EventRecorded EventWarning e] s)))"
    for c orig x reason msg t e
    by (rule outcome_prefix [of "emit [EventRecorded EventWarning e] s" s "[EventRecorded EventWarning e]"])
      (simp_all add: emit_def is_write_def finish_ok conflictStatus_P)
  show ?thesis
  proof (cases "validateBounds Q (r_quantityString R) (Spec dr)")
    case (Some err)
    then show ?thesis using r by (auto simp: reconcileResource_def Let_def intro!: finish_unready dest!: arg_cong [of _ _ snd])
  next
    case v: None
    show ?thesis
    proof (cases "resolveSelector R (rs_trace s) dr")
      case (Inl err)
      then show ?thesis using r v by (auto simp: reconcileResource_def Let_def intro!: finish_unready dest!: arg_cong [of _ _ snd])
    next
      case m: (Inr matched)
      then have dm: "distinct (map d_Name matched)"
        using d by (auto simp: resolveSelector_def distinct_map split: sum.splits if_splits)
      show ?thesis
      proof (cases "conflictedWorkloads R (rs_trace s) dr matched = Inr []
          \<and> vpaConflicts R (rs_trace s) (dr_Namespace dr) matched = Inr []")
        case False
        then show ?thesis using r v m refl conf
          by (auto simp: reconcileResource_def Let_def dest!: arg_cong [of _ _ snd] split: sum.splits if_splits)
      next
        case c: True
        show ?thesis
        proof (cases "matched = []")
          case True
          then show ?thesis using r v m c
            by (auto simp: reconcileResource_def Let_def intro!: finish_unready dest!: arg_cong [of _ _ snd])
        next
          case False
          then have "reconcileRecommend L Q R dr (?drc matched) matched now s = Some (res, s')"
            using r v m c by (simp add: reconcileResource_def Let_def)
          from reconcileRecommend_ok [OF clear dm this] show ?thesis
            using v m c False unfolding cleared_def outcome_ok_def by (auto simp: may_resize_def)
        qed
      qed
    qed
  qed
qed

lemma Reconcile_ok:
  assumes d: "\<And>tr ns sel ds. r_listDeployments R tr ns sel = Inr ds \<Longrightarrow> distinct (map d_Name ds)"
    and r: "Reconcile L Q R namespace name now s = Some (res, s')"
  shows "outcome_ok P (\<exists>dr. r_get R (rs_trace s) namespace name = Inr (Some dr) \<and> cleared L Q R s dr) s s'"
proof (cases "\<exists>dr. r_get R (rs_trace s) namespace name = Inr (Some dr)")
  case True
  then obtain dr where dr: "r_get R (rs_trace s) namespace name = Inr (Some dr)" by blast
  then have "reconcileResource L Q R dr now s = Some (res, s')" using r by (simp add: Reconcile_def)
  from reconcileResource_ok [OF d this] show ?thesis by (simp add: dr)
next
  case False
  then have "s' = s" using r by (auto simp: Reconcile_def split: sum.splits option.splits)
  then show ?thesis by (simp add: outcome_refl)
qed

end

interpretation any_status: status_policy R "\<lambda>_. True" "\<lambda>_. True" for R
  by unfold_locales simp_all

section \<open>The conditions of a status\<close>

definition condition_of :: "condition list \<Rightarrow> string \<Rightarrow> condition option" where
  "condition_of cs t = List.find (\<lambda>c. cond_Type c = t) cs"

definition has_condition :: "'q dr_status \<Rightarrow> string \<Rightarrow> condition_status \<Rightarrow> bool" where
  "has_condition st t s \<longleftrightarrow> (case condition_of (Conditions st) t of Some c \<Rightarrow> cond_Status c = s | None \<Rightarrow> False)"

definition conditions_consistent :: "'q dr_status \<Rightarrow> bool" where
  \<comment> \<open>a resource that reports Ready reports explicitly that it is not in conflict\<close>
  "conditions_consistent st \<longleftrightarrow>
     (has_condition st ConditionReady ConditionTrue \<longrightarrow> has_condition st ConditionConflicted ConditionFalse)"

locale condition_store =
  fixes R :: "('q, 'ls, 'sel) reconciler"
  assumes set_find: "condition_of (r_setCondition R cs c) t = (if t = cond_Type c then Some c else condition_of cs t)"
begin

lemma has_setCondition:
  "has_condition (Status (setCondition R dr t c reason msg)) t' s \<longleftrightarrow>
     (if t' = t then c = s else has_condition (Status dr) t' s)"
  by (simp add: has_condition_def setCondition_def set_find)

end

sublocale condition_store \<subseteq> consistent: status_policy R conditions_consistent
  "\<lambda>st. has_condition st ConditionConflicted ConditionFalse"
  by unfold_locales (auto simp: conditions_consistent_def has_setCondition, simp_all add: has_condition_def)

context condition_store
begin

lemma Reconcile_consistent:
  assumes "\<And>tr ns sel ds. r_listDeployments R tr ns sel = Inr ds \<Longrightarrow> distinct (map d_Name ds)"
    and "Reconcile L Q R namespace name now s = Some (res, s')"
  shows "\<exists>ext. rs_trace s' = rs_trace s @ ext \<and> list_all (status_holds conditions_consistent) ext"
proof -
  have "outcome_ok conditions_consistent
      (\<exists>dr. r_get R (rs_trace s) namespace name = Inr (Some dr) \<and> cleared L Q R s dr) s s'"
    by (rule consistent.Reconcile_ok [OF _ assms(2)]) (rule assms(1))
  then show ?thesis by (auto simp: outcome_ok_def)
qed

end

fun setStatusCondition :: "condition list \<Rightarrow> condition \<Rightarrow> condition list" where
  \<comment> \<open>a reference implementation: replace the condition of that type, or add one\<close>
  "setStatusCondition [] c = [c]"
| "setStatusCondition (x # xs) c = (if cond_Type x = cond_Type c then c # xs else x # setStatusCondition xs c)"

lemma condition_of_setStatusCondition:
  "condition_of (setStatusCondition cs c) t = (if t = cond_Type c then Some c else condition_of cs t)"
  by (induction cs) (auto simp: condition_of_def)

section \<open>Who owns a workload\<close>

lemma claimedByOlder_iff:
  "claimedByOlder R dr deploy others \<longleftrightarrow>
     (\<exists>other \<in> set others. dr_Name other \<noteq> dr_Name dr \<and> olderThan other dr \<and> selects R other (d_Labels deploy))"
  by (induction others) auto

lemma olderThan_lex:
  "olderThan a b \<longleftrightarrow> (dr_CreationTimestamp a, dr_Name a) < (dr_CreationTimestamp b, dr_Name b)"
  by (auto simp: olderThan_def less_prod_def)

lemma olderThan_total: "dr_Name a \<noteq> dr_Name b \<Longrightarrow> olderThan a b \<or> olderThan b a"
  by (auto simp: olderThan_def neq_iff)

lemma oldest_exists:
  assumes "finite S" "S \<noteq> {}"
  shows "\<exists>a \<in> S. \<forall>b \<in> S. \<not> olderThan b a"
proof -
  let ?k = "\<lambda>dr. (dr_CreationTimestamp dr, dr_Name dr)"
  have "Lattices_Big.Min (?k ` S) \<in> ?k ` S" using assms by (intro Lattices_Big.Min_in) auto
  then obtain a where a: "a \<in> S" "?k a = Lattices_Big.Min (?k ` S)" by auto
  have "\<not> olderThan b a" if "b \<in> S" for b
    using Lattices_Big.Min_le [of "?k ` S" "?k b"] that assms(1) a(2) unfolding olderThan_lex by (auto simp: not_less)
  then show ?thesis using a(1) by blast
qed

section \<open>Bounds\<close>

context quantity_laws
begin

lemma checkBounds_None: "checkBounds Q str name b = None \<longleftrightarrow> pred_option (bounds_ok qv) b"
  by (auto simp: checkBounds_def bounds_ok_def cmp_pos_iff not_less split: option.split)

lemma validateOverrides_None:
  "validateOverrides Q str ovs = None \<longleftrightarrow>
     list_all (\<lambda>ov. pred_option (bounds_ok qv) (co_CPU ov) \<and> pred_option (bounds_ok qv) (co_Memory ov)) ovs"
proof (induction ovs)
  case (Cons ov ovs)
  have "validateOverrides Q str (ov # ovs) = None \<longleftrightarrow>
      checkBounds Q str (''containerOverrides['' @ co_ContainerName ov @ ''].cpu'') (co_CPU ov) = None
      \<and> checkBounds Q str (''containerOverrides['' @ co_ContainerName ov @ ''].memory'') (co_Memory ov) = None
      \<and> validateOverrides Q str ovs = None"
    by (simp add: Let_def split: option.split)
  then show ?case by (simp only: checkBounds_None Cons.IH list.pred_inject conj_assoc)
qed simp

lemma validateBounds_None: "validateBounds Q str spec = None \<longleftrightarrow> spec_ok qv spec"
proof -
  have "validateBounds Q str spec = None \<longleftrightarrow>
      checkBounds Q str ''resources.cpu'' (Some (rp_CPU (Resources spec))) = None
      \<and> checkBounds Q str ''resources.memory'' (Some (rp_Memory (Resources spec))) = None
      \<and> validateOverrides Q str (ContainerOverrides spec) = None"
    by (simp add: validateBounds_def split: option.split)
  then show ?thesis by (simp only: checkBounds_None validateOverrides_None spec_ok_def option.pred_inject)
qed

end

section \<open>No panics\<close>

lemma computeLoop_ok:
  assumes L: "libm_laws L" and Q: "quantity_laws Q qv"
  shows "rec_ok n r \<Longrightarrow> rec_live r \<Longrightarrow> n + length (passSamples Q asSelector provider ns ds) < 2 ^ 53 \<Longrightarrow>
    \<exists>res r'. computeLoop L Q asSelector provider ns spec ds r out usage = Some (res, r')
      \<and> rec_ok (n + length (passSamples Q asSelector provider ns ds)) r' \<and> rec_live r'"
proof (induction ds arbitrary: n r out usage)
  case (Cons d ds)
  show ?case
  proof (cases "asSelector (PodSelector d)")
    case (Inl e)
    then have "workloadSamples Q asSelector provider ns d = []" by (simp add: workloadSamples_def)
    then show ?thesis using Cons.IH [OF Cons.prems(1,2), of out usage] Cons.prems(3) Inl by simp
  next
    case sel: (Inr sel)
    show ?thesis
    proof (cases "provider ns sel")
      case (Inl e)
      then show ?thesis using sel Cons.prems rec_ok_mono [OF Cons.prems(1)] by simp
    next
      case us: (Inr usages)
      let ?xs = "usageSamples Q ns (d_Name d) usages"
      have ws: "workloadSamples Q asSelector provider ns d = ?xs" using sel us by (simp add: workloadSamples_def)
      have b: "n + length ?xs < 2 ^ 53" using Cons.prems(3) ws by simp
      obtain fs where fs: "feedPods L Q ns (d_Name d) usages (empty_feed r) = Some fs"
        "rec_ok (n + length ?xs) (fs_rec fs)" "rec_live (fs_rec fs)"
        by (rule feed_ok [OF L Q Cons.prems(1,2) b])
      have "n + length ?xs + length (passSamples Q asSelector provider ns ds) < 2 ^ 53" using Cons.prems(3) ws by simp
      from Cons.IH [OF fs(2,3) this] show ?thesis using sel us fs(1) ws by (simp add: Let_def add.assoc)
    qed
  qed
qed simp

lemma computeRecommendations_ok:
  assumes "libm_laws L" "quantity_laws Q qv" "rec_ok n r" "rec_live r"
    and "n + length (passSamples Q asSelector provider ns ds) < 2 ^ 53"
  obtains res r' where "computeRecommendations L Q asSelector provider ns spec ds r = Some (res, r')"
    "rec_ok (n + length (passSamples Q asSelector provider ns ds)) r'" "rec_live r'"
proof -
  obtain res r' where l: "computeLoop L Q asSelector provider ns spec ds r [] [] = Some (res, r')"
    "rec_ok (n + length (passSamples Q asSelector provider ns ds)) r'" "rec_live r'"
    using computeLoop_ok [OF assms, of spec "[]" "[]"] by blast
  then show ?thesis using that by (cases res) (auto simp: computeRecommendations_def split: prod.splits)
qed

lemma finish_Recommender [simp]: "rs_Recommender (snd (finish R orig dr res s)) = rs_Recommender s"
  by (simp add: finish_def split: prod.split)

lemma reconcileReady_Recommender [simp]: "rs_Recommender (snd (reconcileReady R orig dr n s)) = rs_Recommender s"
  by (simp add: reconcileReady_def Let_def)

lemma reconcileActuate_Recommender [simp]:
  "rs_Recommender (snd (reconcileActuate Q R orig dr matched usage now s)) = rs_Recommender s"
  by (simp add: reconcileActuate_def finishError_snd Let_def split: option.split)

lemma reconcileRecommend_total:
  assumes "libm_laws L" "quantity_laws Q qv" "rec_ok n (rs_Recommender s)" "rec_live (rs_Recommender s)"
    and b: "n + length (passSamples Q (e_asSelector (r_env R)) (providerFor (Spec dr) (PrometheusMetrics R) (Metrics R))
          (dr_Namespace dr) matched) < 2 ^ 53" (is "n + ?k < _")
  obtains res s' where "reconcileRecommend L Q R orig dr matched now s = Some (res, s')"
    "rec_ok (n + ?k) (rs_Recommender s')" "rec_live (rs_Recommender s')"
proof -
  obtain result r where c: "computeRecommendations L Q (e_asSelector (r_env R))
      (providerFor (Spec dr) (PrometheusMetrics R) (Metrics R)) (dr_Namespace dr) (Spec dr) matched (rs_Recommender s)
      = Some (result, r)" "rec_ok (n + ?k) r" "rec_live r"
    by (rule computeRecommendations_ok [OF assms])
  let ?unsupported = "case MetricsCfg (Spec dr) of Some m \<Rightarrow> Provider m = MetricsProviderPrometheus \<and> PrometheusMetrics R = None
          | None \<Rightarrow> False"
  show ?thesis
  proof (cases ?unsupported)
    case True
    let ?f = "finish R orig (setCondition R dr ConditionReady ConditionFalse ''UnsupportedProvider''
        ''Prometheus provider requested but the operator was started without --prometheus-url'') 0 s"
    have "reconcileRecommend L Q R orig dr matched now s = Some (fst ?f, snd ?f)"
      using True unfolding reconcileRecommend_def by (simp only: if_True prod.collapse)
    then show ?thesis by (rule that) (simp_all add: assms(4) rec_ok_mono [OF assms(3)])
  next
    case False
    note r = reconcileRecommend_def [of L Q R orig dr matched now s, unfolded if_not_P [OF False] c(1) option.case prod.case]
    show ?thesis
    proof (cases result)
      case (Inl err)
      let ?f = "finishError R orig (setCondition R dr ConditionReady ConditionFalse ''MetricsUnavailable'' err)
         (ErrOther err) (s\<lparr>rs_Recommender := r\<rparr>)"
      have "reconcileRecommend L Q R orig dr matched now s = Some (fst ?f, snd ?f)"
        unfolding r by (simp add: Inl)
      then show ?thesis by (rule that) (simp_all add: c(2,3) finishError_snd)
    next
      case (Inr ru)
      obtain recs usage where ru: "ru = (recs, usage)" by (cases ru)
      obtain dr1 s1 where p: "publish Q R dr recs (s\<lparr>rs_Recommender := r\<rparr>) = (dr1, s1)" by fastforce
      let ?f = "reconcileActuate Q R orig dr1 matched usage now s1"
      have "reconcileRecommend L Q R orig dr matched now s = Some (fst ?f, snd ?f)" unfolding r by (simp add: Inr ru p)
      then show ?thesis by (rule that) (simp_all add: c(2,3) publish_simps(4) [OF p])
    qed
  qed
qed

definition resourceSamples ::
  "'q quantity_api \<Rightarrow> ('q, 'ls, 'sel) reconciler \<Rightarrow> 'q trace \<Rightarrow> ('q, 'ls) dynamic_resource \<Rightarrow> nat" where
  \<comment> \<open>how many usage samples the provider answers for the workloads of a DynamicResource\<close>
  "resourceSamples Q R tr dr =
     (case resolveSelector R tr dr of
        Inl _ \<Rightarrow> 0
      | Inr matched \<Rightarrow> length (passSamples Q (e_asSelector (r_env R))
          (providerFor (Spec dr) (PrometheusMetrics R) (Metrics R)) (dr_Namespace dr) matched))"

definition reconcileSamples ::
  "'q quantity_api \<Rightarrow> ('q, 'ls, 'sel) reconciler \<Rightarrow> 'q trace \<Rightarrow> string \<Rightarrow> string \<Rightarrow> nat" where
  "reconcileSamples Q R tr namespace name =
     (case r_get R tr namespace name of Inr (Some dr) \<Rightarrow> resourceSamples Q R tr dr | _ \<Rightarrow> 0)"

lemma finish_kept:
  assumes "rec_ok n (rs_Recommender s)" "rec_live (rs_Recommender s)" "y = Some x" "rs_Recommender (snd x) = rs_Recommender s"
  shows "\<exists>res s'. y = Some (res, s') \<and> rec_ok (n + k) (rs_Recommender s') \<and> rec_live (rs_Recommender s')"
  using assms rec_ok_mono [OF assms(1), of "n + k"] by (cases x) simp

lemma reconcileResource_total:
  assumes "libm_laws L" "quantity_laws Q qv" "rec_ok n (rs_Recommender s)" "rec_live (rs_Recommender s)"
    and b: "n + resourceSamples Q R (rs_trace s) dr < 2 ^ 53" (is "n + ?k < _")
  shows "\<exists>res s'. reconcileResource L Q R dr now s = Some (res, s')
    \<and> rec_ok (n + ?k) (rs_Recommender s') \<and> rec_live (rs_Recommender s')" (is ?goal)
proof (cases "validateBounds Q (r_quantityString R) (Spec dr)")
  case (Some err)
  then show ?thesis
    by (intro finish_kept [OF assms(3,4)]) (simp add: reconcileResource_def Let_def, simp add: emit_def)
next
  case v: None
  let ?dr = "dr\<lparr>Status := (Status dr)\<lparr>ObservedGeneration := dr_Generation dr\<rparr>\<rparr>"
  let ?drm = "\<lambda>m. ?dr\<lparr>Status := (Status ?dr)\<lparr>MatchedWorkloads := workloadRefs m\<rparr>\<rparr>"
  show ?thesis
  proof (cases "resolveSelector R (rs_trace s) dr")
    case (Inl err)
    then show ?thesis
      using v by (intro finish_kept [OF assms(3,4)]) (simp add: reconcileResource_def Let_def, simp add: emit_def)
  next
    case m: (Inr matched)
    show ?thesis
    proof (cases "conflictedWorkloads R (rs_trace s) dr matched")
      case (Inl err)
      then show ?thesis
        using v m by (intro finish_kept [OF assms(3,4)]) (simp add: reconcileResource_def Let_def, simp add: emit_def)
    next
      case c: (Inr conflicted)
      show ?thesis
      proof (cases "conflicted = []")
        case False
        then show ?thesis
          using v m c by (intro finish_kept [OF assms(3,4)]) (simp add: reconcileResource_def Let_def, simp add: emit_def)
      next
        case c0: True
        show ?thesis
        proof (cases "vpaConflicts R (rs_trace s) (dr_Namespace dr) matched")
          case (Inl err)
          then show ?thesis
            using v m c c0 by (intro finish_kept [OF assms(3,4)]) (simp add: reconcileResource_def Let_def, simp add: emit_def)
        next
          case vp: (Inr vpaConf)
          have k: "n + length (passSamples Q (e_asSelector (r_env R)) (providerFor (Spec dr) (PrometheusMetrics R) (Metrics R))
              (dr_Namespace dr) matched) = n + ?k" by (simp add: resourceSamples_def m)
          show ?thesis
          proof (cases "vpaConf = []")
            case False
            then show ?thesis using v m c c0 vp
              by (intro finish_kept [OF assms(3,4)]) (simp add: reconcileResource_def Let_def, simp add: emit_def)
          next
            case v0: True
            show ?thesis
            proof (cases "matched = []")
              case True
              then show ?thesis using v m c c0 vp v0
                by (intro finish_kept [OF assms(3,4)]) (simp add: reconcileResource_def Let_def, simp)
            next
              case False
              let ?drc = "setCondition R (?drm matched) ConditionConflicted ConditionFalse ''NoConflict'' ''no overlapping DynamicResource or VPA''"
              have "reconcileResource L Q R dr now s = reconcileRecommend L Q R dr ?drc matched now s"
                using v m c c0 vp v0 False by (simp add: reconcileResource_def Let_def)
              moreover obtain res s' where "reconcileRecommend L Q R dr ?drc matched now s = Some (res, s')"
                "rec_ok (n + ?k) (rs_Recommender s')" "rec_live (rs_Recommender s')"
                using reconcileRecommend_total [OF assms(1-4), of R ?drc matched dr now] b unfolding k [symmetric] by auto
              ultimately show ?thesis by simp
            qed
          qed
        qed
      qed
    qed
  qed
qed

lemma Reconcile_total:
  assumes "libm_laws L" "quantity_laws Q qv" "rec_ok n (rs_Recommender s)" "rec_live (rs_Recommender s)"
    and "n + reconcileSamples Q R (rs_trace s) namespace name < 2 ^ 53" (is "n + ?k < _")
  shows "\<exists>res s'. Reconcile L Q R namespace name now s = Some (res, s')
    \<and> rec_ok (n + ?k) (rs_Recommender s') \<and> rec_live (rs_Recommender s')"
proof (cases "r_get R (rs_trace s) namespace name")
  case (Inl err)
  then show ?thesis by (intro finish_kept [OF assms(3,4)]) (simp add: Reconcile_def, simp)
next
  case g: (Inr found)
  show ?thesis
  proof (cases found)
    case None
    then show ?thesis by (intro finish_kept [OF assms(3,4)]) (simp add: Reconcile_def g, simp)
  next
    case (Some dr)
    then show ?thesis
      using reconcileResource_total [OF assms(1-4), of R dr now] assms(5) g by (simp add: Reconcile_def reconcileSamples_def)
  qed
qed

end
