(* ===== verification/ReconcileTheorems.thy ===== *)
theory ReconcileTheorems
  imports ReconcileProps ActuationTheorems
begin

text \<open>
  The properties of a reconcile: when it may touch a Pod, which DynamicResource owns a workload, the
  consistency of the conditions it reports, and that it always returns.
\<close>

section \<open>A small cluster\<close>

definition ex_rival :: "(exact_q, string) dynamic_resource" where
  \<comment> \<open>a younger DynamicResource with the selector of \<open>ex_dr\<close>\<close>
  "ex_rival = ex_dr\<lparr>dr_Name := ''rival'', dr_CreationTimestamp := 2\<rparr>"

definition ex_other :: "(exact_q, string) dynamic_resource" where
  "ex_other = ex_dr\<lparr>dr_Name := ''other'', Spec := ex_spec\<lparr>Selector := ''app=db''\<rparr>\<rparr>"

definition ex_db :: "string deployment" where
  "ex_db = \<lparr>d_Name = ''db'', d_Labels = [(''app'', ''db'')], PodSelector = ''app=db''\<rparr>"

definition ex_reconciler :: "(exact_q, string, string) reconciler" where
  "ex_reconciler = \<lparr>r_env = ex_env,
     r_get = (\<lambda>_ _ name. Inr (List.find (\<lambda>dr. dr_Name dr = name) [ex_dr, ex_rival, ex_other])),
     r_listDynamicResources = (\<lambda>_ _. Inr [ex_dr, ex_rival, ex_other]),
     r_listDeployments = (\<lambda>_ _ sel. Inr (filter (\<lambda>d. PodSelector d = sel) [ex_deploy, ex_db])),
     r_listVPAs = (\<lambda>_ _. Inr None), r_patchStatus = (\<lambda>_ _ _ _. None),
     r_selEmpty = (\<lambda>sel. sel = ''''), r_selMatches = (\<lambda>sel ls. sel = ''app='' @ map_zero '''' ls ''app''),
     r_setCondition = setStatusCondition, r_recsEqual = (=), r_statusEqual = (=), r_quantityString = (\<lambda>_. ''q''),
     Metrics = (\<lambda>_ _. Inr []), PrometheusMetrics = None, ResizeSupported = True, WebhookEnabled = True\<rparr>"

interpretation exc: condition_store ex_reconciler
  by unfold_locales (simp add: ex_reconciler_def condition_of_setStatusCondition)

definition ex_state :: "exact_q rec_state" where
  "ex_state = \<lparr>rs_Recommender = New, rs_Cooldowns = NewCooldownTracker, rs_trace = []\<rparr>"

definition ex_conflict_trace :: "exact_q trace" where
  "ex_conflict_trace =
     (let msg = ''workloads already managed by an older DynamicResource: [web]''
      in [EventRecorded EventWarning ''Conflicted'',
          StatusPatched ''prod'' ''rival'' (ex_status\<lparr>MatchedWorkloads := [\<lparr>wr_Kind = ''Deployment'', wr_Name = ''web''\<rparr>],
            Conditions := [
              \<lparr>cond_Type = ''Conflicted'', cond_Status = ConditionTrue, cond_Reason = ''OverlappingSelector'',
               cond_Message = msg, cond_Generation = 1\<rparr>,
              \<lparr>cond_Type = ''Ready'', cond_Status = ConditionFalse, cond_Reason = ''Conflicted'',
               cond_Message = msg, cond_Generation = 1\<rparr>]\<rparr>) None])"

lemma ex_Reconcile_rival:
  "Reconcile ex_libm exact_api ex_reconciler ''prod'' ''rival'' hour ex_state =
     Some (Inr 0, ex_state\<lparr>rs_trace := ex_conflict_trace\<rparr>)"
  by code_simp

lemma ex_Deployments: "r_listDeployments ex_reconciler tr ns sel = Inr ds \<Longrightarrow> distinct (map d_Name ds)"
  by (auto simp: ex_reconciler_def ex_deploy_def ex_db_def)

section \<open>Properties\<close>

text \<open>C6. A reconcile touches Pods only behind all its guards: if it patches or evicts any Pod, or moves
  any cooldown, then the DynamicResource exists, its bounds are valid, its selector resolves to at
  least one Deployment, no matched workload belongs to an older DynamicResource or a
  VerticalPodAutoscaler, the metrics of every workload could be read, the update mode is InPlaceOnly
  or InPlaceOrRecreate, and the cluster supports in-place resizing. On every other path, errors
  included, the trace holds no write. The status is patched at most once.\<close>

theorem reconcile_writes_guarded:
  assumes "\<And>tr ns sel ds. r_listDeployments R tr ns sel = Inr ds \<Longrightarrow> distinct (map d_Name ds)"
    and "Reconcile L Q R namespace name now s = Some (res, s')"
  shows "\<exists>ext. rs_trace s' = rs_trace s @ ext \<and> length (filter is_status ext) \<le> 1
    \<and> ((\<exists>dr. r_get R (rs_trace s) namespace name = Inr (Some dr) \<and> cleared L Q R s dr)
       \<or> \<not> list_ex is_write ext \<and> rs_Cooldowns s' = rs_Cooldowns s)"
proof -
  have "outcome_ok (\<lambda>_. True) (\<exists>dr. r_get R (rs_trace s) namespace name = Inr (Some dr) \<and> cleared L Q R s dr) s s'"
    by (rule any_status.Reconcile_ok [OF _ assms(2)]) (rule assms(1))
  then show ?thesis by (auto simp: outcome_ok_def)
qed

theorem reconcile_writes_guarded_witness:
  "\<exists>s'. Reconcile ex_libm exact_api ex_reconciler ''prod'' ''rival'' hour ex_state = Some (Inr 0, s')
     \<and> \<not> list_ex is_write (rs_trace s') \<and> rs_Cooldowns s' = []"
proof -
  let ?s = "ex_state\<lparr>rs_trace := ex_conflict_trace\<rparr>"
  have "\<not> cleared ex_libm exact_api ex_reconciler ex_state dr"
    if "r_get ex_reconciler (rs_trace ex_state) ''prod'' ''rival'' = Inr (Some dr)" for dr
  proof -
    have "dr = ex_rival" using that by (simp add: ex_reconciler_def ex_dr_def ex_rival_def)
    moreover have "resolveSelector ex_reconciler [] ex_rival = Inr [ex_deploy]" by code_simp
    moreover have "conflictedWorkloads ex_reconciler [] ex_rival [ex_deploy] = Inr [''web'']" by code_simp
    ultimately show ?thesis by (auto simp: cleared_def ex_state_def)
  qed
  moreover have "\<exists>ext. rs_trace ?s = rs_trace ex_state @ ext \<and> length (filter is_status ext) \<le> 1
    \<and> ((\<exists>dr. r_get ex_reconciler (rs_trace ex_state) ''prod'' ''rival'' = Inr (Some dr)
          \<and> cleared ex_libm exact_api ex_reconciler ex_state dr)
       \<or> \<not> list_ex is_write ext \<and> rs_Cooldowns ?s = rs_Cooldowns ex_state)"
    by (rule reconcile_writes_guarded [OF _ ex_Reconcile_rival]) (rule ex_Deployments)
  ultimately have "\<not> list_ex is_write ex_conflict_trace" by (auto simp: ex_state_def)
  then show ?thesis
    by (intro exI [of _ ?s] conjI ex_Reconcile_rival) (simp_all add: ex_state_def NewCooldownTracker_def)
qed

text \<open>C26. The conditions never contradict each other: whenever a reconcile patches the status with Ready
  true, the same status says Conflicted false, on every path, also when the actuation pass ends with
  an error and the old Ready condition stays.\<close>

theorem reconcile_conditions_consistent:
  assumes "condition_store R"
    and "\<And>tr ns sel ds. r_listDeployments R tr ns sel = Inr ds \<Longrightarrow> distinct (map d_Name ds)"
    and "Reconcile L Q R namespace name now s = Some (res, s')"
  shows "\<exists>ext. rs_trace s' = rs_trace s @ ext \<and> list_all (status_holds conditions_consistent) ext"
  by (rule condition_store.Reconcile_consistent [OF assms(1) _ assms(3)]) (rule assms(2))

theorem reconcile_conditions_consistent_witness:
  "list_all (status_holds conditions_consistent) ex_conflict_trace"
proof -
  have "\<exists>ext. rs_trace (ex_state\<lparr>rs_trace := ex_conflict_trace\<rparr>) = rs_trace ex_state @ ext
      \<and> list_all (status_holds conditions_consistent) ext"
    by (rule reconcile_conditions_consistent [OF exc.condition_store_axioms _ ex_Reconcile_rival]) (rule ex_Deployments)
  then show ?thesis by (simp add: ex_state_def)
qed

text \<open>C22. Every workload has exactly one owner: of the DynamicResources of a namespace whose selectors
  match a Deployment, exactly one is not pushed aside by an older one, the oldest, with ties broken
  by name.\<close>

theorem exactly_one_owner:
  assumes "distinct (map dr_Name items)" "\<exists>dr \<in> set items. selects R dr (d_Labels deploy)"
  shows "\<exists>!dr. dr \<in> set items \<and> selects R dr (d_Labels deploy) \<and> \<not> claimedByOlder R dr deploy items"
proof -
  let ?S = "{dr \<in> set items. selects R dr (d_Labels deploy)}"
  have "finite ?S" "?S \<noteq> {}" using assms(2) by auto
  then obtain a where a: "a \<in> ?S" "\<forall>b \<in> ?S. \<not> olderThan b a" using oldest_exists by blast
  show ?thesis
  proof (rule ex1I [of _ a])
    show "a \<in> set items \<and> selects R a (d_Labels deploy) \<and> \<not> claimedByOlder R a deploy items"
      using a by (auto simp: claimedByOlder_iff)
    fix b assume b: "b \<in> set items \<and> selects R b (d_Labels deploy) \<and> \<not> claimedByOlder R b deploy items"
    show "b = a"
    proof (rule ccontr)
      assume "b \<noteq> a"
      then have "dr_Name a \<noteq> dr_Name b" using assms(1) a(1) b by (auto simp: distinct_map inj_on_def)
      then show False using a b olderThan_total [of a b] by (auto simp: claimedByOlder_iff)
    qed
  qed
qed

theorem exactly_one_owner_witness:
  "\<exists>!dr. dr \<in> set [ex_dr, ex_rival, ex_other] \<and> selects ex_reconciler dr (d_Labels ex_deploy)
     \<and> \<not> claimedByOlder ex_reconciler dr ex_deploy [ex_dr, ex_rival, ex_other]"
proof (rule exactly_one_owner)
  show "distinct (map dr_Name [ex_dr, ex_rival, ex_other])" by code_simp
  have "selects ex_reconciler ex_dr (d_Labels ex_deploy)" by code_simp
  then show "\<exists>dr \<in> set [ex_dr, ex_rival, ex_other]. selects ex_reconciler dr (d_Labels ex_deploy)" by simp
qed

text \<open>No two DynamicResources act on one Deployment: when two of the same namespace both get past the
  conflict guard, each in its own reconcile and at any time at which the list of DynamicResources
  holds both, the workloads they go on to act on are disjoint.\<close>

theorem no_common_workload:
  assumes "r_listDynamicResources R tr (dr_Namespace a) = Inr items" "r_listDynamicResources R tr' (dr_Namespace b) = Inr items'"
    and "b \<in> set items" "a \<in> set items'" "dr_Name a \<noteq> dr_Name b"
    and "resolveSelector R tr a = Inr ma" "resolveSelector R tr' b = Inr mb"
    and "conflictedWorkloads R tr a ma = Inr []" "conflictedWorkloads R tr' b mb = Inr []"
    and "\<And>tr ns sel ds. r_listDeployments R tr ns sel = Inr ds \<Longrightarrow> list_all (\<lambda>d. r_selMatches R sel (d_Labels d)) ds"
  shows "set ma \<inter> set mb = {}"
proof -
  have sel: "selects R dr (d_Labels d)" if "resolveSelector R tr dr = Inr ds" "d \<in> set ds" for tr dr ds d
    using that assms(10) by (auto simp: resolveSelector_def selects_def list_all_iff split: sum.splits if_splits)
  have "False" if d: "d \<in> set ma" "d \<in> set mb" for d
  proof -
    have "\<not> claimedByOlder R a d items" "\<not> claimedByOlder R b d items'"
      using assms(1,2,8,9) d by (auto simp: conflictedWorkloads_def filter_empty_conv)
    moreover have "selects R a (d_Labels d)" "selects R b (d_Labels d)"
      using sel [OF assms(6) d(1)] sel [OF assms(7) d(2)] by simp_all
    ultimately have "\<not> olderThan b a" "\<not> olderThan a b"
      using assms(3-5) by (auto simp: claimedByOlder_iff)
    then show False using olderThan_total [OF assms(5)] by blast
  qed
  then show ?thesis by blast
qed

theorem no_common_workload_witness: "set [ex_deploy] \<inter> set [ex_db] = {}"
proof (rule no_common_workload [where R = ex_reconciler and tr = "[]" and tr' = "[]" and a = ex_dr and b = ex_other
      and items = "[ex_dr, ex_rival, ex_other]" and items' = "[ex_dr, ex_rival, ex_other]"])
  show "dr_Name ex_dr \<noteq> dr_Name ex_other" by code_simp
  show "resolveSelector ex_reconciler [] ex_dr = Inr [ex_deploy]" by code_simp
  show "resolveSelector ex_reconciler [] ex_other = Inr [ex_db]" by code_simp
  show "conflictedWorkloads ex_reconciler [] ex_dr [ex_deploy] = Inr []" by code_simp
  show "conflictedWorkloads ex_reconciler [] ex_other [ex_db] = Inr []" by code_simp
  fix tr ns sel ds assume "r_listDeployments ex_reconciler tr ns sel = Inr ds"
  then show "list_all (\<lambda>d. r_selMatches ex_reconciler sel (d_Labels d)) ds"
    by (auto simp: ex_reconciler_def ex_deploy_def ex_db_def map_zero_def)
qed (simp_all add: ex_reconciler_def)

text \<open>\<open>validateBounds\<close> accepts exactly the specs in which the minimum does not exceed the maximum in
  every pair of bounds, the global ones and those of every container override.\<close>

theorem validate_bounds_exact:
  assumes "quantity_laws Q qv"
  shows "validateBounds Q str spec = None \<longleftrightarrow> spec_ok qv spec"
  by (rule quantity_laws.validateBounds_None [OF assms])

theorem validate_bounds_exact_witness: "validateBounds exact_api (\<lambda>_. ''q'') ex_spec = None \<longleftrightarrow> spec_ok fst ex_spec"
  by (rule validate_bounds_exact [OF exq.quantity_laws_axioms])

text \<open>A reconcile always returns, whatever the API server and the metrics backends answer: with a
  recommender that was fed \<open>n\<close> samples before, and \<open>k\<close> more in this reconcile, \<open>n + k < 2^53\<close>, no path
  panics, and the recommender is well-formed again afterwards, now with \<open>n + k\<close> samples, so that the
  next reconcile returns too.\<close>

theorem reconcile_never_panics:
  assumes "libm_laws L" "quantity_laws Q qv" "rec_ok n (rs_Recommender s)" "rec_live (rs_Recommender s)"
    and "n + reconcileSamples Q R (rs_trace s) namespace name < 2 ^ 53"
  shows "\<exists>res s'. Reconcile L Q R namespace name now s = Some (res, s')
    \<and> rec_ok (n + reconcileSamples Q R (rs_trace s) namespace name) (rs_Recommender s') \<and> rec_live (rs_Recommender s')"
  by (rule Reconcile_total [OF assms])

theorem reconcile_never_panics_witness:
  "\<exists>res s'. Reconcile ex_libm exact_api ex_reconciler ''prod'' ''dr'' hour ex_state = Some (res, s')
     \<and> rec_ok 0 (rs_Recommender s') \<and> rec_live (rs_Recommender s')"
proof -
  have "reconcileSamples exact_api ex_reconciler (rs_trace ex_state) ''prod'' ''dr'' = 0" by code_simp
  then show ?thesis
    using reconcile_never_panics [OF exl.libm_laws_axioms exq.quantity_laws_axioms, of 0 ex_state ex_reconciler "''prod''" "''dr''" hour]
    by (simp add: ex_state_def rec_ok_New rec_live_New)
qed

end
