(* ===== verification/Webhook.thy ===== *)
theory Webhook
  imports Actuation
begin

text \<open>
  \<open>internal/webhook/pod_webhook.go\<close>: the mutating admission webhook that gives a new Pod the current
  recommendation of its Deployment.

  The client of the webhook is the record \<open>webhook\<close>: the owner references of a ReplicaSet, or the
  error of reading it, and the DynamicResources of a namespace. A Pod under admission is a record
  \<open>new_pod\<close>. A container without requests has the empty map; one whose requests are an empty, non-nil
  map passes the code's nil test and is then left alone by \<open>applyTarget\<close>, with the same result. Log
  output and the registration with the manager are left out.
\<close>

section \<open>Data\<close>

record owner_reference =
  or_Kind :: string
  or_Name :: string

record 'q new_pod =
  np_Namespace :: string
  np_OwnerReferences :: "owner_reference list"
  np_Pod :: "'q pod"

record ('q, 'ls) webhook =
  w_getReplicaSet :: "string \<Rightarrow> string \<Rightarrow> owner_reference list go_result"
  w_listDynamicResources :: "string \<Rightarrow> ('q, 'ls) dynamic_resource list go_result"

section \<open>The owner of a Pod\<close>

fun lastIndex :: "char \<Rightarrow> string \<Rightarrow> int" where
  \<comment> \<open>\<open>strings.LastIndex\<close> of one character\<close>
  "lastIndex c [] = - 1"
| "lastIndex c (x # xs) = (let i = lastIndex c xs in if 0 \<le> i then i + 1 else if x = c then 0 else - 1)"

fun owningDeployment :: "('q, 'ls) webhook \<Rightarrow> string \<Rightarrow> owner_reference list \<Rightarrow> string go_result" where
  "owningDeployment W namespace [] = Inr ''''"
| "owningDeployment W namespace (ref # refs) =
     (if or_Kind ref \<noteq> ''ReplicaSet'' then owningDeployment W namespace refs
      else case w_getReplicaSet W namespace (or_Name ref) of
        Inl err \<Rightarrow>
          let idx = lastIndex (CHR ''-'') (or_Name ref)
          in if 0 < idx then Inr (take (nat idx) (or_Name ref)) else Inl err
      | Inr rsRefs \<Rightarrow>
          (case List.find (\<lambda>rsRef. or_Kind rsRef = ''Deployment'') rsRefs of
             Some rsRef \<Rightarrow> Inr (or_Name rsRef)
           | None \<Rightarrow> owningDeployment W namespace refs))"

section \<open>The recommendation for a Deployment\<close>

definition containerTargets :: "'q container_recommendation list \<Rightarrow> (string, 'q rlist) gomap" where
  "containerTargets cs =
     foldl (\<lambda>out c. if Target c \<noteq> [] then AList.update (ContainerName c) (Target c) out else out) [] cs"

fun recommendationIn :: "string \<Rightarrow> 'q workload_recommendation list \<Rightarrow> (string, 'q rlist) gomap option" where
  \<comment> \<open>the loop over the recommendations of one DynamicResource\<close>
  "recommendationIn deployment [] = None"
| "recommendationIn deployment (rec # recs) =
     (if Workload rec \<noteq> deployment then recommendationIn deployment recs
      else
        let out = containerTargets (Containers rec)
        in if out \<noteq> [] then Some out else recommendationIn deployment recs)"

fun recommendationAmong :: "string \<Rightarrow> ('q, 'ls) dynamic_resource list \<Rightarrow> (string, 'q rlist) gomap option" where
  \<comment> \<open>the loop over the DynamicResources of the namespace\<close>
  "recommendationAmong deployment [] = None"
| "recommendationAmong deployment (dr # drs) =
     (if UpdateMode (Spec dr) = UpdateModeOff \<or> UpdateMode (Spec dr) = UpdateModeUnset
      then recommendationAmong deployment drs
      else case recommendationIn deployment (Recommendations (Status dr)) of
             Some out \<Rightarrow> Some out
           | None \<Rightarrow> recommendationAmong deployment drs)"

definition findRecommendation :: "('q, 'ls) webhook \<Rightarrow> string \<Rightarrow> string \<Rightarrow> (string, 'q rlist) gomap option" where
  "findRecommendation W namespace deployment =
     (case w_listDynamicResources W namespace of
        Inl _ \<Rightarrow> None
      | Inr items \<Rightarrow> recommendationAmong deployment items)"

section \<open>Mutating the Pod\<close>

definition scaledLimit :: "'q quantity_api \<Rightarrow> 'q \<Rightarrow> 'q \<Rightarrow> 'q \<Rightarrow> 'q" where
  \<comment> \<open>the limit that keeps the ratio of limit to request\<close>
  "scaledLimit Q newReq curLim curReq =
     (let ratio = f_div (q_approx Q curLim) (q_approx Q curReq);
          scaledMilli = i64_of_f (f_mul (f_mul (q_approx Q newReq) ratio) (Fin 1000))
      in q_newMilli Q scaledMilli (q_format Q curLim))"

definition applyResource :: "'q quantity_api \<Rightarrow> 'q rlist \<Rightarrow> string \<Rightarrow> 'q container \<Rightarrow> 'q container" where
  \<comment> \<open>one round of the loop of \<open>applyTarget\<close>\<close>
  "applyResource Q target name c =
     (case map_of target name of
        None \<Rightarrow> c
      | Some newReq \<Rightarrow>
          (case map_of (Requests c) name of
             None \<Rightarrow> c
           | Some curReq \<Rightarrow>
               if q_isZero Q curReq then c
               else
                 let c = (case map_of (Limits c) name of
                       None \<Rightarrow> c
                     | Some curLim \<Rightarrow>
                         if q_cmp Q curLim curReq = 0
                         then c\<lparr>Limits := AList.update name newReq (Limits c)\<rparr>
                         else c\<lparr>Limits := AList.update name (scaledLimit Q newReq curLim curReq) (Limits c)\<rparr>)
                 in c\<lparr>Requests := AList.update name newReq (Requests c)\<rparr>))"

definition applyTarget :: "'q quantity_api \<Rightarrow> 'q rlist \<Rightarrow> 'q container \<Rightarrow> 'q container" where
  "applyTarget Q target c =
     foldl (\<lambda>c name. applyResource Q target name c) c [ResourceCPU, ResourceMemory]"

definition injectContainer :: "'q quantity_api \<Rightarrow> (string, 'q rlist) gomap \<Rightarrow> 'q container \<Rightarrow> 'q container" where
  \<comment> \<open>one round of the loop of \<open>Default\<close>\<close>
  "injectContainer Q rec c =
     (case map_of rec (c_Name c) of
        None \<Rightarrow> c
      | Some target \<Rightarrow> if Requests c = [] then c else applyTarget Q target c)"

definition Default :: "'q quantity_api \<Rightarrow> ('q, 'ls) webhook \<Rightarrow> 'q new_pod \<Rightarrow> 'q new_pod" where
  \<comment> \<open>it never returns an error\<close>
  "Default Q W np =
     (case owningDeployment W (np_Namespace np) (np_OwnerReferences np) of
        Inl _ \<Rightarrow> np
      | Inr deployName \<Rightarrow>
          if deployName = [] then np
          else case findRecommendation W (np_Namespace np) deployName of
            None \<Rightarrow> np
          | Some rec \<Rightarrow>
              np\<lparr>np_Pod := (np_Pod np)\<lparr>PodContainers := map (injectContainer Q rec) (PodContainers (np_Pod np))\<rparr>\<rparr>)"

end
