(* ===== verification/WebhookProps.thy ===== *)
theory WebhookProps
  imports Webhook PlanPasses
begin

text \<open>
  Facts about the webhook: which recommendation it finds, the requests and limits of a container
  after \<open>applyTarget\<close> resource by resource, and the float64 computation of a scaled limit. The locale
  \<open>approx_laws\<close> extends the quantity laws by what \<open>AsApproximateFloat64\<close> promises.
\<close>

section \<open>The owner and its recommendation\<close>

lemma lastIndex_absent: "c \<notin> set s \<Longrightarrow> lastIndex c s = - 1"
  by (induction s) auto

lemma lastIndex_append: "c \<notin> set t \<Longrightarrow> lastIndex c (s @ c # t) = int (length s)"
  by (induction s) (simp_all add: lastIndex_absent)

definition active :: "('q, 'ls) dynamic_resource \<Rightarrow> bool" where
  "active dr \<longleftrightarrow> UpdateMode (Spec dr) \<noteq> UpdateModeOff \<and> UpdateMode (Spec dr) \<noteq> UpdateModeUnset"

lemma map_of_containerTargets:
  assumes "map_of (containerTargets cs) name = Some t"
  obtains c where "c \<in> set cs" "ContainerName c = name" "Target c = t" "t \<noteq> []"
proof -
  let ?f = "\<lambda>out c. if Target c \<noteq> [] then AList.update (ContainerName c) (Target c) out else out"
  have "map_of out name = Some t \<or> (\<exists>c \<in> set cs. ContainerName c = name \<and> Target c = t \<and> t \<noteq> [])"
    if "map_of (foldl ?f out cs) name = Some t" for out
    using that
  proof (induction cs arbitrary: out)
    case (Cons c cs)
    then have "map_of (foldl ?f (?f out c) cs) name = Some t" by simp
    from Cons.IH [OF this] show ?case by (auto simp: map_of_update split: if_splits)
  qed simp
  then show ?thesis using assms that by (force simp: containerTargets_def)
qed

lemma containerTargets_distinct:
  assumes "distinct (map ContainerName cs)"
  shows "map_of (containerTargets cs) name =
    (case map_of (workloadTargets cs) name of Some t \<Rightarrow> if t = [] then None else Some t | None \<Rightarrow> None)"
proof -
  let ?f = "\<lambda>out c. if Target c \<noteq> [] then AList.update (ContainerName c) (Target c) out else out"
  let ?g = "\<lambda>out c. AList.update (ContainerName c) (Target c) out"
  have "map_of (foldl ?f o1 cs) name =
      (case map_of (foldl ?g o2 cs) name of Some t \<Rightarrow> if t = [] then None else Some t | None \<Rightarrow> None)"
    if "name \<notin> ContainerName ` set cs \<Longrightarrow> map_of o1 name =
        (case map_of o2 name of Some t \<Rightarrow> if t = [] then None else Some t | None \<Rightarrow> None)"
      "name \<in> ContainerName ` set cs \<Longrightarrow> map_of o1 name = None" for o1 o2
    using assms that
  proof (induction cs arbitrary: o1 o2)
    case (Cons c cs)
    show ?case unfolding foldl_Cons
    proof (rule Cons.IH)
      have c: "ContainerName c \<notin> ContainerName ` set cs" using Cons.prems(1) by simp
      show "distinct (map ContainerName cs)" using Cons.prems(1) by simp
      show "map_of (?f o1 c) name = (case map_of (?g o2 c) name of Some t \<Rightarrow> if t = [] then None else Some t | None \<Rightarrow> None)"
        if "name \<notin> ContainerName ` set cs"
        using Cons.prems(2,3) that by (auto simp: map_of_update split: option.splits)
      show "map_of (?f o1 c) name = None" if "name \<in> ContainerName ` set cs"
        using Cons.prems(3) that c by (cases "name = ContainerName c") (auto simp: map_of_update)
    qed
  qed simp
  from this [of "[]" "[]"] show ?thesis by (simp add: containerTargets_def workloadTargets_def)
qed

lemma recommendationIn_SomeD:
  "recommendationIn d recs = Some out \<Longrightarrow> \<exists>rec \<in> set recs. Workload rec = d \<and> out = containerTargets (Containers rec)"
  by (induction recs) (auto simp: Let_def split: if_splits)

lemma recommendationAmong_SomeD:
  "recommendationAmong d drs = Some out \<Longrightarrow> \<exists>dr \<in> set drs. active dr
     \<and> (\<exists>rec \<in> set (Recommendations (Status dr)). Workload rec = d \<and> out = containerTargets (Containers rec))"
  by (induction drs) (auto simp: active_def split: if_splits option.splits dest: recommendationIn_SomeD)

lemma findRecommendation_SomeE:
  assumes "findRecommendation W ns d = Some out"
  obtains items dr rec where "w_listDynamicResources W ns = Inr items" "dr \<in> set items" "active dr"
    "rec \<in> set (Recommendations (Status dr))" "Workload rec = d" "out = containerTargets (Containers rec)"
  using assms by (auto simp: findRecommendation_def split: sum.splits dest: recommendationAmong_SomeD)

section \<open>One container\<close>

definition replaced :: "'q quantity_api \<Rightarrow> 'q rlist \<Rightarrow> 'q container \<Rightarrow> string \<Rightarrow> ('q \<times> 'q) option" where
  \<comment> \<open>the old and the new request of a resource that \<open>applyTarget\<close> replaces\<close>
  "replaced Q t c n =
     (if n = ResourceCPU \<or> n = ResourceMemory then
        (case (map_of (Requests c) n, map_of t n) of
           (Some r, Some r') \<Rightarrow> if q_isZero Q r then None else Some (r, r')
         | _ \<Rightarrow> None)
      else None)"

definition newLimit :: "'q quantity_api \<Rightarrow> 'q \<Rightarrow> 'q \<Rightarrow> 'q \<Rightarrow> 'q" where
  "newLimit Q r r' l = (if q_cmp Q l r = 0 then r' else scaledLimit Q r' l r)"

lemma applyResource_lookups:
  "map_of (Requests (applyResource Q t name c)) n =
     (case (if n = name then replaced Q t c n else None) of Some (r, r') \<Rightarrow> Some r' | None \<Rightarrow> map_of (Requests c) n)"
  "map_of (Limits (applyResource Q t name c)) n =
     (case (if n = name then replaced Q t c n else None) of
        Some (r, r') \<Rightarrow> map_option (newLimit Q r r') (map_of (Limits c) n) | None \<Rightarrow> map_of (Limits c) n)"
  "c_Name (applyResource Q t name c) = c_Name c"
  if "name = ResourceCPU \<or> name = ResourceMemory"
  using that by (auto simp: applyResource_def replaced_def newLimit_def map_of_update split: option.splits)

lemma applyTarget_lookups:
  "map_of (Requests (applyTarget Q t c)) n =
     (case replaced Q t c n of Some (r, r') \<Rightarrow> Some r' | None \<Rightarrow> map_of (Requests c) n)"
  "map_of (Limits (applyTarget Q t c)) n =
     (case replaced Q t c n of
        Some (r, r') \<Rightarrow> map_option (newLimit Q r r') (map_of (Limits c) n) | None \<Rightarrow> map_of (Limits c) n)"
  "c_Name (applyTarget Q t c) = c_Name c"
proof -
  let ?c = "applyResource Q t ResourceCPU c"
  have e: "applyTarget Q t c = applyResource Q t ResourceMemory ?c" by (simp add: applyTarget_def)
  have "replaced Q t ?c ResourceMemory = replaced Q t c ResourceMemory"
    by (simp add: replaced_def applyResource_lookups)
  moreover have "replaced Q t c n = None" if "n \<noteq> ResourceCPU" "n \<noteq> ResourceMemory"
    using that by (simp add: replaced_def)
  ultimately show "map_of (Requests (applyTarget Q t c)) n =
      (case replaced Q t c n of Some (r, r') \<Rightarrow> Some r' | None \<Rightarrow> map_of (Requests c) n)"
    "map_of (Limits (applyTarget Q t c)) n =
      (case replaced Q t c n of
        Some (r, r') \<Rightarrow> map_option (newLimit Q r r') (map_of (Limits c) n) | None \<Rightarrow> map_of (Limits c) n)"
    "c_Name (applyTarget Q t c) = c_Name c"
    unfolding e by (auto simp: applyResource_lookups split: option.splits)
qed

lemma replaced_SomeD:
  "replaced Q t c n = Some (r, r') \<Longrightarrow>
     map_of (Requests c) n = Some r \<and> map_of t n = Some r' \<and> \<not> q_isZero Q r \<and> (n = ResourceCPU \<or> n = ResourceMemory)"
  by (auto simp: replaced_def split: if_splits option.splits)

lemma injectContainer_name [simp]: "c_Name (injectContainer Q rec c) = c_Name c"
  by (simp add: injectContainer_def applyTarget_lookups(3) split: option.split)

lemma injectContainer_cases:
  obtains "injectContainer Q rec c = c"
  | t where "map_of rec (c_Name c) = Some t" "Requests c \<noteq> []" "injectContainer Q rec c = applyTarget Q t c"
  by (cases "map_of rec (c_Name c)"; cases "Requests c = []") (auto simp: injectContainer_def)

section \<open>The Pod\<close>

lemma Default_cases:
  obtains "Default Q W np = np"
  | d rec where "owningDeployment W (np_Namespace np) (np_OwnerReferences np) = Inr d" "d \<noteq> []"
      "findRecommendation W (np_Namespace np) d = Some rec"
      "Default Q W np =
         np\<lparr>np_Pod := (np_Pod np)\<lparr>PodContainers := map (injectContainer Q rec) (PodContainers (np_Pod np))\<rparr>\<rparr>"
proof (cases "Default Q W np = np")
  case False
  then show ?thesis using that(2) by (auto simp: Default_def split: sum.splits if_splits option.splits)
qed (use that(1) in blast)

section \<open>Planning for an injected container\<close>

lemma withinTolerance_refl:
  assumes "in_i64 x" "f_le (Fin 0) tol"
  shows "withinTolerance x x tol"
proof (cases "x = 0")
  case False
  have f: "f_of_i64 x = Fin (rnd (of_int x))" by (rule f_of_i64_Fin [OF assms(1)])
  have "f_of_i64 0 = Fin 0" using f_of_i64_exact [of 0] by simp
  have "rnd (of_int x) \<noteq> (0::rat)"
  proof (cases "0 < x")
    case True
    then have "(of_int 1 :: rat) \<le> of_int x" by (simp only: of_int_le_iff)
    then have "(1::rat) \<le> rnd (of_int x)" using rnd_ge_iff_f64 [OF is_f64_int [of 1]] by simp
    then show ?thesis by simp
  next
    case neg: False
    then have "x \<le> - 1" using False by simp
    then have "(of_int x :: rat) \<le> of_int (- 1)" by (simp only: of_int_le_iff)
    then have "rnd (of_int x) \<le> (- 1::rat)" using rnd_le_iff_f64 [OF is_f64_int [of "- 1"]] by simp
    then show ?thesis by simp
  qed
  then show ?thesis
    using \<open>f_of_i64 0 = Fin 0\<close> f assms(2) False
    by (simp add: withinTolerance_def round64_Fin half_limit_less less_imp_le wrap64_id in_i64_zero)
qed (simp add: withinTolerance_def)

context quantity_laws
begin

lemma zero_isZero: "q_isZero Q (q_zero Q)"
  by (simp add: isZero_iff zero_val)

lemma injected_not_planned:
  assumes tol: "f_le (Fin 0) (Tolerance p)" and t: "map_of rec (c_Name c) = Some t"
  shows "planContainer Q (injectContainer Q rec c) t p g = (None, False)"
proof (cases "Requests c = []")
  case True
  then show ?thesis by (simp add: injectContainer_def t planContainer_def zero_isZero)
next
  case False
  let ?c = "applyTarget Q t c"
  have e: "injectContainer Q rec c = ?c" using False by (simp add: injectContainer_def t)
  show ?thesis
  proof (cases "has_size Q (Requests ?c) \<and> has_size Q t")
    case True
    have "map_zero (q_zero Q) (Requests ?c) n = map_zero (q_zero Q) t n"
      if n: "n = ResourceCPU \<or> n = ResourceMemory" for n
    proof -
      have z: "\<not> q_isZero Q (map_zero (q_zero Q) (Requests ?c) n)" "\<not> q_isZero Q (map_zero (q_zero Q) t n)"
        using True n by (auto simp: has_size_def)
      then obtain v where v: "map_of t n = Some v" using zero_isZero by (cases "map_of t n") auto
      show ?thesis
      proof (cases "replaced Q t c n")
        case None
        then have "map_of (Requests ?c) n = map_of (Requests c) n" by (simp add: applyTarget_lookups)
        then have "q_isZero Q (map_zero (q_zero Q) (Requests ?c) n)"
          using None n v zero_isZero by (cases "map_of (Requests c) n") (auto simp: replaced_def split: if_splits)
        then show ?thesis using z by simp
      next
        case (Some rr)
        then have "map_of (Requests ?c) n = map_of t n"
          using replaced_SomeD [of Q t c n] by (cases rr) (simp add: applyTarget_lookups)
        then show ?thesis by (simp add: map_zero_def)
      qed
    qed
    then show ?thesis unfolding e
      by (intro planContainer_tolerance) (simp_all add: withinTolerance_refl tol milli_in value_in)
  next
    case False
    then show ?thesis unfolding e by (auto simp: planContainer_def has_size_def Let_def)
  qed
qed

end

section \<open>The scaled limit\<close>

lemma rnd_between:
  assumes "1 / 2000 \<le> x"
  shows "x * (1 - 1 / 2 ^ 53) \<le> rnd x" "rnd x \<le> x * (1 + 1 / 2 ^ 53)"
proof -
  have "(2::rat) powi (- 1022) \<le> 2 powi (- 11)" by (rule two_powi_mono) simp
  also have "\<dots> = 1 / 2048" by (simp add: power_int_minus)
  finally have "2 powi (- 1022) \<le> \<bar>x\<bar>" using assms by linarith
  then have "\<bar>rnd x - x\<bar> \<le> x / 2 ^ 53" using rnd_rel_error [of x] assms by simp
  then have "x - x / 2 ^ 53 \<le> rnd x" "rnd x \<le> x + x / 2 ^ 53" unfolding abs_le_iff by linarith+
  then show "x * (1 - 1 / 2 ^ 53) \<le> rnd x" "rnd x \<le> x * (1 + 1 / 2 ^ 53)" by (simp_all add: algebra_simps)
qed

lemma rel_pos: "0 < x \<Longrightarrow> x * (1 - 1 / 2 ^ 50) \<le> y \<Longrightarrow> 0 < (y::rat)"
  by (rule less_le_trans [of _ "x * (1 - 1 / 2 ^ 50)"]) simp_all

lemma scaled_ratio:
  fixes N :: rat
  assumes N: "1 / 1000 \<le> N" and R: "1 / 1000 \<le> R" and L: "R * (1 + 1 / 2 ^ 46) \<le> L"
    and big: "1000 * (N * (L / R)) \<le> 2 ^ 62"
    and an: "N * (1 - 1 / 2 ^ 50) \<le> an" "an \<le> N * (1 + 1 / 2 ^ 50)"
    and al: "L * (1 - 1 / 2 ^ 50) \<le> al" "al \<le> L * (1 + 1 / 2 ^ 50)"
    and ar: "R * (1 - 1 / 2 ^ 50) \<le> ar" "ar \<le> R * (1 + 1 / 2 ^ 50)"
  defines "q \<equiv> rnd (al / ar)" and "p \<equiv> rnd (an * rnd (al / ar))"
  shows "0 < ar" "0 < al / ar" "al / ar \<le> 2 * (L / R)" "0 < an * q" "1000 * (an * q) \<le> 2 ^ 63"
    "0 < p * 1000" "p * 1000 \<le> 2 ^ 63" "1000 * N \<le> rnd (p * 1000)" "rnd (p * 1000) < 2 ^ 63"
proof -
  let ?B = "(1 + 1 / 2 ^ 46) * (1 - 1 / 2 ^ 50) / (1 + 1 / 2 ^ 50) * (1 - 1 / 2 ^ 53) :: rat"
  have R0: "0 < R" using R by linarith
  have N0: "0 < N" using N by linarith
  have "R * 1 \<le> R * (1 + 1 / 2 ^ 46)" using R0 by (intro mult_left_mono) simp_all
  then have LR: "R \<le> L" using L by simp
  then have L0: "0 < L" using R0 by simp
  show ar0: "0 < ar" by (rule rel_pos [OF R0 ar(1)])
  have an0: "0 < an" by (rule rel_pos [OF N0 an(1)])
  have al0: "0 < al" by (rule rel_pos [OF L0 al(1)])
  have "R * (1 + 1 / 2 ^ 46) * (1 - 1 / 2 ^ 50) / (R * (1 + 1 / 2 ^ 50)) \<le> L * (1 - 1 / 2 ^ 50) / (R * (1 + 1 / 2 ^ 50))"
    using L R0 by (intro divide_right_mono mult_right_mono) simp_all
  also have "\<dots> \<le> al / ar"
    using al(1) ar(2) ar0 al0 by (intro frac_le) simp_all
  finally have q0: "(1 + 1 / 2 ^ 46) * (1 - 1 / 2 ^ 50) / (1 + 1 / 2 ^ 50) \<le> al / ar"
    using R0 by (simp add: mult.assoc)
  have one: "(1::rat) \<le> (1 + 1 / 2 ^ 46) * (1 - 1 / 2 ^ 50) / (1 + 1 / 2 ^ 50)" by simp
  have q01: "1 \<le> al / ar" using one q0 by (rule order_trans)
  have h: "1 / 2000 \<le> al / ar" using q01 by linarith
  have qB: "?B \<le> q"
  proof -
    have "?B \<le> al / ar * (1 - 1 / 2 ^ 53)" using q0 by (intro mult_right_mono) simp_all
    then show ?thesis unfolding q_def using rnd_between(1) [OF h] by linarith
  qed
  have B1: "1 \<le> ?B" by simp
  show "0 < al / ar" using q01 by linarith
  have q1: "1 \<le> q" using B1 qB by (rule order_trans)
  have "al / ar \<le> L * (1 + 1 / 2 ^ 50) / (R * (1 - 1 / 2 ^ 50))"
    using al(2) ar(1) R0 L0 by (intro frac_le) simp_all
  also have "\<dots> = L / R * ((1 + 1 / 2 ^ 50) / (1 - 1 / 2 ^ 50))" by (simp add: field_simps)
  finally have aL: "al / ar \<le> L / R * ((1 + 1 / 2 ^ 50) / (1 - 1 / 2 ^ 50))" .
  then have "al / ar * (1 + 1 / 2 ^ 53) \<le> L / R * ((1 + 1 / 2 ^ 50) / (1 - 1 / 2 ^ 50)) * (1 + 1 / 2 ^ 53)"
    by (intro mult_right_mono) simp_all
  then have qL: "q \<le> L / R * ((1 + 1 / 2 ^ 50) / (1 - 1 / 2 ^ 50) * (1 + 1 / 2 ^ 53))"
    using rnd_between(2) [OF h] by (simp add: q_def mult.assoc)
  have "L / R * ((1 + 1 / 2 ^ 50) / (1 - 1 / 2 ^ 50) * (1 + 1 / 2 ^ 53)) \<le> L / R * (5 / 4)"
    using L0 R0 by (intro mult_left_mono) simp_all
  then have q54: "q \<le> L / R * (5 / 4)" using qL by linarith
  have "L / R * ((1 + 1 / 2 ^ 50) / (1 - 1 / 2 ^ 50)) \<le> L / R * 2"
    using L0 R0 by (intro mult_left_mono) simp_all
  with aL have "al / ar \<le> L / R * 2" by (rule order_trans)
  then show "al / ar \<le> 2 * (L / R)" by (simp only: mult.commute)
  have lo: "N * (1 - 1 / 2 ^ 50) * ?B \<le> an * q"
    using an(1) qB an0 B1 by (intro mult_mono) simp_all
  have "1 / 1000 * (1 - 1 / 2 ^ 50) * ?B \<le> N * (1 - 1 / 2 ^ 50) * ?B"
    using N by (intro mult_right_mono) simp_all
  moreover have "(1::rat) / 2000 \<le> 1 / 1000 * (1 - 1 / 2 ^ 50) * ?B" by simp
  ultimately have h2: "1 / 2000 \<le> an * q" using lo by linarith
  have p: "p = rnd (an * q)" by (simp add: p_def q_def)
  have "N * (1 - 1 / 2 ^ 50) * ?B * (1 - 1 / 2 ^ 53) \<le> an * q * (1 - 1 / 2 ^ 53)"
    using lo by (intro mult_right_mono) simp_all
  then have pl: "N * ((1 - 1 / 2 ^ 50) * ?B * (1 - 1 / 2 ^ 53)) \<le> p"
    using rnd_between(1) [OF h2] unfolding p by (simp add: mult.assoc)
  have "N * (9 / 10) \<le> N * ((1 - 1 / 2 ^ 50) * ?B * (1 - 1 / 2 ^ 53))"
    using N0 by (intro mult_left_mono) simp_all
  then have p9: "N * (9 / 10) \<le> p" using pl by linarith
  have h3: "1 / 2000 \<le> p * 1000" using p9 N by linarith
  then show "0 < p * 1000" by linarith
  show "0 < an * q" using h2 by linarith
  have "N * ((1 - 1 / 2 ^ 50) * ?B * (1 - 1 / 2 ^ 53)) * 1000 * (1 - 1 / 2 ^ 53) \<le> p * 1000 * (1 - 1 / 2 ^ 53)"
    using pl by (intro mult_right_mono) simp_all
  moreover have "1000 * N * 1 \<le> 1000 * N * ((1 - 1 / 2 ^ 50) * ?B * (1 - 1 / 2 ^ 53) * (1 - 1 / 2 ^ 53))"
    using N0 by (intro mult_left_mono) simp_all
  ultimately show "1000 * N \<le> rnd (p * 1000)"
    using rnd_between(1) [OF h3] by (simp only: mult_1_right mult.assoc mult.commute mult.left_commute)
  have "an * q \<le> N * (1 + 1 / 2 ^ 50) * (L / R * (5 / 4))"
    using an(2) q54 N0 q1 by (intro mult_mono) simp_all
  also have "\<dots> = N * (L / R) * ((1 + 1 / 2 ^ 50) * (5 / 4))" by (simp only: mult_ac)
  also have "\<dots> \<le> N * (L / R) * (3 / 2)"
    using N0 L0 R0 by (intro mult_left_mono) simp_all
  finally have "1000 * (an * q) \<le> 1000 * (N * (L / R) * (3 / 2))" by (rule mult_left_mono) simp
  also have "\<dots> = 1000 * (N * (L / R)) * (3 / 2)" by (simp only: mult_ac)
  also have "\<dots> \<le> 2 ^ 62 * (3 / 2)" using big by (rule mult_right_mono) simp
  finally have u: "1000 * (an * q) \<le> 3 / 2 * 2 ^ 62" by simp
  then show "1000 * (an * q) \<le> 2 ^ 63" by simp
  have "1000 * (an * q) * (1 + 1 / 2 ^ 53) \<le> 3 / 2 * 2 ^ 62 * (1 + 1 / 2 ^ 53)"
    using u by (intro mult_right_mono) simp_all
  then have p32: "p * 1000 \<le> 3 / 2 * 2 ^ 62 * (1 + 1 / 2 ^ 53)"
    using rnd_between(2) [OF h2] unfolding p by linarith
  then show "p * 1000 \<le> 2 ^ 63" by simp
  have "p * 1000 * (1 + 1 / 2 ^ 53) \<le> 3 / 2 * 2 ^ 62 * (1 + 1 / 2 ^ 53) * (1 + 1 / 2 ^ 53)"
    using p32 by (intro mult_right_mono) simp_all
  also have "\<dots> < (2::rat) ^ 63" by simp
  finally show "rnd (p * 1000) < 2 ^ 63" using rnd_between(2) [OF h3] by linarith
qed

locale approx_laws = quantity_laws Q qv for Q :: "'q quantity_api" and qv +
  assumes approx_val: "1 / 1000 \<le> qv a \<Longrightarrow> qv a \<le> 2 ^ 62 \<Longrightarrow>
    \<exists>x. q_approx Q a = Fin x \<and> \<bar>x - qv a\<bar> \<le> qv a / 2 ^ 50"
begin

lemma approx_bounds:
  assumes "1 / 1000 \<le> qv a" "qv a \<le> 2 ^ 62"
  obtains x where "q_approx Q a = Fin x" "qv a * (1 - 1 / 2 ^ 50) \<le> x" "x \<le> qv a * (1 + 1 / 2 ^ 50)"
proof -
  obtain x where x: "q_approx Q a = Fin x" "\<bar>x - qv a\<bar> \<le> qv a / 2 ^ 50" using approx_val [OF assms] by blast
  have "qv a * (1 - 1 / 2 ^ 50) = qv a - qv a / 2 ^ 50" "qv a * (1 + 1 / 2 ^ 50) = qv a + qv a / 2 ^ 50"
    by (simp_all add: algebra_simps)
  moreover have "qv a - qv a / 2 ^ 50 \<le> x" "x \<le> qv a + qv a / 2 ^ 50"
    using x(2) unfolding abs_le_iff by linarith+
  ultimately show ?thesis using that [OF x(1)] by simp
qed

lemma scaledLimit_ge:
  assumes n: "1 / 1000 \<le> qv n" "qv n \<le> 2 ^ 62" "qv n * 1000 = of_int k"
    and r: "1 / 1000 \<le> qv r" "qv r * (1 + 1 / 2 ^ 46) \<le> qv l" and l: "qv l \<le> 2 ^ 62"
    and big: "1000 * (qv n * (qv l / qv r)) \<le> 2 ^ 62"
  shows "qv n \<le> qv (scaledLimit Q n l r)"
proof -
  have r0: "0 < qv r" using r(1) by linarith
  have "qv r * 1 \<le> qv r * (1 + 1 / 2 ^ 46)" using r0 by (intro mult_left_mono) simp_all
  then have rl: "qv r \<le> qv l" using r(2) by simp
  obtain an where an: "q_approx Q n = Fin an" "qv n * (1 - 1 / 2 ^ 50) \<le> an" "an \<le> qv n * (1 + 1 / 2 ^ 50)"
    by (rule approx_bounds [OF n(1,2)])
  obtain al where al: "q_approx Q l = Fin al" "qv l * (1 - 1 / 2 ^ 50) \<le> al" "al \<le> qv l * (1 + 1 / 2 ^ 50)"
    by (rule approx_bounds [OF order_trans [OF r(1) rl] l])
  obtain ar where ar: "q_approx Q r = Fin ar" "qv r * (1 - 1 / 2 ^ 50) \<le> ar" "ar \<le> qv r * (1 + 1 / 2 ^ 50)"
    by (rule approx_bounds [OF r(1) order_trans [OF rl l]])
  note S = scaled_ratio [OF n(1) r big an(2,3) al(2,3) ar(2,3)]
  have "1 * qv l \<le> 1000 * qv r * qv l" using r(1) rl r0 by (intro mult_right_mono) simp_all
  then have "qv l / qv r \<le> 1000 * qv l" using r0 by (simp add: divide_le_eq mult_ac)
  then have b1: "al / ar \<le> 2 ^ 200" using S(3) l by simp
  have f1: "f_div (Fin al) (Fin ar) = Fin (rnd (al / ar))"
    using S(1,2) b1 by (simp add: round64_Fin le_half_limit)
  have f2: "f_mul (Fin an) (Fin (rnd (al / ar))) = Fin (rnd (an * rnd (al / ar)))"
    using S(4,5) by (simp add: round64_Fin le_half_limit)
  have f3: "f_mul (Fin (rnd (an * rnd (al / ar)))) (Fin 1000) = Fin (rnd (rnd (an * rnd (al / ar)) * 1000))"
    using S(6,7) by (simp add: round64_Fin le_half_limit)
  let ?s = "rnd (rnd (an * rnd (al / ar)) * 1000)"
  have s0: "0 \<le> ?s" using S(8) n(1) by linarith
  have e: "scaledLimit Q n l r = q_newMilli Q \<lfloor>?s\<rfloor> (q_format Q l)"
    unfolding scaledLimit_def Let_def an(1) al(1) ar(1) f1 f2 f3 using i64_of_f_Fin [OF s0 S(9)] by simp
  have "in_i64 \<lfloor>?s\<rfloor>" using s0 S(9) by (auto simp: in_i64_def floor_less_iff le_floor_iff)
  moreover have "k \<le> \<lfloor>?s\<rfloor>" using S(8) n(3) by (simp add: le_floor_iff mult.commute)
  then have "(of_int k :: rat) \<le> of_int \<lfloor>?s\<rfloor>" by (simp only: of_int_le_iff)
  ultimately show ?thesis using n(3) by (simp add: e newMilli_val)
qed

end

interpretation exa: approx_laws exact_api fst
proof unfold_locales
  fix a :: exact_q assume a: "1 / 1000 \<le> fst a" "fst a \<le> 2 ^ 62"
  have "(2::rat) powi (- 1022) \<le> 2 powi (- 10)" by (rule two_powi_mono) simp
  also have "\<dots> = 1 / 1024" by (simp add: power_int_minus)
  finally have "2 powi (- 1022) \<le> \<bar>fst a\<bar>" using a by linarith
  then have "\<bar>rnd (fst a) - fst a\<bar> \<le> fst a / 2 ^ 53" using rnd_rel_error [of "fst a"] a by simp
  moreover have "fst a / 2 ^ 53 \<le> fst a / 2 ^ 50" using a by (intro divide_left_mono) simp_all
  moreover have "round64 (fst a) = Fin (rnd (fst a))" using a by (intro round64_Fin le_half_limit) simp
  ultimately show "\<exists>x. q_approx exact_api a = Fin x \<and> \<bar>x - fst a\<bar> \<le> fst a / 2 ^ 50" by force
qed

section \<open>QoS and limits of an injected container\<close>

lemma AList_update_not_Nil: "AList.update k v m \<noteq> []"
  by (cases m) auto

lemma injectContainer_empty: "Requests (injectContainer Q rec c) = [] \<longleftrightarrow> Requests c = []"
  by (auto simp: injectContainer_def applyTarget_def applyResource_def Let_def AList_update_not_Nil split: option.splits)

definition scalable :: "('q \<Rightarrow> rat) \<Rightarrow> 'q \<Rightarrow> 'q \<Rightarrow> 'q \<Rightarrow> bool" where
  \<comment> \<open>the old request, the new request and the old limit leave room for the float64 computation\<close>
  "scalable qv r r' l \<longleftrightarrow>
     1 / 1000 \<le> qv r \<and> 1 / 1000 \<le> qv r' \<and> qv r' \<le> 2 ^ 62 \<and> qv r' * 1000 = of_int \<lfloor>qv r' * 1000\<rfloor> \<and> qv l \<le> 2 ^ 62
   \<and> (qv l = qv r \<or> qv r * (1 + 1 / 2 ^ 46) \<le> qv l) \<and> 1000 * (qv r' * (qv l / qv r)) \<le> 2 ^ 62"

context quantity_laws
begin

lemma injectContainer_guaranteed: "guaranteed_for Q c n \<Longrightarrow> guaranteed_for Q (injectContainer Q rec c) n"
  by (rule injectContainer_cases [of Q rec c])
    (auto simp: guaranteed_for_def applyTarget_lookups newLimit_def cmp_zero_iff split: option.splits dest: replaced_SomeD)

end

context approx_laws
begin

lemma applyTarget_below_limit:
  assumes "request_below_limit qv n c"
    and s: "\<And>r r' l. replaced Q t c n = Some (r, r') \<Longrightarrow> map_of (Limits c) n = Some l \<Longrightarrow> scalable qv r r' l"
  shows "request_below_limit qv n (applyTarget Q t c)"
proof (cases "replaced Q t c n")
  case None
  then show ?thesis using assms(1) by (simp add: request_below_limit_def applyTarget_lookups)
next
  case (Some rr)
  obtain r r' where rr: "replaced Q t c n = Some (r, r')" using Some by (cases rr) simp
  have "qv r' \<le> qv (newLimit Q r r' l)" if "map_of (Limits c) n = Some l" for l
  proof (cases "qv l = qv r")
    case False
    have "qv r' \<le> qv (scaledLimit Q r' l r)"
      by (rule scaledLimit_ge [where k = "\<lfloor>qv r' * 1000\<rfloor>"])
        (use s [OF rr that, unfolded scalable_def] False in blast)+
    moreover have "q_cmp Q l r \<noteq> 0" using False by (simp add: cmp_zero_iff)
    ultimately show ?thesis by (simp add: newLimit_def)
  qed (simp add: newLimit_def cmp_zero_iff)
  then show ?thesis by (simp add: request_below_limit_def applyTarget_lookups rr split: option.split)
qed

end

end
