(* ===== verification/WebhookTheorems.thy ===== *)
theory WebhookTheorems
  imports WebhookProps PlanExamples ActuationTheorems
begin

text \<open>
  The properties of the Pod webhook: what it may change and on whose authority, the QoS class and the
  limits of the Pod it hands back, that the Pod it made needs no resize, and how the Deployment is
  found from the name of a ReplicaSet that cannot be read.
\<close>

section \<open>A new Pod\<close>

definition ex_webhook :: "(exact_q, string) webhook" where
  \<comment> \<open>the ReplicaSet cannot be read\<close>
  "ex_webhook = \<lparr>w_getReplicaSet = (\<lambda>_ _. Inl ''not found''), w_listDynamicResources = (\<lambda>_. Inr [ex_dr])\<rparr>"

definition ex_new_pod :: "exact_q pod \<Rightarrow> exact_q new_pod" where
  "ex_new_pod pod = \<lparr>np_Namespace = ''prod'',
     np_OwnerReferences = [\<lparr>or_Kind = ''ReplicaSet'', or_Name = ''web-5d4f''\<rparr>], np_Pod = pod\<lparr>QOSClass := QOSUnset\<rparr>\<rparr>"

definition ex_found :: "(string, exact_q rlist) gomap" where
  "ex_found = [(''app'', [(ResourceCPU, mq 500), (ResourceMemory, bq 52428800)])]"

lemma ex_owner: "owningDeployment ex_webhook ''prod'' [\<lparr>or_Kind = ''ReplicaSet'', or_Name = ''web-5d4f''\<rparr>] = Inr ''web''"
  by code_simp

lemma ex_find: "findRecommendation ex_webhook ''prod'' ''web'' = Some ex_found"
  by code_simp

lemma ex_Default:
  "PodContainers (np_Pod (Default exact_api ex_webhook (ex_new_pod ex_pod))) =
     [\<lparr>c_Name = ''app'', Requests = [(ResourceCPU, mq 500), (ResourceMemory, bq 52428800)],
       Limits = [(ResourceCPU, mq 1000), (ResourceMemory, (104857600, BinarySI))]\<rparr>]"
  by code_simp

section \<open>Properties\<close>

definition drawn_from :: "'q rlist \<Rightarrow> 'q container \<Rightarrow> 'q container \<Rightarrow> bool" where
  \<comment> \<open>nothing is added or removed, and every changed request is that of the target\<close>
  "drawn_from t c c' \<longleftrightarrow> c_Name c' = c_Name c \<and> dom (map_of (Requests c')) = dom (map_of (Requests c))
     \<and> dom (map_of (Limits c')) = dom (map_of (Limits c))
     \<and> (\<forall>n. map_of (Requests c') n = map_of (Requests c) n \<or> map_of (Requests c') n = map_of t n)"

lemma applyTarget_drawn: "drawn_from t c (applyTarget Q t c)"
  unfolding drawn_from_def
  by (auto simp: applyTarget_lookups dom_def split: option.splits dest: replaced_SomeD)


text \<open>C16. A Pod is born right: once the webhook has given a new Pod the recommendation of its Deployment,
  planning for that Pod against the recommendation that the reconciler publishes for the workload plans
  no resize, under every policy.\<close>

theorem webhook_pod_needs_no_resize:
  assumes "quantity_laws Q qv" "f_le (Fin 0) (Tolerance p)"
    and "owningDeployment W (np_Namespace np) (np_OwnerReferences np) = Inr d" "d \<noteq> []"
    and "w_listDynamicResources W (np_Namespace np) = Inr items" "findRecommendation W (np_Namespace np) d \<noteq> None"
    and "\<And>dr rec. dr \<in> set items \<Longrightarrow> rec \<in> set (Recommendations (Status dr)) \<Longrightarrow> distinct (map ContainerName (Containers rec))"
  shows "\<exists>dr \<in> set items. \<exists>rec \<in> set (Recommendations (Status dr)). active dr \<and> Workload rec = d
    \<and> PlanPod Q (np_Pod (Default Q W np)) (workloadTargets (Containers rec)) p = None"
proof -
  obtain found where f: "findRecommendation W (np_Namespace np) d = Some found" using assms(6) by blast
  obtain dr rec where r: "dr \<in> set items" "active dr" "rec \<in> set (Recommendations (Status dr))" "Workload rec = d"
    "found = containerTargets (Containers rec)"
    using findRecommendation_SomeE [OF f] assms(5) by (metis sum.inject(2))
  let ?ts = "workloadTargets (Containers rec)"
  have e: "PodContainers (np_Pod (Default Q W np)) = map (injectContainer Q found) (PodContainers (np_Pod np))"
    using assms(3,4) f by (simp add: Default_def)
  have "planContainer Q (injectContainer Q found c) t p g = (None, False)"
    if "map_of ?ts (c_Name c) = Some t" for c t g
  proof (cases "t = []")
    case True
    then show ?thesis by (simp add: planContainer_def Let_def quantity_laws.zero_isZero [OF assms(1)])
  next
    case False
    then have "map_of found (c_Name c) = Some t"
      using that containerTargets_distinct [OF assms(7) [OF r(1,3)], of "c_Name c"] by (simp add: r(5))
    then show ?thesis by (rule quantity_laws.injected_not_planned [OF assms(1,2)])
  qed
  then have "fst (planned Q ?ts p g c') = None" if "c' \<in> set (PodContainers (np_Pod (Default Q W np)))" for c' g
    using that unfolding e by (auto simp: planned_def split: option.split)
  then have "PlanPod Q (np_Pod (Default Q W np)) ?ts p = None"
    by (auto simp: PlanPod_eq map_filter_Nil_iff)
  then show ?thesis using r by blast
qed

theorem webhook_pod_needs_no_resize_witness:
  "\<exists>dr \<in> set [ex_dr]. \<exists>rec \<in> set (Recommendations (Status dr)). active dr \<and> Workload rec = ''web''
    \<and> PlanPod exact_api (np_Pod (Default exact_api ex_webhook (ex_new_pod ex_pod))) (workloadTargets (Containers rec)) ex_policy = None"
  by (rule webhook_pod_needs_no_resize [OF exq.quantity_laws_axioms])
    (simp_all add: ex_policy_def ex_new_pod_def ex_owner ex_find, simp_all add: ex_webhook_def ex_dr_def ex_status_def f64_tenth_val)

text \<open>C19. The QoS class survives admission: a Pod whose containers make it Guaranteed or BestEffort has the
  same class after the webhook, so that a Guaranteed Pod keeps limits equal to requests and a
  BestEffort Pod is never given requests.\<close>

theorem webhook_keeps_qos:
  assumes "quantity_laws Q qv" "qosClass Q (np_Pod np) = PodQOSGuaranteed \<or> qosClass Q (np_Pod np) = PodQOSBestEffort"
  shows "qosClass Q (np_Pod (Default Q W np)) = qosClass Q (np_Pod np)"
proof (rule Default_cases [of Q W np])
  fix d rec assume e: "Default Q W np =
      np\<lparr>np_Pod := (np_Pod np)\<lparr>PodContainers := map (injectContainer Q rec) (PodContainers (np_Pod np))\<rparr>\<rparr>"
  have empty: "Requests (injectContainer Q rec c) = [] \<longleftrightarrow> Requests c = []" for c by (rule injectContainer_empty)
  have "guaranteed_for Q (injectContainer Q rec c) n" if "guaranteed_for Q c n" for c n
    using quantity_laws.injectContainer_guaranteed [OF assms(1) that] .
  then show ?thesis using assms(2) unfolding e
    by (auto simp: qosClass_def list_all_iff list_ex_iff empty split: if_splits)
qed simp

theorem webhook_keeps_qos_witness:
  "qosClass exact_api (np_Pod (Default exact_api ex_webhook (ex_new_pod ex_gpod))) = PodQOSGuaranteed"
proof -
  have "qosClass exact_api (np_Pod (ex_new_pod ex_gpod)) = PodQOSGuaranteed" by code_simp
  then show ?thesis using webhook_keeps_qos [OF exq.quantity_laws_axioms, of "ex_new_pod ex_gpod" ex_webhook] by simp
qed

text \<open>C23. The API server accepts what the webhook returns: when no request of the new Pod exceeds its
  limit, none does afterwards, the float64 computation of the scaled limit included. The sizes are
  bounded: every replaced request and its limit lie between a thousandth and \<open>2^62\<close>, the limit equals
  the request or exceeds it by one part in \<open>2^46\<close>, the target is a multiple of a thousandth, and the
  new limit stays below \<open>2^62\<close> thousandths.\<close>

theorem webhook_requests_within_limits:
  assumes "approx_laws Q qv"
    and "list_all (\<lambda>c. request_below_limit qv ResourceCPU c \<and> request_below_limit qv ResourceMemory c) (PodContainers (np_Pod np))"
    and "\<And>d rec c t n r r' l. findRecommendation W (np_Namespace np) d = Some rec \<Longrightarrow> c \<in> set (PodContainers (np_Pod np)) \<Longrightarrow>
      map_of rec (c_Name c) = Some t \<Longrightarrow> replaced Q t c n = Some (r, r') \<Longrightarrow> map_of (Limits c) n = Some l \<Longrightarrow>
      scalable qv r r' l"
  shows "list_all (\<lambda>c. request_below_limit qv ResourceCPU c \<and> request_below_limit qv ResourceMemory c)
    (PodContainers (np_Pod (Default Q W np)))"
proof (rule Default_cases [of Q W np])
  assume "Default Q W np = np"
  then show ?thesis using assms(2) by simp
next
  fix d rec assume f: "findRecommendation W (np_Namespace np) d = Some rec"
    and e: "Default Q W np =
      np\<lparr>np_Pod := (np_Pod np)\<lparr>PodContainers := map (injectContainer Q rec) (PodContainers (np_Pod np))\<rparr>\<rparr>"
  have "request_below_limit qv n (injectContainer Q rec c)"
    if "c \<in> set (PodContainers (np_Pod np))" "request_below_limit qv n c" for c n
  proof (rule injectContainer_cases [of Q rec c])
    fix t assume t: "map_of rec (c_Name c) = Some t" "injectContainer Q rec c = applyTarget Q t c"
    show ?thesis unfolding t(2)
      by (rule approx_laws.applyTarget_below_limit [OF assms(1) that(2) assms(3) [OF f that(1) t(1)]])
  qed (use that(2) in simp)
  then show ?thesis using assms(2) unfolding e by (simp add: list_all_iff)
qed

theorem webhook_requests_within_limits_witness:
  "list_all (\<lambda>c. request_below_limit fst ResourceCPU c \<and> request_below_limit fst ResourceMemory c)
    (PodContainers (np_Pod (Default exact_api ex_webhook (ex_new_pod ex_pod))))"
proof (rule webhook_requests_within_limits [OF exa.approx_laws_axioms])
  show "list_all (\<lambda>c. request_below_limit fst ResourceCPU c \<and> request_below_limit fst ResourceMemory c)
    (PodContainers (np_Pod (ex_new_pod ex_pod)))"
    by (simp add: ex_new_pod_def ex_pod_def ex_container_def request_below_limit_def)
next
  fix d rec c t n r r' l
  assume "findRecommendation ex_webhook (np_Namespace (ex_new_pod ex_pod)) d = Some rec"
  then have rec: "rec = ex_found"
    by (auto simp: findRecommendation_def ex_webhook_def ex_dr_def ex_status_def containerTargets_def ex_found_def Let_def
        split: if_splits)
  assume "c \<in> set (PodContainers (np_Pod (ex_new_pod ex_pod)))"
  then have c: "c = ex_container" by (simp add: ex_new_pod_def ex_pod_def)
  assume "map_of rec (c_Name c) = Some t"
  then have t: "t = [(ResourceCPU, mq 500), (ResourceMemory, bq 52428800)]"
    by (simp add: rec c ex_found_def ex_container_def)
  assume "replaced exact_api t c n = Some (r, r')" "map_of (Limits c) n = Some l"
  then show "scalable fst r r' l"
    by (auto simp: replaced_def t c ex_container_def scalable_def split: if_splits)
qed

text \<open>C36. The fallback inverts the naming scheme of ReplicaSets: when the ReplicaSet that owns the Pod cannot
  be read, the Deployment is recovered from its name, which is the name of the Deployment, a hyphen
  and a hash without one, whatever hyphens the name of the Deployment has.\<close>

theorem replicaset_name_roundtrip:
  assumes "CHR ''-'' \<notin> set hash" "w_getReplicaSet W namespace (deploy @ ''-'' @ hash) = Inl err" "deploy \<noteq> []"
  shows "owningDeployment W namespace (\<lparr>or_Kind = ''ReplicaSet'', or_Name = deploy @ ''-'' @ hash\<rparr> # refs) = Inr deploy"
  using assms by (simp add: lastIndex_append)

theorem replicaset_name_roundtrip_witness:
  "owningDeployment ex_webhook ''prod'' [\<lparr>or_Kind = ''ReplicaSet'', or_Name = ''web-5d4f''\<rparr>] = Inr ''web''"
  using replicaset_name_roundtrip [of "''5d4f''" ex_webhook "''prod''" "''web''" "''not found''" "[]"]
  by (simp add: ex_webhook_def)

section \<open>Divergences\<close>

text \<open>The policy RequestsOnly, under which the resizer never touches limits, is not looked at: the webhook
  scales the limits of a new Pod all the same.\<close>

theorem webhook_ignores_requests_only:
  "map_of (Limits (hd (PodContainers (np_Pod (Default exact_api
     (ex_webhook\<lparr>w_listDynamicResources := (\<lambda>_. Inr [ex_dr\<lparr>Spec := ex_spec\<lparr>Resources :=
        (Resources ex_spec)\<lparr>ControlledValues := ControlledValuesRequestsOnly\<rparr>\<rparr>\<rparr>])\<rparr>) (ex_new_pod ex_pod)))))) ResourceCPU
   = Some (mq 1000)"
  by code_simp

text \<open>A DynamicResource in conflict keeps its last recommendations, and the webhook, which looks neither at
  the conditions nor at the age, takes them before those of the owner of the workload when it comes first in
  the list.\<close>

theorem webhook_takes_conflicted:
  "findRecommendation (ex_webhook\<lparr>w_listDynamicResources := (\<lambda>_. Inr [ex_dr\<lparr>dr_CreationTimestamp := 2,
      Status := ex_status\<lparr>Conditions := [\<lparr>cond_Type = ConditionConflicted, cond_Status = ConditionTrue,
        cond_Reason = ''OverlappingSelector'', cond_Message = '''', cond_Generation = 1\<rparr>]\<rparr>\<rparr>,
      ex_dr\<lparr>dr_Name := ''owner'', Status := ex_status\<lparr>Recommendations := []\<rparr>\<rparr>])\<rparr>) ''prod'' ''web'' = Some ex_found"
  by code_simp

end
