(* ===== verification/Prometheus.thy ===== *)
theory Prometheus
  imports Metrics
begin

text \<open>
  \<open>internal/metrics/prometheus.go\<close>: usage samples from the HTTP API of Prometheus.

  The provider builds two PromQL queries from the namespace and the selector, sends them, decodes the
  answers and joins them by Pod and container. The HTTP client with the JSON decoder is a function
  from the URL to a decoded response or an error, and the requirements of a selector
  (\<open>labels.Selector.Requirements\<close>) are a parameter. Of Go's library the model defines what the code
  uses: \<open>%q\<close>, \<open>url.QueryEscape\<close>, \<open>strings.TrimRight\<close>, \<open>strconv.ParseFloat\<close>. Strings are ASCII where they
  are quoted or sanitised: the names and labels of Kubernetes objects are. The order in which Go
  iterates over a map is open, so it is a parameter too.
\<close>

section \<open>Strings\<close>

definition dq :: string where "dq = [CHR 0x22]"  \<comment> \<open>a double quote\<close>
definition backslash :: string where "backslash = [CHR 0x5C]"

definition hexDigit :: "string \<Rightarrow> nat \<Rightarrow> char" where
  "hexDigit digits n = digits ! n"

definition hexByte :: "string \<Rightarrow> char \<Rightarrow> string" where
  "hexByte digits c = [hexDigit digits (of_char c div 16), hexDigit digits (of_char c mod 16)]"

definition quoteChar :: "char \<Rightarrow> string" where
  "quoteChar c =
     (let n = (of_char c :: nat) in
      if c = CHR 0x22 \<or> c = CHR 0x5C then backslash @ [c]
      else if 32 \<le> n \<and> n < 127 then [c]
      else if n = 7 then backslash @ ''a''
      else if n = 8 then backslash @ ''b''
      else if n = 12 then backslash @ ''f''
      else if n = 10 then backslash @ ''n''
      else if n = 13 then backslash @ ''r''
      else if n = 9 then backslash @ ''t''
      else if n = 11 then backslash @ ''v''
      else backslash @ ''x'' @ hexByte ''0123456789abcdef'' c)"

definition goQuote :: "string \<Rightarrow> string" where
  \<comment> \<open>\<open>%q\<close> of an ASCII string\<close>
  "goQuote s = dq @ concat (map quoteChar s) @ dq"

definition is_alnum :: "char \<Rightarrow> bool" where
  "is_alnum c \<longleftrightarrow>
     (let n = (of_char c :: nat) in (48 \<le> n \<and> n \<le> 57) \<or> (65 \<le> n \<and> n \<le> 90) \<or> (97 \<le> n \<and> n \<le> 122))"

definition escapeChar :: "char \<Rightarrow> string" where
  "escapeChar c =
     (if is_alnum c \<or> c \<in> set ''-_.~'' then [c]
      else if c = CHR '' '' then ''+''
      else ''%'' @ hexByte ''0123456789ABCDEF'' c)"

definition queryEscape :: "string \<Rightarrow> string" where
  \<comment> \<open>\<open>url.QueryEscape\<close>\<close>
  "queryEscape s = concat (map escapeChar s)"

definition trimRight :: "string \<Rightarrow> char \<Rightarrow> string" where
  \<comment> \<open>\<open>strings.TrimRight\<close> with a cutset of one character\<close>
  "trimRight s c = rev (dropWhile (\<lambda>x. x = c) (rev s))"

fun joined :: "string \<Rightarrow> string list \<Rightarrow> string" where
  \<comment> \<open>\<open>strings.Join\<close>\<close>
  "joined sep [] = []"
| "joined sep [x] = x"
| "joined sep (x # xs) = x @ sep @ joined sep xs"

section \<open>Numbers\<close>

definition lower :: "char \<Rightarrow> char" where
  "lower c = (let n = (of_char c :: nat) in if 65 \<le> n \<and> n \<le> 90 then char_of (n + 32) else c)"

definition digitIn :: "nat \<Rightarrow> char \<Rightarrow> nat option" where
  \<comment> \<open>the value of a digit in base 10 or 16\<close>
  "digitIn base c =
     (let n = (of_char c :: nat); l = (of_char (lower c) :: nat) in
      if 48 \<le> n \<and> n \<le> 57 then Some (n - 48)
      else if base = 16 \<and> 97 \<le> l \<and> l \<le> 102 then Some (l - 87)
      else None)"

fun underscoreScan :: "bool \<Rightarrow> char \<Rightarrow> string \<Rightarrow> bool" where
  \<comment> \<open>the character last seen stands for its class: a digit, an underscore, anything else\<close>
  "underscoreScan hex saw [] \<longleftrightarrow> saw \<noteq> CHR ''_''"
| "underscoreScan hex saw (c # cs) \<longleftrightarrow>
     (if digitIn (if hex then 16 else 10) c \<noteq> None then underscoreScan hex (CHR ''0'') cs
      else if c = CHR ''_'' then saw = CHR ''0'' \<and> underscoreScan hex (CHR ''_'') cs
      else saw \<noteq> CHR ''_'' \<and> underscoreScan hex (CHR ''!'') cs)"

definition dropSign :: "string \<Rightarrow> bool \<times> string" where
  "dropSign s =
     (case s of
        [] \<Rightarrow> (False, [])
      | c # cs \<Rightarrow> if c = CHR ''-'' then (True, cs) else if c = CHR ''+'' then (False, cs) else (False, s))"

definition underscoreOK :: "string \<Rightarrow> bool" where
  "underscoreOK s =
     (let s = snd (dropSign s) in
      if 2 \<le> length s \<and> s ! 0 = CHR ''0'' \<and> lower (s ! 1) \<in> set ''box''
      then underscoreScan (lower (s ! 1) = CHR ''x'') (CHR ''0'') (drop 2 s)
      else underscoreScan False (CHR ''^'') s)"

fun mantissa :: "nat \<Rightarrow> bool \<Rightarrow> bool \<Rightarrow> nat \<Rightarrow> nat \<Rightarrow> string \<Rightarrow> bool \<times> nat \<times> nat \<times> string" where
  \<comment> \<open>digits and at most one point; were there digits, their value, how many follow the point, the rest\<close>
  "mantissa base sawdot sawdigits m places [] = (sawdigits, m, places, [])"
| "mantissa base sawdot sawdigits m places (c # cs) =
     (if c = CHR ''.'' then
        (if sawdot then (sawdigits, m, places, c # cs) else mantissa base True sawdigits m places cs)
      else case digitIn base c of
             Some d \<Rightarrow> mantissa base sawdot True (base * m + d) (if sawdot then places + 1 else places) cs
           | None \<Rightarrow> (sawdigits, m, places, c # cs))"

fun exponentDigits :: "int \<Rightarrow> string \<Rightarrow> int \<times> string" where
  \<comment> \<open>beyond 10000 the code only skips digits\<close>
  "exponentDigits e [] = (e, [])"
| "exponentDigits e (c # cs) =
     (case digitIn 10 c of
        Some d \<Rightarrow> exponentDigits (if e < 10000 then 10 * e + int d else e) cs
      | None \<Rightarrow> (e, c # cs))"

definition exponent :: "char \<Rightarrow> string \<Rightarrow> (bool \<times> int \<times> string) option" where
  \<comment> \<open>was there an exponent, its value, the rest; \<open>None\<close> for a syntax error\<close>
  "exponent mark s =
     (case s of
        [] \<Rightarrow> Some (False, 0, [])
      | c # cs \<Rightarrow>
          if lower c \<noteq> mark then Some (False, 0, s)
          else
            let (neg, ds) = dropSign cs in
            if ds = [] \<or> digitIn 10 (hd ds) = None then None
            else let (e, r) = exponentDigits 0 ds in Some (True, if neg then - e else e, r))"

definition readFloat :: "string \<Rightarrow> rat option" where
  \<comment> \<open>the exact value of a decimal or hexadecimal number without underscores\<close>
  "readFloat s =
     (let (neg, s) = dropSign s;
          hex = (2 < length s \<and> s ! 0 = CHR ''0'' \<and> lower (s ! 1) = CHR ''x'');
          base = (if hex then 16 else 10);
          (sawdigits, m, places, r) = mantissa base False False 0 0 (if hex then drop 2 s else s)
      in if \<not> sawdigits then None
         else case exponent (if hex then CHR ''p'' else CHR ''e'') r of
           None \<Rightarrow> None
         | Some (sawExp, e, r) \<Rightarrow>
             if r \<noteq> [] \<or> hex \<and> \<not> sawExp then None
             else
               let v = of_nat m / of_nat base ^ places * (if hex then 2 else 10) powi e
               in Some (if neg then - v else v))"

definition special :: "string \<Rightarrow> f64 option" where
  "special s =
     (let (neg, r) = dropSign s; l = map lower r in
      if l = ''inf'' \<or> l = ''infinity'' then Some (if neg then NInf else PInf)
      else if map lower s = ''nan'' then Some NaN
      else None)"

definition ParseFloat :: "string \<Rightarrow> f64 go_result" where
  \<comment> \<open>\<open>strconv.ParseFloat(s, 64)\<close>; a number that overflows is an error\<close>
  "ParseFloat s =
     (case special s of
        Some v \<Rightarrow> Inr v
      | None \<Rightarrow>
          if CHR ''_'' \<in> set s \<and> \<not> underscoreOK s then Inl ''invalid syntax''
          else case readFloat (filter (\<lambda>c. c \<noteq> CHR ''_'') s) of
            None \<Rightarrow> Inl ''invalid syntax''
          | Some v \<Rightarrow>
              (case round64 v of
                 Fin x \<Rightarrow> Inr (Fin x)
               | _ \<Rightarrow> Inl ''value out of range''))"

section \<open>The query\<close>

record requirement =
  \<comment> \<open>\<open>labels.Requirement\<close>, with its values sorted\<close>
  req_Key :: string
  req_Operator :: string
  req_Values :: "string list"

definition promLabelName :: "string \<Rightarrow> string" where
  "promLabelName key = ''label_'' @ map (\<lambda>c. if is_alnum c \<or> c = CHR ''_'' then c else CHR ''_'') key"

fun matchers :: "requirement list \<Rightarrow> string list go_result" where
  "matchers [] = Inr []"
| "matchers (req # reqs) =
     (if req_Operator req \<noteq> ''='' \<and> req_Operator req \<noteq> ''=='' \<and> req_Operator req \<noteq> ''in''
      then Inl (''prometheus provider supports only matchLabels selectors (got operator '' @ goQuote (req_Operator req) @ '')'')
      else if length (req_Values req) \<noteq> 1
      then Inl (''prometheus provider supports only single-value matchers for key '' @ goQuote (req_Key req))
      else case matchers reqs of
             Inl err \<Rightarrow> Inl err
           | Inr ms \<Rightarrow> Inr ((promLabelName (req_Key req) @ ''='' @ goQuote (req_Values req ! 0)) # ms))"

definition selectorMatchers :: "requirement list \<times> bool \<Rightarrow> string go_result" where
  \<comment> \<open>the argument is the answer of \<open>Requirements\<close>\<close>
  "selectorMatchers reqs =
     (if \<not> snd reqs then Inl ''selector is not selectable''
      else case matchers (fst reqs) of
             Inl err \<Rightarrow> Inl err
           | Inr ms \<Rightarrow> Inr (joined '','' ms))"

definition joinClause :: "string \<Rightarrow> string \<Rightarrow> string" where
  "joinClause namespace ms = ''* on(pod) group_left() kube_pod_labels{namespace='' @ goQuote namespace @ '','' @ ms @ ''}''"

definition containerFilter :: string where
  "containerFilter = '',container!='' @ dq @ dq @ '',container!='' @ dq @ ''POD'' @ dq"

definition cpuQuery :: "string \<Rightarrow> string \<Rightarrow> string" where
  "cpuQuery namespace join =
     ''sum by (pod, container) (rate(container_cpu_usage_seconds_total{namespace='' @ goQuote namespace @
     containerFilter @ ''}[2m])) '' @ join"

definition memQuery :: "string \<Rightarrow> string \<Rightarrow> string" where
  "memQuery namespace join =
     ''sum by (pod, container) (container_memory_working_set_bytes{namespace='' @ goQuote namespace @
     containerFilter @ ''}) '' @ join"

section \<open>The answer\<close>

datatype json =
    JNull | JBool bool | JNumber f64 | JString string | JArray "json list" | JObject "(string \<times> json) list"

record prom_result =
  pr_Metric :: "(string, string) gomap"
  pr_Value :: "json list"

record prom_body =
  pb_Status :: string
  pb_Result :: "prom_result list"

record http_response =
  resp_StatusCode :: int
  resp_Status :: string
  resp_Body :: "prom_body go_result"

type_synonym http = "string \<Rightarrow> http_response go_result"

record prom_sample =
  ps_pod :: string
  ps_container :: string
  ps_value :: f64

record prometheus =
  BaseURL :: string

definition NewPrometheusProvider :: "string \<Rightarrow> prometheus" where
  "NewPrometheusProvider baseURL = \<lparr>BaseURL = trimRight baseURL (CHR ''/'')\<rparr>"

definition decodeSample :: "prom_result \<Rightarrow> prom_sample option" where
  \<comment> \<open>\<open>None\<close> where the loop continues\<close>
  "decodeSample r =
     (if length (pr_Value r) \<noteq> 2 then None
      else case pr_Value r ! 1 of
        JString raw \<Rightarrow>
          (case ParseFloat raw of
             Inl _ \<Rightarrow> None
           | Inr v \<Rightarrow> Some \<lparr>ps_pod = map_zero '''' (pr_Metric r) ''pod'',
                            ps_container = map_zero '''' (pr_Metric r) ''container'', ps_value = v\<rparr>)
      | _ \<Rightarrow> None)"

definition query :: "http \<Rightarrow> prometheus \<Rightarrow> string \<Rightarrow> prom_sample list go_result" where
  "query get P q =
     (case get (BaseURL P @ ''/api/v1/query?query='' @ queryEscape q) of
        Inl err \<Rightarrow> Inl err
      | Inr resp \<Rightarrow>
          if resp_StatusCode resp \<noteq> 200 then Inl (''prometheus returned '' @ resp_Status resp)
          else case resp_Body resp of
            Inl err \<Rightarrow> Inl err
          | Inr body \<Rightarrow>
              if pb_Status body \<noteq> ''success'' then Inl (''prometheus query status '' @ goQuote (pb_Status body))
              else Inr (List.map_filter decodeSample (pb_Result body)))"

section \<open>Usage by Pod and container\<close>

type_synonym 'q by_pod = "(string, (string, 'q container_usage) gomap) gomap"

definition ensureUpdate ::
  "'q quantity_api \<Rightarrow> ('q container_usage \<Rightarrow> 'q container_usage) \<Rightarrow> string \<Rightarrow> string \<Rightarrow> 'q by_pod \<Rightarrow> 'q by_pod" where
  \<comment> \<open>\<open>ensure(pod, container)\<close>, and an assignment through the pointer it returns\<close>
  "ensureUpdate Q f pod container byPod =
     (let m = map_zero [] byPod pod;
          cu = map_zero \<lparr>cu_Container = container, cu_CPU = q_zero Q, cu_Memory = q_zero Q\<rparr> m container
      in AList.update pod (AList.update container (f cu) m) byPod)"

definition addCPU :: "'q quantity_api \<Rightarrow> 'q by_pod \<Rightarrow> prom_sample \<Rightarrow> 'q by_pod" where
  "addCPU Q byPod s =
     ensureUpdate Q (\<lambda>cu. cu\<lparr>cu_CPU := q_newMilli Q (i64_of_f (f_mul (ps_value s) (Fin 1000))) DecimalSI\<rparr>)
       (ps_pod s) (ps_container s) byPod"

definition addMemory :: "'q quantity_api \<Rightarrow> 'q by_pod \<Rightarrow> prom_sample \<Rightarrow> 'q by_pod" where
  "addMemory Q byPod s =
     ensureUpdate Q (\<lambda>cu. cu\<lparr>cu_Memory := q_new Q (i64_of_f (ps_value s)) BinarySI\<rparr>)
       (ps_pod s) (ps_container s) byPod"

record map_order =
  \<comment> \<open>the order in which a \<open>range\<close> over the map visits its keys\<close>
  ord_pods :: "string list \<Rightarrow> string list"
  ord_containers :: "string \<Rightarrow> string list \<Rightarrow> string list"

definition podUsages :: "'q quantity_api \<Rightarrow> map_order \<Rightarrow> time \<Rightarrow> 'q by_pod \<Rightarrow> 'q pod_usage list" where
  "podUsages Q order now byPod =
     map (\<lambda>pod.
       let containers = map_zero [] byPod pod
       in \<lparr>pu_Pod = pod, pu_Timestamp = now,
           pu_Containers = map (\<lambda>name. the (map_of containers name)) (ord_containers order pod (gomap_keys containers))\<rparr>)
     (ord_pods order (gomap_keys byPod))"

definition PrometheusListPodUsage ::
  "'q quantity_api \<Rightarrow> ('sel \<Rightarrow> requirement list \<times> bool) \<Rightarrow> http \<Rightarrow> map_order \<Rightarrow> time \<Rightarrow> prometheus \<Rightarrow> ('q, 'sel) provider" where
  "PrometheusListPodUsage Q requirements get order now P namespace selector =
     (case selectorMatchers (requirements selector) of
        Inl err \<Rightarrow> Inl err
      | Inr ms \<Rightarrow>
          let join = joinClause namespace ms
          in case query get P (cpuQuery namespace join) of
               Inl err \<Rightarrow> Inl (''prometheus cpu query: '' @ err)
             | Inr cpu \<Rightarrow>
                 (case query get P (memQuery namespace join) of
                    Inl err \<Rightarrow> Inl (''prometheus memory query: '' @ err)
                  | Inr mem \<Rightarrow> Inr (podUsages Q order now (foldl (addMemory Q) (foldl (addCPU Q) [] cpu) mem))))"

end
