(* ===== verification/PrometheusProps.thy ===== *)
theory PrometheusProps
  imports Prometheus "HOL-Library.Multiset"
begin

text \<open>
  The properties of the Prometheus provider: what it makes of the samples, that names and label values
  cannot leave the string literals of a query, that a query survives the URL, and how numbers are read.
\<close>

section \<open>Usage by Pod and container\<close>

definition sample_of :: "prom_sample list \<Rightarrow> string \<Rightarrow> string \<Rightarrow> f64 option" where
  \<comment> \<open>the value of the last sample of a container\<close>
  "sample_of ss pod container =
     map_option ps_value (List.find (\<lambda>s. ps_pod s = pod \<and> ps_container s = container) (rev ss))"

definition usage_of :: "'q by_pod \<Rightarrow> string \<Rightarrow> string \<Rightarrow> 'q container_usage option" where
  "usage_of byPod pod container = map_of (map_zero [] byPod pod) container"

definition by_pod_ok :: "'q by_pod \<Rightarrow> bool" where
  "by_pod_ok byPod \<longleftrightarrow> gomap_wf byPod \<and> (\<forall>pod. gomap_wf (map_zero [] byPod pod))
     \<and> (\<forall>pod. pod \<in> set (gomap_keys byPod) \<longleftrightarrow> map_zero [] byPod pod \<noteq> [])"

lemma update_not_Nil: "AList.update k v m \<noteq> []"
  by (cases m) auto

lemma ensureUpdate_ok: "by_pod_ok byPod \<Longrightarrow> by_pod_ok (ensureUpdate Q f pod container byPod)"
  by (auto simp: by_pod_ok_def ensureUpdate_def Let_def gomap_keys_update update_not_Nil)

lemma usage_of_ensureUpdate:
  "usage_of (ensureUpdate Q f pod container byPod) p c =
     (if p = pod \<and> c = container
      then Some (f (case usage_of byPod pod container of Some cu \<Rightarrow> cu
                    | None \<Rightarrow> \<lparr>cu_Container = container, cu_CPU = q_zero Q, cu_Memory = q_zero Q\<rparr>))
      else usage_of byPod p c)"
  by (auto simp: usage_of_def ensureUpdate_def Let_def map_of_update map_zero_def split: option.split)

definition merged :: "'q quantity_api \<Rightarrow> string \<Rightarrow> f64 option \<Rightarrow> f64 option \<Rightarrow> 'q container_usage option" where
  \<comment> \<open>what one CPU and one memory value make of a container\<close>
  "merged Q c cpu mem =
     (if cpu = None \<and> mem = None then None
      else Some \<lparr>cu_Container = c,
        cu_CPU = (case cpu of None \<Rightarrow> q_zero Q | Some v \<Rightarrow> q_newMilli Q (i64_of_f (f_mul v (Fin 1000))) DecimalSI),
        cu_Memory = (case mem of None \<Rightarrow> q_zero Q | Some v \<Rightarrow> q_new Q (i64_of_f v) BinarySI)\<rparr>)"

lemma sample_of_snoc:
  "sample_of (ss @ [s]) pod c = (if ps_pod s = pod \<and> ps_container s = c then Some (ps_value s) else sample_of ss pod c)"
  by (simp add: sample_of_def)

lemma usage_after_cpu:
  "by_pod_ok (foldl (addCPU Q) [] cpu)
   \<and> usage_of (foldl (addCPU Q) [] cpu) p c = merged Q c (sample_of cpu p c) None"
proof (induction cpu arbitrary: p c rule: rev_induct)
  case Nil
  show ?case by (simp add: by_pod_ok_def usage_of_def merged_def sample_of_def gomap_keys_def)
next
  case (snoc s cpu)
  then show ?case
    by (auto simp: addCPU_def ensureUpdate_ok usage_of_ensureUpdate sample_of_snoc merged_def split: option.split)
qed

lemma usage_after_both:
  "by_pod_ok (foldl (addMemory Q) (foldl (addCPU Q) [] cpu) mem)
   \<and> usage_of (foldl (addMemory Q) (foldl (addCPU Q) [] cpu) mem) p c = merged Q c (sample_of cpu p c) (sample_of mem p c)"
proof (induction mem arbitrary: p c rule: rev_induct)
  case Nil
  show ?case using usage_after_cpu [of Q cpu p c] by (simp add: sample_of_def)
next
  case (snoc s mem)
  then show ?case
    by (auto simp: addMemory_def ensureUpdate_ok usage_of_ensureUpdate sample_of_snoc merged_def split: option.split)
qed

definition any_order :: "map_order \<Rightarrow> bool" where
  \<comment> \<open>a range over a map visits every key once\<close>
  "any_order order \<longleftrightarrow> (\<forall>ks. mset (ord_pods order ks) = mset ks) \<and> (\<forall>p ks. mset (ord_containers order p ks) = mset ks)"

lemma any_order_set:
  assumes "any_order order"
  shows "set (ord_pods order ks) = set ks" "distinct (ord_pods order ks) \<longleftrightarrow> distinct ks"
    "set (ord_containers order p ks) = set ks" "distinct (ord_containers order p ks) \<longleftrightarrow> distinct ks"
proof -
  have "mset (ord_pods order ks) = mset ks" "mset (ord_containers order p ks) = mset ks"
    using assms by (auto simp: any_order_def)
  then show "set (ord_pods order ks) = set ks" "distinct (ord_pods order ks) \<longleftrightarrow> distinct ks"
    "set (ord_containers order p ks) = set ks" "distinct (ord_containers order p ks) \<longleftrightarrow> distinct ks"
    by (auto dest: mset_eq_setD mset_eq_imp_distinct_iff)
qed

lemma podUsages_complete:
  assumes "any_order order" "by_pod_ok byPod"
    and u: "\<And>p c cu. usage_of byPod p c = Some cu \<Longrightarrow> cu_Container cu = c"
  shows "distinct (map pu_Pod (podUsages Q order now byPod))"
    and "\<And>u. u \<in> set (podUsages Q order now byPod) \<Longrightarrow> pu_Timestamp u = now \<and> pu_Containers u \<noteq> []
           \<and> distinct (map cu_Container (pu_Containers u))"
    and "(\<exists>u \<in> set (podUsages Q order now byPod). pu_Pod u = p \<and> cu \<in> set (pu_Containers u)) \<longleftrightarrow>
           usage_of byPod p (cu_Container cu) = Some cu"
proof -
  note ord = any_order_set [OF assms(1)]
  let ?us = "podUsages Q order now byPod"
  have keys: "set (gomap_keys m) = dom (map_of m)" for m :: "(string, 'b) gomap" by (rule set_gomap_keys)
  have name: "cu_Container (the (map_of (map_zero [] byPod p) n)) = n" if "n \<in> set (gomap_keys (map_zero [] byPod p))" for p n
    using that u [of p n] by (auto simp: keys usage_of_def)
  have wf: "distinct (gomap_keys byPod)" "distinct (gomap_keys (map_zero [] byPod p))" for p
    using assms(2) by (auto simp: by_pod_ok_def gomap_keys_def)
  show "distinct (map pu_Pod ?us)" using wf(1) by (simp add: podUsages_def comp_def Let_def ord)
  have names: "map (cu_Container \<circ> (\<lambda>n. the (map_of (map_zero [] byPod p) n)))
      (ord_containers order p (gomap_keys (map_zero [] byPod p))) = ord_containers order p (gomap_keys (map_zero [] byPod p))" for p
    using name by (intro map_idI) (simp add: ord)
  show "pu_Timestamp u = now \<and> pu_Containers u \<noteq> [] \<and> distinct (map cu_Container (pu_Containers u))" if m: "u \<in> set ?us" for u
  proof -
    obtain p where p: "p \<in> set (gomap_keys byPod)" "u = \<lparr>pu_Pod = p, pu_Timestamp = now,
        pu_Containers = map (\<lambda>n. the (map_of (map_zero [] byPod p) n)) (ord_containers order p (gomap_keys (map_zero [] byPod p)))\<rparr>"
      using m by (auto simp: podUsages_def Let_def ord)
    have "gomap_keys (map_zero [] byPod p) \<noteq> []" using p(1) assms(2) by (auto simp: by_pod_ok_def gomap_keys_def)
    then have "ord_containers order p (gomap_keys (map_zero [] byPod p)) \<noteq> []"
      using ord(3) [of p "gomap_keys (map_zero [] byPod p)"] by (metis set_empty)
    then show ?thesis using wf(2) by (auto simp: p(2) names ord)
  qed
  show "(\<exists>u \<in> set ?us. pu_Pod u = p \<and> cu \<in> set (pu_Containers u)) \<longleftrightarrow> usage_of byPod p (cu_Container cu) = Some cu" (is "?L \<longleftrightarrow> ?R")
  proof
    assume ?L
    then obtain n where n: "n \<in> set (gomap_keys (map_zero [] byPod p))" "cu = the (map_of (map_zero [] byPod p) n)"
      by (auto simp: podUsages_def Let_def ord)
    then show ?R using name [OF n(1)] by (auto simp: usage_of_def keys)
  next
    assume r: ?R
    then have k: "cu_Container cu \<in> set (gomap_keys (map_zero [] byPod p))" by (auto simp: keys usage_of_def)
    then have "p \<in> set (gomap_keys byPod)" using assms(2) by (auto simp: by_pod_ok_def gomap_keys_def)
    then show ?L using r k by (force simp: podUsages_def Let_def ord usage_of_def)
  qed
qed

section \<open>Readers of the strings\<close>

definition hexVal :: "char \<Rightarrow> nat option" where
  "hexVal c = digitIn 16 c"

definition unhexByte :: "char \<Rightarrow> char \<Rightarrow> char option" where
  "unhexByte a b = (case (hexVal a, hexVal b) of (Some x, Some y) \<Rightarrow> Some (char_of (16 * x + y)) | _ \<Rightarrow> None)"

lemma hexVal_digit:
  "k < 16 \<Longrightarrow> hexVal (''0123456789abcdef'' ! k) = Some k" "k < 16 \<Longrightarrow> hexVal (''0123456789ABCDEF'' ! k) = Some k"
proof -
  have k: "k \<in> {0, 1, 2, 3, 4, 5, 6, 7, 8, 9, 10, 11, 12, 13, 14, 15}" if "k < 16"
    using that unfolding insert_iff empty_iff by presburger
  show "k < 16 \<Longrightarrow> hexVal (''0123456789abcdef'' ! k) = Some k" "k < 16 \<Longrightarrow> hexVal (''0123456789ABCDEF'' ! k) = Some k"
    by (drule k, elim insertE emptyE, simp_all add: hexVal_def digitIn_def lower_def)+
qed

lemma unhex_hexByte:
  assumes "\<And>k. k < 16 \<Longrightarrow> hexVal (digits ! k) = Some k"
  shows "\<exists>a b. hexByte digits c = [a, b] \<and> unhexByte a b = Some c"
proof -
  let ?n = "of_char c :: nat"
  have n: "?n < 256" by (rule nat_of_char_less_256)
  have d: "16 * (?n div 16) + ?n mod 16 = ?n" by simp
  have "?n div 16 < 16" "?n mod 16 < 16" using n by (simp_all add: less_mult_imp_div_less)
  then have "unhexByte (digits ! (?n div 16)) (digits ! (?n mod 16)) = Some (char_of (16 * (?n div 16) + ?n mod 16))"
    by (simp add: unhexByte_def assms)
  then show ?thesis unfolding d by (simp add: hexByte_def hexDigit_def)
qed

definition escapes :: "(char \<times> char) list" where
  \<comment> \<open>the one-letter escapes of a string literal\<close>
  "escapes = [(CHR 0x22, CHR 0x22), (CHR 0x5C, CHR 0x5C), (CHR ''a'', char_of (7::nat)), (CHR ''b'', char_of (8::nat)),
     (CHR ''f'', char_of (12::nat)), (CHR ''n'', char_of (10::nat)), (CHR ''r'', char_of (13::nat)),
     (CHR ''t'', char_of (9::nat)), (CHR ''v'', char_of (11::nat))]"

fun unquoteBody :: "string \<Rightarrow> (string \<times> string) option" where
  \<comment> \<open>the rest of a string literal after its opening quote, as a PromQL lexer reads it: its value, and what follows\<close>
  "unquoteBody [] = None"
| "unquoteBody (c # cs) =
     (if c = CHR 0x22 then Some ([], cs)
      else if c = CHR 0x5C then
        (case cs of
           [] \<Rightarrow> None
         | e # r \<Rightarrow>
             (case map_of escapes e of
                Some x \<Rightarrow> map_option (\<lambda>(s, r). (x # s, r)) (unquoteBody r)
              | None \<Rightarrow>
                  (case r of
                     a # b # r \<Rightarrow>
                       (case (if e = CHR ''x'' then unhexByte a b else None) of
                          Some x \<Rightarrow> map_option (\<lambda>(s, r). (x # s, r)) (unquoteBody r)
                        | None \<Rightarrow> None)
                   | _ \<Rightarrow> None)))
      else map_option (\<lambda>(s, r). (c # s, r)) (unquoteBody cs))"

lemma unquote_escape:
  "map_of escapes e = Some x \<Longrightarrow>
     unquoteBody (backslash @ e # rest) = map_option (\<lambda>(s, r). (x # s, r)) (unquoteBody rest)"
  by (simp add: backslash_def)

lemma unquote_hex:
  "unquoteBody (backslash @ ''x'' @ hexByte ''0123456789abcdef'' c @ rest) = map_option (\<lambda>(s, r). (c # s, r)) (unquoteBody rest)"
  using unhex_hexByte [OF hexVal_digit(1), of c] by (auto simp: backslash_def escapes_def)

lemma unquote_quoteChar:
  "unquoteBody (quoteChar c @ rest) = map_option (\<lambda>(s, r). (c # s, r)) (unquoteBody rest)"
proof -
  have esc: "map_of escapes (CHR 0x22) = Some (CHR 0x22)" "map_of escapes (CHR 0x5C) = Some (CHR 0x5C)"
    "map_of escapes (CHR ''a'') = Some (char_of (7::nat))" "map_of escapes (CHR ''b'') = Some (char_of (8::nat))"
    "map_of escapes (CHR ''f'') = Some (char_of (12::nat))" "map_of escapes (CHR ''n'') = Some (char_of (10::nat))"
    "map_of escapes (CHR ''r'') = Some (char_of (13::nat))" "map_of escapes (CHR ''t'') = Some (char_of (9::nat))"
    "map_of escapes (CHR ''v'') = Some (char_of (11::nat))"
    by (simp_all add: escapes_def)
  have at: "unquoteBody (quoteChar c @ rest) = map_option (\<lambda>(s, r). (c # s, r)) (unquoteBody rest)"
    if "of_char c = n" "n \<in> {7, 8, 9, 10, 11, 12, 13}" for n :: nat
  proof -
    from that(1) have e: "c = char_of n" by auto
    show ?thesis using that(2) unfolding e
      by (elim insertE emptyE) (simp_all add: quoteChar_def unquote_escape esc)
  qed
  consider "c = CHR 0x22" | "c = CHR 0x5C" | "c \<noteq> CHR 0x22" "c \<noteq> CHR 0x5C" by blast
  then show ?thesis
  proof cases
    case 3
    let ?n = "of_char c :: nat"
    show ?thesis
    proof (cases "32 \<le> ?n \<and> ?n < 127")
      case True
      then have "quoteChar c = [c]" using 3 by (simp add: quoteChar_def)
      then show ?thesis using 3 by simp
    next
      case False
      show ?thesis
      proof (cases "?n \<in> {7, 8, 9, 10, 11, 12, 13}")
        case False
        then have "quoteChar c = backslash @ ''x'' @ hexByte ''0123456789abcdef'' c"
          using 3 \<open>\<not> (32 \<le> ?n \<and> ?n < 127)\<close> unfolding quoteChar_def Let_def by auto
        then show ?thesis using unquote_hex [of c rest] by simp
      qed (rule at [OF refl])
    qed
  qed (simp_all add: quoteChar_def unquote_escape esc)
qed

lemma unquote_goQuote: "unquoteBody (tl (goQuote s) @ rest) = Some (s, rest)"
proof -
  have "unquoteBody (concat (map quoteChar s) @ dq @ rest) = Some (s, rest)"
    by (induction s) (simp_all add: unquote_quoteChar dq_def)
  then show ?thesis by (simp add: goQuote_def dq_def)
qed

fun readMatchers :: "nat \<Rightarrow> string \<Rightarrow> (string \<times> string) list option" where
  \<comment> \<open>a list of label matchers as PromQL reads it, with fuel: a label, an equals sign, a string literal\<close>
  "readMatchers 0 s = None"
| "readMatchers (Suc n) s =
     (case dropWhile (\<lambda>c. c \<noteq> CHR ''='') s of
        e # q # body \<Rightarrow>
          if q \<noteq> CHR 0x22 then None
          else (case unquoteBody body of
                  None \<Rightarrow> None
                | Some (v, []) \<Rightarrow> Some [(takeWhile (\<lambda>c. c \<noteq> CHR ''='') s, v)]
                | Some (v, c # r) \<Rightarrow>
                    if c \<noteq> CHR '','' then None
                    else map_option (Cons (takeWhile (\<lambda>c. c \<noteq> CHR ''='') s, v)) (readMatchers n r))
      | _ \<Rightarrow> None)"

lemma promLabelName_chars: "c \<in> set (promLabelName key) \<Longrightarrow> is_alnum c \<or> c = CHR ''_''"
  by (auto simp: promLabelName_def is_alnum_def)

lemma promLabelName_no_eq: "CHR ''='' \<notin> set (promLabelName key)"
  using promLabelName_chars [of "CHR ''=''" key] by (auto simp: is_alnum_def)

lemma split_at_eq:
  assumes "CHR ''='' \<notin> set l"
  shows "takeWhile (\<lambda>c. c \<noteq> CHR ''='') (l @ CHR ''='' # r) = l" "dropWhile (\<lambda>c. c \<noteq> CHR ''='') (l @ CHR ''='' # r) = CHR ''='' # r"
  using assms by (induction l) auto

lemma read_one:
  "readMatchers (Suc n) (promLabelName key @ ''='' @ goQuote v @ r) =
     (case r of [] \<Rightarrow> Some [(promLabelName key, v)]
      | c # r \<Rightarrow> if c \<noteq> CHR '','' then None else map_option (Cons (promLabelName key, v)) (readMatchers n r))"
  using unquote_goQuote [of v r]
  by (cases r) (simp_all add: split_at_eq promLabelName_no_eq goQuote_def dq_def)

lemma read_joined:
  assumes "matchers reqs = Inr ms" "reqs \<noteq> []" "length reqs \<le> n"
  shows "readMatchers n (joined '','' ms) = Some (map (\<lambda>req. (promLabelName (req_Key req), hd (req_Values req))) reqs)"
  using assms
proof (induction reqs arbitrary: ms n)
  case (Cons req reqs)
  obtain ms' where ms': "matchers reqs = Inr ms'" "ms = (promLabelName (req_Key req) @ ''='' @ goQuote (req_Values req ! 0)) # ms'"
    "length (req_Values req) = 1"
    using Cons.prems(1) by (auto split: if_splits sum.splits)
  obtain k where n: "n = Suc k" using Cons.prems(3) by (cases n) auto
  have h: "req_Values req ! 0 = hd (req_Values req)" using ms'(3) by (intro hd_conv_nth [symmetric]) auto
  show ?case
  proof (cases reqs)
    case Nil
    then have "joined '','' ms = promLabelName (req_Key req) @ ''='' @ goQuote (hd (req_Values req)) @ []"
      using ms'(1,2) by (simp add: h)
    then show ?thesis unfolding n by (simp only: read_one) (simp add: Nil)
  next
    case (Cons req' reqs')
    then have "ms' \<noteq> []" using ms'(1) by (auto split: if_splits sum.splits)
    then have j: "joined '','' ms = promLabelName (req_Key req) @ ''='' @ goQuote (hd (req_Values req)) @ CHR '','' # joined '','' ms'"
      unfolding ms'(2) by (cases ms') (simp_all add: h)
    have "readMatchers k (joined '','' ms') = Some (map (\<lambda>req. (promLabelName (req_Key req), hd (req_Values req))) reqs)"
      using Cons.IH [OF ms'(1)] Cons.prems(3) Cons n by simp
    then show ?thesis unfolding n j by (simp only: read_one) simp
  qed
qed simp

section \<open>The URL\<close>

fun queryUnescape :: "string \<Rightarrow> string option" where
  \<comment> \<open>how a server reads a query parameter\<close>
  "queryUnescape [] = Some []"
| "queryUnescape (c # cs) =
     (if c = CHR ''%'' then
        (case cs of
           a # b # r \<Rightarrow>
             (case unhexByte a b of None \<Rightarrow> None | Some x \<Rightarrow> map_option (Cons x) (queryUnescape r))
         | _ \<Rightarrow> None)
      else map_option (Cons (if c = CHR ''+'' then CHR '' '' else c)) (queryUnescape cs))"

lemma unescape_escapeChar: "queryUnescape (escapeChar c @ r) = map_option (Cons c) (queryUnescape r)"
proof -
  have plain: "c \<noteq> CHR ''%'' \<and> c \<noteq> CHR ''+''" if "is_alnum c \<or> c \<in> set ''-_.~''" using that by (auto simp: is_alnum_def)
  obtain a b where "hexByte ''0123456789ABCDEF'' c = [a, b]" "unhexByte a b = Some c"
    using unhex_hexByte [OF hexVal_digit(2), of c] by blast
  then show ?thesis using plain by (auto simp: escapeChar_def)
qed

lemma unescape_queryEscape: "queryUnescape (queryEscape s) = Some s"
  unfolding queryEscape_def by (induction s) (simp_all add: unescape_escapeChar)

section \<open>Decimal numbers\<close>

definition is_digits :: "string \<Rightarrow> bool" where
  "is_digits ds \<longleftrightarrow> list_all (\<lambda>c. digitIn 10 c \<noteq> None) ds"

fun digitsValue :: "nat \<Rightarrow> string \<Rightarrow> nat" where
  "digitsValue m [] = m"
| "digitsValue m (c # cs) = digitsValue (10 * m + the (digitIn 10 c)) cs"

lemma digit_not_sign: "digitIn 10 c \<noteq> None \<Longrightarrow> c \<notin> {CHR ''.'', CHR ''_'', CHR ''-'', CHR ''+''}"
  by (auto simp: digitIn_def)

lemma mantissa_digits:
  "is_digits ds \<Longrightarrow> mantissa 10 sawdot saw m k (ds @ r) =
     mantissa 10 sawdot (saw \<or> ds \<noteq> []) (digitsValue m ds) (if sawdot then k + length ds else k) r"
proof (induction ds arbitrary: saw m k)
  case (Cons c ds)
  then have "digitIn 10 c \<noteq> None" by (simp add: is_digits_def)
  moreover from this have "c \<noteq> CHR ''.''" using digit_not_sign by blast
  ultimately show ?case using Cons by (auto simp: is_digits_def)
qed simp

lemma dropSign_digits: "is_digits ds \<Longrightarrow> dropSign (ds @ r) = (if ds = [] then dropSign r else (False, ds @ r))"
  using digit_not_sign by (cases ds) (auto simp: dropSign_def is_digits_def)

lemma digit_lower: "digitIn 10 c \<noteq> None \<Longrightarrow> lower c = c \<and> c \<notin> set ''xin''"
  by (auto simp: digitIn_def lower_def Let_def split: if_splits)

lemma readFloat_decimal:
  assumes "is_digits ds" "ds \<noteq> []" "is_digits es"
  shows "readFloat (ds @ ''.'' @ es) = Some (of_nat (digitsValue (digitsValue 0 ds) es) / 10 ^ length es)"
proof -
  let ?s = "ds @ CHR ''.'' # es"
  have hex: "\<not> (2 < length ?s \<and> ?s ! 0 = CHR ''0'' \<and> lower (?s ! 1) = CHR ''x'')"
  proof -
    obtain d ds' where d: "ds = d # ds'" using assms(2) by (cases ds) auto
    have "lower (?s ! 1) \<noteq> CHR ''x''"
    proof (cases ds')
      case Nil
      then show ?thesis by (simp add: d lower_def)
    next
      case (Cons d' ds'')
      then have "digitIn 10 d' \<noteq> None" using assms(1) by (simp add: d is_digits_def)
      then show ?thesis using digit_lower [of d'] by (auto simp: d Cons)
    qed
    then show ?thesis by blast
  qed
  have m: "mantissa 10 False False 0 0 ?s = (True, digitsValue (digitsValue 0 ds) es, length es, [])"
    using mantissa_digits [OF assms(1), of False False 0 0 "CHR ''.'' # es"]
      mantissa_digits [OF assms(3), of True True "digitsValue 0 ds" 0 "[]"] assms(2) by simp
  have sgn: "dropSign ?s = (False, ?s)" using dropSign_digits [OF assms(1), of "CHR ''.'' # es"] assms(2) by simp
  have "readFloat ?s = Some (of_nat (digitsValue (digitsValue 0 ds) es) / of_nat 10 ^ length es * 10 powi 0)"
    unfolding readFloat_def sgn Let_def prod.case if_not_P [OF hex] m using hex by (simp add: exponent_def)
  then show ?thesis by simp
qed

lemma ParseFloat_decimal:
  assumes "is_digits ds" "ds \<noteq> []" "is_digits es"
  shows "ParseFloat (ds @ ''.'' @ es) =
    (case round64 (of_nat (digitsValue (digitsValue 0 ds) es) / 10 ^ length es) of
       Fin x \<Rightarrow> Inr (Fin x) | _ \<Rightarrow> Inl ''value out of range'')"
proof -
  let ?s = "ds @ CHR ''.'' # es"
  have d: "\<And>c. c \<in> set ?s \<Longrightarrow> c \<noteq> CHR ''_''"
    using assms digit_not_sign by (auto simp: is_digits_def list_all_iff)
  then have u: "CHR ''_'' \<notin> set ?s" by blast
  have u2: "filter (\<lambda>c. c \<noteq> CHR ''_'') ?s = ?s" by (rule filter_True) (use d in blast)
  obtain c ds' where c: "ds = c # ds'" "digitIn 10 c \<noteq> None" using assms(1,2) by (cases ds) (auto simp: is_digits_def)
  have "dropSign ?s = (False, ?s)" using dropSign_digits [OF assms(1), of "CHR ''.'' # es"] assms(2) by simp
  then have sp: "special ?s = None" using digit_lower [OF c(2)] by (auto simp: special_def c(1))
  have r: "readFloat ?s = Some (of_nat (digitsValue (digitsValue 0 ds) es) / 10 ^ length es)"
    using readFloat_decimal [OF assms] by simp
  have "ParseFloat ?s = (case round64 (of_nat (digitsValue (digitsValue 0 ds) es) / 10 ^ length es) of
       Fin x \<Rightarrow> Inr (Fin x) | _ \<Rightarrow> Inl ''value out of range'')"
    unfolding ParseFloat_def sp u2 r option.case using u by simp
  then show ?thesis by simp
qed

end
