(* ===== verification/PrometheusTheorems.thy ===== *)
theory PrometheusTheorems
  imports PrometheusProps
begin

text \<open>
  The properties of the Prometheus provider.
\<close>

section \<open>A small answer\<close>

definition ex_requirements :: "requirement list" where
  "ex_requirements = [\<lparr>req_Key = ''app.kubernetes.io/name'', req_Operator = ''='', req_Values = [''web'']\<rparr>,
     \<lparr>req_Key = ''tier'', req_Operator = ''in'', req_Values = [''front end'']\<rparr>]"

definition ex_result :: "string \<Rightarrow> string \<Rightarrow> prom_result" where
  "ex_result container v =
     \<lparr>pr_Metric = [(''pod'', ''p0''), (''container'', container)], pr_Value = [JNumber (Fin 1), JString v]\<rparr>"

definition ex_http :: http where
  \<comment> \<open>the same answer to every query\<close>
  "ex_http _ = Inr \<lparr>resp_StatusCode = 200, resp_Status = ''200 OK'',
     resp_Body = Inr \<lparr>pb_Status = ''success'', pb_Result = [ex_result ''app'' ''12.5'', ex_result ''side'' ''3'']\<rparr>\<rparr>"

definition ex_order :: map_order where
  "ex_order = \<lparr>ord_pods = rev, ord_containers = (\<lambda>_. rev)\<rparr>"

definition ex_samples :: "prom_sample list" where
  "ex_samples = [\<lparr>ps_pod = ''p0'', ps_container = ''app'', ps_value = Fin (25 / 2)\<rparr>,
     \<lparr>ps_pod = ''p0'', ps_container = ''side'', ps_value = Fin 3\<rparr>]"

lemma ex_query: "query ex_http P q = Inr ex_samples"
proof -
  have "List.map_filter decodeSample [ex_result ''app'' ''12.5'', ex_result ''side'' ''3''] = ex_samples" by code_simp
  then show ?thesis by (simp add: query_def ex_http_def)
qed

section \<open>Properties\<close>

text \<open>C37. The provider reports each container once, whatever order Go ranges over its maps in: when a call
  succeeds, both queries did, the Pods it returns are distinct, all with the time of the call, and a Pod
  has a container exactly when one of the two answers has a sample of it; its CPU is the last CPU
  sample in millicores, its memory the last memory sample in bytes, both truncated towards zero, and
  zero where there is no sample.\<close>

theorem prometheus_usage_exact:
  assumes "any_order order"
    and "PrometheusListPodUsage Q requirements get order now P namespace selector = Inr us"
  shows "\<exists>ms cpu mem. selectorMatchers (requirements selector) = Inr ms
    \<and> query get P (cpuQuery namespace (joinClause namespace ms)) = Inr cpu
    \<and> query get P (memQuery namespace (joinClause namespace ms)) = Inr mem
    \<and> distinct (map pu_Pod us)
    \<and> list_all (\<lambda>u. pu_Timestamp u = now \<and> pu_Containers u \<noteq> [] \<and> distinct (map cu_Container (pu_Containers u))) us
    \<and> (\<forall>p cu. (\<exists>u \<in> set us. pu_Pod u = p \<and> cu \<in> set (pu_Containers u)) \<longleftrightarrow>
          merged Q (cu_Container cu) (sample_of cpu p (cu_Container cu)) (sample_of mem p (cu_Container cu)) = Some cu)"
proof -
  obtain ms cpu mem where q: "selectorMatchers (requirements selector) = Inr ms"
    "query get P (cpuQuery namespace (joinClause namespace ms)) = Inr cpu"
    "query get P (memQuery namespace (joinClause namespace ms)) = Inr mem"
    and us: "us = podUsages Q order now (foldl (addMemory Q) (foldl (addCPU Q) [] cpu) mem)"
    using assms(2) by (auto simp: PrometheusListPodUsage_def Let_def split: sum.splits)
  note both = usage_after_both [of Q cpu mem]
  have ok: "by_pod_ok (foldl (addMemory Q) (foldl (addCPU Q) [] cpu) mem)" using both by blast
  have "cu_Container cu = c"
    if "usage_of (foldl (addMemory Q) (foldl (addCPU Q) [] cpu) mem) p c = Some cu" for p c cu
    using that both [of p c] by (auto simp: merged_def split: if_splits)
  note complete = podUsages_complete [OF assms(1) ok this]
  show ?thesis
    using q complete both unfolding us list_all_iff by auto
qed

theorem prometheus_usage_exact_witness:
  "\<exists>us. PrometheusListPodUsage exact_api (\<lambda>_. (ex_requirements, True)) ex_http ex_order hour
        (NewPrometheusProvider ''http://prom/'') ''prod'' () = Inr us
     \<and> (\<exists>u \<in> set us. \<lparr>cu_Container = ''app'', cu_CPU = mq 12500, cu_Memory = bq 12\<rparr> \<in> set (pu_Containers u))"
  (is "\<exists>us. ?r = Inr us \<and> _ us")
proof -
  obtain ms where ms: "selectorMatchers (ex_requirements, True) = Inr ms"
    by (simp add: selectorMatchers_def ex_requirements_def)
  obtain us where us: "?r = Inr us" by (simp add: PrometheusListPodUsage_def Let_def ex_query ms)
  have o: "any_order ex_order" by (simp add: any_order_def ex_order_def)
  have "merged exact_api ''app'' (sample_of ex_samples ''p0'' ''app'') (sample_of ex_samples ''p0'' ''app'')
     = Some \<lparr>cu_Container = ''app'', cu_CPU = mq 12500, cu_Memory = bq 12\<rparr>" by code_simp
  then have "\<exists>u \<in> set us. \<lparr>cu_Container = ''app'', cu_CPU = mq 12500, cu_Memory = bq 12\<rparr> \<in> set (pu_Containers u)"
    using prometheus_usage_exact [OF o us] by (auto simp: ex_query dest!: spec [of _ "''p0''"])
  then show ?thesis using us by blast
qed



text \<open>Sample values are read correctly rounded: a decimal number with a point is the nearest float64.\<close>

theorem sample_value_nearest:
  assumes "is_digits ds" "ds \<noteq> []" "is_digits es" "of_nat (digitsValue (digitsValue 0 ds) es) / 10 ^ length es \<le> (2::rat) ^ 200"
  shows "ParseFloat (ds @ ''.'' @ es) = Inr (Fin (rnd (of_nat (digitsValue (digitsValue 0 ds) es) / 10 ^ length es)))"
proof -
  let ?v = "of_nat (digitsValue (digitsValue 0 ds) es) / 10 ^ length es :: rat"
  have "\<bar>?v\<bar> = ?v" by simp
  then have "\<bar>?v\<bar> \<le> f64_half_limit" using le_half_limit [OF assms(4)] by (simp only:)
  then have "round64 ?v = Fin (rnd ?v)" by (rule round64_Fin)
  then show ?thesis by (simp only: ParseFloat_decimal [OF assms(1-3)] f64.case)
qed

section \<open>Divergences\<close>

text \<open>A NaN, which Prometheus sends for an undefined rate, is not skipped: on amd64 it is converted to the
  smallest \<open>int64\<close> and becomes a large negative CPU usage.\<close>

theorem nan_sample_becomes_usage:
  "decodeSample (ex_result ''app'' ''NaN'') = Some \<lparr>ps_pod = ''p0'', ps_container = ''app'', ps_value = NaN\<rparr>"
  "merged exact_api ''app'' (Some NaN) None =
     Some \<lparr>cu_Container = ''app'', cu_CPU = (- (2 ^ 63) / 1000, DecimalSI), cu_Memory = (0, DecimalSI)\<rparr>"
  by code_simp (simp add: merged_def)

text \<open>Two label keys that differ only in punctuation are the same label of \<open>kube_pod_labels\<close>.\<close>

theorem label_names_collide: "promLabelName ''app.name'' = promLabelName ''app/name''"
  by code_simp

end
