(* ===== verification/Startup.thy ===== *)
theory Startup
  imports Reconcile Prometheus
begin

text \<open>
  \<open>cmd/main.go\<close>: from the command line to a running operator.

  \<open>flags\<close> are the flag variables after \<open>flag.Parse\<close>, \<open>defaultFlags\<close> their defaults. What the libraries
  and the API server answer while the operator starts is the record \<open>startup\<close>; \<open>main\<close> is the body of
  \<open>main\<close> up to \<open>mgr.Start\<close>, with \<open>Inl\<close> for each \<open>os.Exit(1)\<close>. What it leaves behind is \<open>wiring\<close>: the
  options of the manager and the constructor arguments of everything the reconciler holds. The
  clients that serve a running operator are a \<open>platform\<close>; \<open>newReconciler\<close> composes them with the
  wiring into the \<open>reconciler\<close> of \<open>Reconcile\<close>, with the modelled metrics providers. Logging and the
  registration of the schemes are left out.
\<close>

section \<open>Flags\<close>

record flags =
  f_metricsAddr :: string
  f_probeAddr :: string
  f_enableLeaderElection :: bool
  f_secureMetrics :: bool
  f_webhookCertPath :: string
  f_webhookCertName :: string
  f_webhookCertKey :: string
  f_metricsCertPath :: string
  f_metricsCertName :: string
  f_metricsCertKey :: string
  f_enableHTTP2 :: bool
  f_prometheusURL :: string
  f_maxResizesPerMinute :: i64
  f_enablePodWebhook :: bool

definition defaultFlags :: flags where
  "defaultFlags =
     \<lparr>f_metricsAddr = ''0'', f_probeAddr = '':8081'', f_enableLeaderElection = False, f_secureMetrics = True,
      f_webhookCertPath = '''', f_webhookCertName = ''tls.crt'', f_webhookCertKey = ''tls.key'',
      f_metricsCertPath = '''', f_metricsCertName = ''tls.crt'', f_metricsCertKey = ''tls.key'',
      f_enableHTTP2 = False, f_prometheusURL = '''', f_maxResizesPerMinute = 30, f_enablePodWebhook = False\<rparr>"

section \<open>The servers\<close>

record tls_config =
  NextProtos :: "string list"

record webhook_options =
  wo_TLSOpts :: "(tls_config \<Rightarrow> tls_config) list"
  wo_CertDir :: string
  wo_CertName :: string
  wo_KeyName :: string

record metrics_options =
  mo_BindAddress :: string
  mo_SecureServing :: bool
  mo_TLSOpts :: "(tls_config \<Rightarrow> tls_config) list"
  mo_Authenticated :: bool  \<comment> \<open>\<open>FilterProvider\<close> is set to \<open>WithAuthenticationAndAuthorization\<close>\<close>
  mo_CertDir :: string
  mo_CertName :: string
  mo_KeyName :: string

record manager_options =
  MetricsOptions :: metrics_options
  WebhookServer :: webhook_options
  HealthProbeBindAddress :: string
  LeaderElection :: bool
  LeaderElectionID :: string

definition disableHTTP2 :: "tls_config \<Rightarrow> tls_config" where
  "disableHTTP2 c = c\<lparr>NextProtos := [''http/1.1'']\<rparr>"

definition tlsOpts :: "flags \<Rightarrow> (tls_config \<Rightarrow> tls_config) list" where
  "tlsOpts F = (if \<not> f_enableHTTP2 F then [disableHTTP2] else [])"

definition webhookServerOptions :: "flags \<Rightarrow> webhook_options" where
  "webhookServerOptions F =
     (let opts = \<lparr>wo_TLSOpts = tlsOpts F, wo_CertDir = '''', wo_CertName = '''', wo_KeyName = ''''\<rparr>
      in if 0 < length (f_webhookCertPath F)
         then opts\<lparr>wo_CertDir := f_webhookCertPath F, wo_CertName := f_webhookCertName F, wo_KeyName := f_webhookCertKey F\<rparr>
         else opts)"

definition metricsServerOptions :: "flags \<Rightarrow> metrics_options" where
  "metricsServerOptions F =
     (let opts = \<lparr>mo_BindAddress = f_metricsAddr F, mo_SecureServing = f_secureMetrics F, mo_TLSOpts = tlsOpts F,
                  mo_Authenticated = False, mo_CertDir = '''', mo_CertName = '''', mo_KeyName = ''''\<rparr>;
          opts = (if f_secureMetrics F then opts\<lparr>mo_Authenticated := True\<rparr> else opts)
      in if 0 < length (f_metricsCertPath F)
         then opts\<lparr>mo_CertDir := f_metricsCertPath F, mo_CertName := f_metricsCertName F, mo_KeyName := f_metricsCertKey F\<rparr>
         else opts)"

definition managerOptions :: "flags \<Rightarrow> manager_options" where
  "managerOptions F =
     \<lparr>MetricsOptions = metricsServerOptions F, WebhookServer = webhookServerOptions F,
      HealthProbeBindAddress = f_probeAddr F, LeaderElection = f_enableLeaderElection F,
      LeaderElectionID = ''59f7bfcc.kubera.io''\<rparr>"

section \<open>The rate limiter\<close>

record limiter_config =
  \<comment> \<open>the arguments of \<open>rate.NewLimiter\<close>\<close>
  lim_Rate :: f64
  lim_Burst :: i64

definition newLimiter :: "i64 \<Rightarrow> limiter_config" where
  "newLimiter maxResizesPerMinute =
     \<lparr>lim_Rate = f_div (f_of_i64 maxResizesPerMinute) (Fin 60),
      lim_Burst = max 1 (maxResizesPerMinute sdiv 6)\<rparr>"

section \<open>Starting\<close>

record startup =
  su_newManager :: "string option"
  su_metricsClient :: "string option"
  su_discoveryClient :: "string option"
  su_serverVersion :: "(string \<times> string) go_result"
  su_setupController :: "string option"
  su_setupWebhook :: "string option"
  su_healthz :: "string option"
  su_readyz :: "string option"

record wiring =
  wi_Manager :: manager_options
  wi_Prometheus :: "prometheus option"
  wi_Limiter :: limiter_config
  wi_ResizeSupported :: bool
  wi_WebhookEnabled :: bool
  wi_WebhookRegistered :: bool  \<comment> \<open>the Pod webhook was set up with the manager\<close>

definition resizeSupported :: "(string \<times> string) go_result \<Rightarrow> bool" where
  \<comment> \<open>an error disables actuation\<close>
  "resizeSupported version = (case DetectInPlaceResize version of Inl _ \<Rightarrow> False | Inr b \<Rightarrow> b)"

definition prometheusProvider :: "string \<Rightarrow> prometheus option" where
  "prometheusProvider url = (if url \<noteq> '''' then Some (NewPrometheusProvider url) else None)"

definition main :: "flags \<Rightarrow> startup \<Rightarrow> string + wiring" where
  "main F A =
     (case su_newManager A of Some _ \<Rightarrow> Inl ''Failed to start manager'' | None \<Rightarrow>
     (case su_metricsClient A of Some _ \<Rightarrow> Inl ''unable to create metrics client'' | None \<Rightarrow>
     (case su_discoveryClient A of Some _ \<Rightarrow> Inl ''unable to create discovery client'' | None \<Rightarrow>
        let w = \<lparr>wi_Manager = managerOptions F, wi_Prometheus = prometheusProvider (f_prometheusURL F),
                 wi_Limiter = newLimiter (f_maxResizesPerMinute F),
                 wi_ResizeSupported = resizeSupported (su_serverVersion A),
                 wi_WebhookEnabled = f_enablePodWebhook F, wi_WebhookRegistered = False\<rparr>
        in (case su_setupController A of Some _ \<Rightarrow> Inl ''Failed to create controller'' | None \<Rightarrow>
           (case (if f_enablePodWebhook F then su_setupWebhook A else None) of
              Some _ \<Rightarrow> Inl ''Failed to register pod webhook''
            | None \<Rightarrow>
               let w = (if f_enablePodWebhook F then w\<lparr>wi_WebhookRegistered := True\<rparr> else w)
               in (case su_healthz A of Some _ \<Rightarrow> Inl ''Failed to set up health check'' | None \<Rightarrow>
                  (case su_readyz A of Some _ \<Rightarrow> Inl ''Failed to set up ready check'' | None \<Rightarrow> Inr w)))))))"

section \<open>What runs\<close>

record ('q, 'ls, 'sel) platform =
  pf_client :: "('q, 'ls, 'sel) reconciler"
    \<comment> \<open>the manager's client and the libraries behind it; the fields that \<open>main\<close> sets are not read\<close>
  pf_limiter :: "limiter_config \<Rightarrow> 'q trace \<Rightarrow> bool"
  pf_podMetrics :: "string \<Rightarrow> 'sel \<Rightarrow> 'q pod_metrics list go_result"
  pf_requirements :: "'sel \<Rightarrow> requirement list \<times> bool"
  pf_http :: http
  pf_order :: map_order

definition newReconciler ::
  "'q quantity_api \<Rightarrow> wiring \<Rightarrow> ('q, 'ls, 'sel) platform \<Rightarrow> time \<Rightarrow> ('q, 'ls, 'sel) reconciler" where
  \<comment> \<open>the \<open>DynamicResourceReconciler\<close> of \<open>main\<close>, its clients answering as in \<open>P\<close>\<close>
  "newReconciler Q w P now =
     (let client = pf_client P; env = r_env client
      in client\<lparr>r_env := env\<lparr>e_api := (e_api env)\<lparr>limiter_allow := Some (pf_limiter P (wi_Limiter w))\<rparr>\<rparr>,
                Metrics := MetricsServerListPodUsage Q (pf_podMetrics P),
                PrometheusMetrics := map_option
                  (PrometheusListPodUsage Q (pf_requirements P) (pf_http P) (pf_order P) now) (wi_Prometheus w),
                ResizeSupported := wi_ResizeSupported w,
                WebhookEnabled := wi_WebhookEnabled w\<rparr>)"

definition startState :: "'q trace \<Rightarrow> 'q rec_state" where
  \<comment> \<open>a fresh recommender and a fresh cooldown tracker; the trace is that of the cluster\<close>
  "startState tr = \<lparr>rs_Recommender = New, rs_Cooldowns = NewCooldownTracker, rs_trace = tr\<rparr>"

section \<open>Lemmas\<close>

lemma main_Inr:
  assumes "main F A = Inr w"
  shows "wi_Manager w = managerOptions F" "wi_Prometheus w = prometheusProvider (f_prometheusURL F)"
    "wi_Limiter w = newLimiter (f_maxResizesPerMinute F)" "wi_ResizeSupported w = resizeSupported (su_serverVersion A)"
    "wi_WebhookEnabled w = f_enablePodWebhook F" "wi_WebhookRegistered w = f_enablePodWebhook F"
  using assms by (auto simp: main_def Let_def split: option.splits if_splits)

lemma newReconciler_simps [simp]:
  "r_get (newReconciler Q w P now) = r_get (pf_client P)"
  "r_listDynamicResources (newReconciler Q w P now) = r_listDynamicResources (pf_client P)"
  "r_listDeployments (newReconciler Q w P now) = r_listDeployments (pf_client P)"
  "r_selEmpty (newReconciler Q w P now) = r_selEmpty (pf_client P)"
  "r_selMatches (newReconciler Q w P now) = r_selMatches (pf_client P)"
  "e_asSelector (r_env (newReconciler Q w P now)) = e_asSelector (r_env (pf_client P))"
  "ResizeSupported (newReconciler Q w P now) = wi_ResizeSupported w"
  "WebhookEnabled (newReconciler Q w P now) = wi_WebhookEnabled w"
  "limiter_allow (e_api (r_env (newReconciler Q w P now))) = Some (pf_limiter P (wi_Limiter w))"
  by (simp_all add: newReconciler_def Let_def)

lemma default_limiter: "newLimiter (f_maxResizesPerMinute defaultFlags) = \<lparr>lim_Rate = Fin (1 / 2), lim_Burst = 5\<rparr>"
  by code_simp

end
