(* ===== verification/ReconcilePass.thy ===== *)
theory ReconcilePass
  imports ReconcileProps
begin

text \<open>
  A reconcile as seen from outside: either it is quiet, that is it touches no Pod, counts no resize and
  moves no cooldown, or it runs exactly one actuation pass, behind all its guards and on the
  recommendations it has just published. What is shown of passes carries over to reconciles from here.
\<close>

section \<open>Quiet effects\<close>

definition quiet :: "'q effect list \<Rightarrow> bool" where
  "quiet es \<longleftrightarrow> list_all (\<lambda>e. \<not> is_write e \<and> (\<forall>ns w d. e \<noteq> ResizeCounted ns w d)
     \<and> e \<noteq> EventRecorded EventWarning ''OOMFastPath'') es"

lemma quiet_simps [simp]:
  "quiet []" "quiet (xs @ ys) \<longleftrightarrow> quiet xs \<and> quiet ys" "quiet [StatusPatched ns n st r]"
  "quiet [EventRecorded EventNormal n]"
  "quiet [EventRecorded EventWarning ''Conflicted'']" "quiet [EventRecorded EventWarning ''VPAConflict'']"
  by (simp_all add: quiet_def is_write_def)

lemma quiet_no_write: "quiet es \<Longrightarrow> \<not> list_ex is_write es"
  by (auto simp: quiet_def list_all_iff list_ex_iff)

lemma counted_quiet: "quiet es \<Longrightarrow> quiet es' \<Longrightarrow> counted ns w d (es @ ext @ es') \<longleftrightarrow> counted ns w d ext"
  by (auto simp: counted_def quiet_def list_all_iff)

lemma not_counted_quiet: "quiet es \<Longrightarrow> \<not> counted ns w d es"
  by (auto simp: counted_def quiet_def list_all_iff)

lemma quiet_publishRecommendationMetrics: "quiet (publishRecommendationMetrics Q ns n recs)"
  by (auto simp: publishRecommendationMetrics_def quiet_def list_all_iff is_write_def Let_def)

section \<open>The end of a reconcile\<close>

definition quietly :: "'q rec_state \<Rightarrow> 'q rec_state \<Rightarrow> bool" where
  "quietly s s' \<longleftrightarrow> rs_Cooldowns s' = rs_Cooldowns s \<and> (\<exists>es. rs_trace s' = rs_trace s @ es \<and> quiet es)"

lemma quietly_refl [simp]: "quietly s s"
  by (auto simp: quietly_def intro: exI [of _ "[]"])

lemma quietly_trans: "quietly s s1 \<Longrightarrow> quietly s1 s' \<Longrightarrow> quietly s s'"
  by (auto simp: quietly_def)

lemma quietly_Recommender [simp]: "quietly (s\<lparr>rs_Recommender := r\<rparr>) s' \<longleftrightarrow> quietly s s'"
  by (simp add: quietly_def)

lemma quietly_emit: "quiet es \<Longrightarrow> quietly s (emit es s)"
  by (auto simp: quietly_def emit_def)

lemma quietly_finish [simp]: "quietly s (snd (finish R orig dr res s))"
  by (auto simp: finish_def patchStatus_def quietly_def Let_def split: option.split)

lemma quietly_publish: "publish Q R dr recs s = (dr', s') \<Longrightarrow> quietly s s'"
  by (auto simp: publish_def quietly_def emit_def quiet_publishRecommendationMetrics Let_def split: if_splits)

lemma quietly_reconcileReady [simp]: "quietly s (snd (reconcileReady R orig dr n s))"
  by (simp add: reconcileReady_def Let_def quietly_finish)

lemma finishError_Inl: "\<exists>err'. fst (finishError R orig dr err s) = Inl err'"
  by (auto simp: finishError_def split: prod.split sum.split)

section \<open>One actuation pass\<close>

definition ran_pass ::
  "'q quantity_api \<Rightarrow> ('q, 'ls, 'sel) reconciler \<Rightarrow> ('q, 'ls) dynamic_resource \<Rightarrow> 'ls deployment list \<Rightarrow> usage_map \<Rightarrow> time
   \<Rightarrow> 'q rec_state \<Rightarrow> 'q rec_result \<Rightarrow> bool" where
  \<comment> \<open>apart from quiet effects before and after, the reconcile is the actuation pass of \<open>dr\<close>; when it
      returns without error the pass did\<close>
  "ran_pass Q R dr matched usage now s out \<longleftrightarrow>
     (\<exists>pre post. quiet pre \<and> quiet post
        \<and> (let act = actuate Q (r_env R) (WebhookEnabled R) dr matched usage now (rs_Cooldowns s) (rs_trace s @ pre)
           in rs_trace (snd out) = ao_trace act @ post \<and> rs_Cooldowns (snd out) = ao_cooldowns act
            \<and> ((\<exists>d. fst out = Inr d) \<longrightarrow> ao_err act = None)))"

lemma reconcileActuate_ran:
  assumes "may_resize R dr"
  shows "ran_pass Q R dr matched usage now s (reconcileActuate Q R orig dr matched usage now s)"
proof -
  let ?act = "actuate Q (r_env R) (WebhookEnabled R) dr matched usage now (rs_Cooldowns s) (rs_trace s)"
  let ?s = "s\<lparr>rs_Cooldowns := ao_cooldowns ?act, rs_trace := ao_trace ?act\<rparr>"
  let ?o = "reconcileActuate Q R orig dr matched usage now s"
  have act: "?o = (case ao_err ?act of Some err \<Rightarrow> finishError R orig (ao_dr ?act) err ?s
       | None \<Rightarrow> reconcileReady R orig (resizeCondition R (ao_res ?act) (ao_dr ?act)) (length matched) ?s)"
    using assms by (auto simp: reconcileActuate_def may_resize_def Let_def)
  have "quietly ?s (snd ?o)"
    unfolding act by (auto simp: finishError_snd quietly_finish quietly_reconcileReady split: option.split)
  then obtain post where post: "quiet post" "rs_trace (snd ?o) = ao_trace ?act @ post" "rs_Cooldowns (snd ?o) = ao_cooldowns ?act"
    by (auto simp: quietly_def)
  moreover have "ao_err ?act = None" if "fst ?o = Inr d" for d
  proof (cases "ao_err ?act")
    case (Some err)
    then show ?thesis using that finishError_Inl [of R orig "ao_dr ?act" err ?s] unfolding act by auto
  qed
  ultimately show ?thesis
    unfolding ran_pass_def Let_def by (intro exI [of _ "[]"] exI [of _ post]) auto
qed

lemma reconcileActuate_pass:
  "quietly s (snd (reconcileActuate Q R orig dr matched usage now s))
   \<or> may_resize R dr \<and> ran_pass Q R dr matched usage now s (reconcileActuate Q R orig dr matched usage now s)"
proof (cases "may_resize R dr")
  case False
  then show ?thesis
    by (cases "UpdateMode (Spec dr)") (auto simp: reconcileActuate_def may_resize_def quietly_reconcileReady)
qed (simp add: reconcileActuate_ran)

lemma ran_pass_prefix:
  assumes "quietly s s1" "ran_pass Q R dr matched usage now s1 out"
  shows "ran_pass Q R dr matched usage now s out"
proof -
  obtain es where es: "rs_Cooldowns s1 = rs_Cooldowns s" "rs_trace s1 = rs_trace s @ es" "quiet es"
    using assms(1) by (auto simp: quietly_def)
  obtain pre post where p: "quiet pre" "quiet post"
    "let act = actuate Q (r_env R) (WebhookEnabled R) dr matched usage now (rs_Cooldowns s1) (rs_trace s1 @ pre)
     in rs_trace (snd out) = ao_trace act @ post \<and> rs_Cooldowns (snd out) = ao_cooldowns act
      \<and> ((\<exists>d. fst out = Inr d) \<longrightarrow> ao_err act = None)"
    using assms(2) unfolding ran_pass_def by blast
  show ?thesis unfolding ran_pass_def
    by (rule exI [of _ "es @ pre"], rule exI [of _ post]) (use p es in simp)
qed

section \<open>A reconcile is quiet or a pass\<close>

definition published :: "('q, 'ls, 'sel) reconciler \<Rightarrow> 'q recommendations \<Rightarrow> 'q recommendations \<Rightarrow> 'q recommendations" where
  \<comment> \<open>what the status holds after a pass that recommended \<open>recs\<close>\<close>
  "published R old recs =
     (let recs = (if recs = [] \<and> old \<noteq> [] then old else recs) in if r_recsEqual R old recs then old else recs)"

definition acts_on ::
  "libm \<Rightarrow> 'q quantity_api \<Rightarrow> ('q, 'ls, 'sel) reconciler \<Rightarrow> 'q rec_state \<Rightarrow> ('q, 'ls) dynamic_resource
   \<Rightarrow> 'ls deployment list \<Rightarrow> usage_map \<Rightarrow> ('q, 'ls) dynamic_resource \<Rightarrow> bool" where
  \<comment> \<open>every guard lets \<open>dr\<close> through with the workloads \<open>matched\<close>; \<open>dr'\<close> is \<open>dr\<close> with the recommendations
      just computed from the usage of these workloads\<close>
  "acts_on L Q R s dr matched usage dr' \<longleftrightarrow>
     validateBounds Q (r_quantityString R) (Spec dr) = None \<and> may_resize R dr
     \<and> matched \<noteq> [] \<and> resolveSelector R (rs_trace s) dr = Inr matched
     \<and> conflictedWorkloads R (rs_trace s) dr matched = Inr []
     \<and> vpaConflicts R (rs_trace s) (dr_Namespace dr) matched = Inr []
     \<and> Spec dr' = Spec dr \<and> dr_Namespace dr' = dr_Namespace dr \<and> dr_Name dr' = dr_Name dr
     \<and> (\<exists>recs r. computeRecommendations L Q (e_asSelector (r_env R))
            (providerFor (Spec dr) (PrometheusMetrics R) (Metrics R)) (dr_Namespace dr) (Spec dr) matched
            (rs_Recommender s) = Some (Inr (recs, usage), r)
          \<and> Recommendations (Status dr') = published R (Recommendations (Status dr)) recs)"

lemma publish_dr:
  assumes "publish Q R dr recs s = (dr', s')"
  shows "Spec dr' = Spec dr" "dr_Namespace dr' = dr_Namespace dr" "dr_Name dr' = dr_Name dr"
    "Recommendations (Status dr') = published R (Recommendations (Status dr)) recs"
  using assms by (auto simp: publish_def published_def Let_def split: if_splits)

lemma reconcileRecommend_pass:
  assumes r: "reconcileRecommend L Q R orig dr matched now s = Some (res, s')"
  shows "quietly s s' \<or> (\<exists>recs usage r dr1. may_resize R dr
     \<and> computeRecommendations L Q (e_asSelector (r_env R)) (providerFor (Spec dr) (PrometheusMetrics R) (Metrics R))
         (dr_Namespace dr) (Spec dr) matched (rs_Recommender s) = Some (Inr (recs, usage), r)
     \<and> Spec dr1 = Spec dr \<and> dr_Namespace dr1 = dr_Namespace dr \<and> dr_Name dr1 = dr_Name dr
     \<and> Recommendations (Status dr1) = published R (Recommendations (Status dr)) recs
     \<and> ran_pass Q R dr1 matched usage now s (res, s'))"
proof -
  let ?c = "computeRecommendations L Q (e_asSelector (r_env R))
      (providerFor (Spec dr) (PrometheusMetrics R) (Metrics R)) (dr_Namespace dr) (Spec dr) matched (rs_Recommender s)"
  let ?unsupported = "case MetricsCfg (Spec dr) of Some m \<Rightarrow> Provider m = MetricsProviderPrometheus \<and> PrometheusMetrics R = None
          | None \<Rightarrow> False"
  show ?thesis
  proof (cases ?unsupported)
    case True
    then have "s' = snd (finish R orig (setCondition R dr ConditionReady ConditionFalse ''UnsupportedProvider''
        ''Prometheus provider requested but the operator was started without --prometheus-url'') 0 s)"
      using r unfolding reconcileRecommend_def by (simp only: if_True option.inject) simp
    then show ?thesis by simp
  next
    case supported: False
    obtain result r1 where c: "?c = Some (result, r1)"
      using r supported unfolding reconcileRecommend_def by (cases ?c) auto
    note rr = r [unfolded reconcileRecommend_def if_not_P [OF supported] c option.case prod.case]
    show ?thesis
    proof (cases result)
      case (Inl err)
      then have "s' = snd (finish R orig (setCondition R dr ConditionReady ConditionFalse ''MetricsUnavailable'' err) 0
          (s\<lparr>rs_Recommender := r1\<rparr>))"
        using rr by (simp flip: finishError_snd [where err = "ErrOther err"])
      then have "quietly (s\<lparr>rs_Recommender := r1\<rparr>) s'" by (simp only: quietly_finish)
      then show ?thesis by simp
    next
      case (Inr ru)
      obtain recs usage where ru: "ru = (recs, usage)" by (cases ru)
      obtain dr1 s1 where p: "publish Q R dr recs (s\<lparr>rs_Recommender := r1\<rparr>) = (dr1, s1)" by fastforce
      then have o: "(res, s') = reconcileActuate Q R orig dr1 matched usage now s1"
        using rr by (simp add: Inr ru)
      have q: "quietly s s1" using quietly_publish [OF p] by simp
      have m: "may_resize R dr1 = may_resize R dr" by (simp add: may_resize_def publish_dr [OF p])
      from reconcileActuate_pass [where s = s1 and Q = Q and R = R and orig = orig and dr = dr1 and matched = matched and usage = usage and now = now, folded o] show ?thesis
      proof
        assume "quietly s1 (snd (res, s'))"
        then show ?thesis using quietly_trans [OF q] by simp
      next
        assume "may_resize R dr1 \<and> ran_pass Q R dr1 matched usage now s1 (res, s')"
        then show ?thesis using ran_pass_prefix [OF q] c publish_dr [OF p] m unfolding Inr ru by blast
      qed
    qed
  qed
qed

lemma Reconcile_pass:
  assumes r: "Reconcile L Q R namespace name now s = Some (res, s')"
  shows "quietly s s' \<or> (\<exists>dr matched usage dr'. r_get R (rs_trace s) namespace name = Inr (Some dr)
     \<and> acts_on L Q R s dr matched usage dr' \<and> ran_pass Q R dr' matched usage now s (res, s'))"
proof (cases "\<exists>dr. r_get R (rs_trace s) namespace name = Inr (Some dr)")
  case False
  then have "s' = s" using r by (auto simp: Reconcile_def split: sum.splits option.splits)
  then show ?thesis by simp
next
  case True
  then obtain dr where dr: "r_get R (rs_trace s) namespace name = Inr (Some dr)" by blast
  then have rr: "reconcileResource L Q R dr now s = Some (res, s')" using r by (simp add: Reconcile_def)
  let ?dr = "dr\<lparr>Status := (Status dr)\<lparr>ObservedGeneration := dr_Generation dr\<rparr>\<rparr>"
  let ?drm = "\<lambda>m. ?dr\<lparr>Status := (Status ?dr)\<lparr>MatchedWorkloads := workloadRefs m\<rparr>\<rparr>"
  let ?drc = "\<lambda>m. setCondition R (?drm m) ConditionConflicted ConditionFalse ''NoConflict'' ''no overlapping DynamicResource or VPA''"
  have fin: "quietly s (snd (finish R orig x t s))" "quietly s (snd (finish R orig x t (emit [EventRecorded EventWarning e] s)))"
    if "e \<in> {''Conflicted'', ''VPAConflict''}" for orig x t e
    using that by (auto intro!: quietly_trans [OF quietly_emit quietly_finish])
  note fin = fin(1) [OF insertI1] fin(2)
  have guards: "quietly s s' \<or> (\<exists>matched. validateBounds Q (r_quantityString R) (Spec dr) = None \<and> matched \<noteq> []
      \<and> resolveSelector R (rs_trace s) dr = Inr matched \<and> conflictedWorkloads R (rs_trace s) dr matched = Inr []
      \<and> vpaConflicts R (rs_trace s) (dr_Namespace dr) matched = Inr []
      \<and> reconcileRecommend L Q R dr (?drc matched) matched now s = Some (res, s'))"
  proof (cases "validateBounds Q (r_quantityString R) (Spec dr)")
    case (Some err)
    then show ?thesis using rr fin(1) by (auto simp: reconcileResource_def Let_def dest!: arg_cong [of _ _ snd])
  next
    case v: None
    show ?thesis
    proof (cases "resolveSelector R (rs_trace s) dr")
      case (Inl err)
      then show ?thesis using rr v fin(1) by (auto simp: reconcileResource_def Let_def dest!: arg_cong [of _ _ snd])
    next
      case m: (Inr matched)
      show ?thesis
      proof (cases "conflictedWorkloads R (rs_trace s) dr matched = Inr []
          \<and> vpaConflicts R (rs_trace s) (dr_Namespace dr) matched = Inr []")
        case False
        then show ?thesis using rr v m fin(2)
          by (auto simp: reconcileResource_def Let_def dest!: arg_cong [of _ _ snd] split: sum.splits if_splits)
      next
        case c: True
        show ?thesis
        proof (cases "matched = []")
          case True
          then show ?thesis using rr v m c fin(1)
            by (auto simp: reconcileResource_def Let_def dest!: arg_cong [of _ _ snd])
        next
          case False
          then have "reconcileRecommend L Q R dr (?drc matched) matched now s = Some (res, s')"
            using rr v m c by (simp add: reconcileResource_def Let_def)
          then show ?thesis using v m c False by blast
        qed
      qed
    qed
  qed
  show ?thesis
    using guards
  proof
    assume "\<exists>matched. validateBounds Q (r_quantityString R) (Spec dr) = None \<and> matched \<noteq> []
      \<and> resolveSelector R (rs_trace s) dr = Inr matched \<and> conflictedWorkloads R (rs_trace s) dr matched = Inr []
      \<and> vpaConflicts R (rs_trace s) (dr_Namespace dr) matched = Inr []
      \<and> reconcileRecommend L Q R dr (?drc matched) matched now s = Some (res, s')"
    then obtain matched where g: "validateBounds Q (r_quantityString R) (Spec dr) = None" "matched \<noteq> []"
      "resolveSelector R (rs_trace s) dr = Inr matched" "conflictedWorkloads R (rs_trace s) dr matched = Inr []"
      "vpaConflicts R (rs_trace s) (dr_Namespace dr) matched = Inr []"
      and rec: "reconcileRecommend L Q R dr (?drc matched) matched now s = Some (res, s')" by blast
    have same: "may_resize R (?drc matched) = may_resize R dr" "Recommendations (Status (?drc matched)) = Recommendations (Status dr)"
      by (simp_all add: may_resize_def setCondition_def)
    show ?thesis
      using reconcileRecommend_pass [OF rec] g dr unfolding acts_on_def same by auto
  qed simp
qed

end
