(* ===== verification/Limiter.thy ===== *)
theory Limiter
  imports ReconcilePass
begin

text \<open>
  The rate limiter that \<open>main.go\<close> shares between all reconciles (\<open>--max-resizes-per-minute\<close>). When the
  resizer has one, no write goes out on its own: each patch and each eviction is the very next thing
  done after the limiter granted it, and a grant is spent on one write at most.

  The locale \<open>pass_policy\<close> follows the calls from \<open>Resizer.Apply\<close> and \<open>Resizer.Evict\<close> up to a whole
  pass once, for any policy that single effects and sequences may be held to. It is interpreted for
  the limiter, for the workloads whose resizes are counted, and for the counter itself.
\<close>

section \<open>Metered traces\<close>

fun metered :: "bool \<Rightarrow> 'q effect list \<Rightarrow> bool" where
  \<comment> \<open>a write needs the grant that the effect right before it was; the flag says whether there is one\<close>
  "metered granted [] = True"
| "metered granted (e # es) = ((is_write e \<longrightarrow> granted) \<and> metered (e = LimiterAsked True) es)"

lemma metered_mono: "metered False es \<Longrightarrow> metered b es"
  by (cases es) auto

lemma metered_append: "metered b xs \<Longrightarrow> metered False ys \<Longrightarrow> metered b (xs @ ys)"
  by (induction xs arbitrary: b) (auto intro: metered_mono)

lemma metered_no_write: "\<not> list_ex is_write es \<Longrightarrow> metered b es"
  by (induction es arbitrary: b) auto

lemma metered_writes:
  \<comment> \<open>there are at most as many writes as grants\<close>
  "metered b es \<Longrightarrow> length (filter is_write es) \<le> length (filter (\<lambda>e. e = LimiterAsked True) es) + of_bool b"
proof (induction es arbitrary: b)
  case (Cons e es)
  show ?case using Cons.prems Cons.IH [of "e = LimiterAsked True"]
    by (cases "e = LimiterAsked True") (auto simp: is_write_def split: if_splits)
qed simp

section \<open>Policies on effects\<close>

lemma is_write_simps [simp]:
  "\<not> is_write (LimiterAsked b)" "\<not> is_write (EventRecorded t n)" "\<not> is_write (ResizeCounted ns w d)"
  "\<not> is_write (ReclaimablePublished ns dr w x y)" "\<not> is_write (RecommendedPublished ns dr w c x y)"
  "\<not> is_write (StatusPatched ns dr st r)" "is_write (ResizePatched ns p chs r)" "is_write (PodEvicted ns p r)"
  by (simp_all add: is_write_def)

locale pass_policy =
  fixes A :: "'q cluster_api"
    and J :: "'q effect list \<Rightarrow> bool"  \<comment> \<open>what may be done\<close>
    and W :: "string \<Rightarrow> string \<Rightarrow> bool"  \<comment> \<open>the workloads, by namespace and name, that may be resized\<close>
  assumes append: "J xs \<Longrightarrow> J ys \<Longrightarrow> J (xs @ ys)"
    and event: "J [EventRecorded t n]"
    and gauge: "J [ReclaimablePublished ns n w x y]"
    and applied: "W ns w \<Longrightarrow> Apply A ns plan tr = (err, tr') \<Longrightarrow>
      \<exists>ext. tr' @ (if err = None then [ResizeCounted ns w d] else []) = tr @ ext \<and> J ext"
    and evicted: "W ns w \<Longrightarrow> Evict A ns pod tr = (err, tr') \<Longrightarrow>
      \<exists>ext. tr' @ (if err = None then [ResizeCounted ns w d] else []) = tr @ ext \<and> J ext"
begin

definition grows :: "'q trace \<Rightarrow> 'q trace \<Rightarrow> bool" where
  "grows tr tr' \<longleftrightarrow> tr' = tr \<or> (\<exists>ext. tr' = tr @ ext \<and> J ext)"

lemma grows_refl [simp, intro]: "grows tr tr"
  by (simp add: grows_def)

lemma grows_trans: "grows tr tr1 \<Longrightarrow> grows tr1 tr' \<Longrightarrow> grows tr tr'"
  by (auto simp: grows_def intro: append)

lemma grows_emit: "grows tr tr' \<Longrightarrow> J es \<Longrightarrow> grows tr (tr' @ es)"
  by (auto simp: grows_def intro: append)

lemma grows_event: "grows tr (tr' @ es) \<Longrightarrow> grows tr (tr' @ es @ [EventRecorded t n])"
  using grows_emit [OF _ event] by fastforce

lemma grows_Apply:
  assumes "W ns w" "Apply A ns plan tr = (err, tr')"
  shows "err = None \<Longrightarrow> grows tr (tr' @ [ResizeCounted ns w d])" "err \<noteq> None \<Longrightarrow> grows tr tr'"
  using applied [OF assms, of d] by (auto simp: grows_def)

lemma grows_Evict:
  assumes "W ns w" "Evict A ns pod tr = (err, tr')"
  shows "err = None \<Longrightarrow> grows tr (tr' @ [ResizeCounted ns w d])" "err \<noteq> None \<Longrightarrow> grows tr tr'"
  using evicted [OF assms, of d] by (auto simp: grows_def)

lemmas grows_counted = grows_event [OF grows_Apply(1), simplified] grows_event [OF grows_Evict(1), simplified]

lemma grows_evictPod:
  "W (wp_Namespace X) (wp_Workload X) \<Longrightarrow> grows (ps_trace st) (ps_trace (evictPod A X pod st))"
  by (auto simp: evictPod_def countResized_def Let_def dest: grows_Evict intro: grows_counted
      split: prod.split option.split)

lemma grows_applyOOM:
  "W (wp_Namespace X) (wp_Workload X) \<Longrightarrow> applyOOM A X plan st = (err, st') \<Longrightarrow> grows (ps_trace st) (ps_trace st')"
  by (auto simp: applyOOM_def countResized_def Let_def dest: grows_Apply intro: grows_counted
      split: prod.splits option.splits go_error.splits)

lemma grows_applyPlan:
  "W (wp_Namespace X) (wp_Workload X) \<Longrightarrow> applyPlan A X plan st = (err, st') \<Longrightarrow> grows (ps_trace st) (ps_trace st')"
  by (auto simp: applyPlan_def countResized_def Let_def dest: grows_Apply
      split: prod.splits option.splits go_error.splits if_splits)

lemma grows_actuatePod:
  "W (wp_Namespace X) (wp_Workload X) \<Longrightarrow> actuatePod Q A X pod st = (err, st') \<Longrightarrow> grows (ps_trace st) (ps_trace st')"
  by (auto simp: actuatePod_def grows_evictPod dest: grows_applyOOM grows_applyPlan split: if_splits option.splits)

lemma grows_actuatePods:
  "W (wp_Namespace X) (wp_Workload X) \<Longrightarrow> actuatePods Q A X pods st = (err, st') \<Longrightarrow> grows (ps_trace st) (ps_trace st')"
proof (induction pods arbitrary: st)
  case (Cons pod pods)
  then show ?case
    by (auto intro: grows_trans dest: grows_actuatePod split: prod.splits option.splits)
qed simp

lemma grows_actuateWorkload:
  assumes A: "e_api E = A" and w: "W (dr_Namespace dr) (d_Name deploy)"
    and a: "actuateWorkload Q E wh dr usage now byWorkload deploy st = (err, st')"
  shows "grows (as_trace st) (as_trace st')"
proof -
  have pub: "J [publishReclaimableMetrics Q ns n w pods targets]" for ns n w and pods :: "'q pod list" and targets
    by (simp add: publishReclaimableMetrics_def gauge split: prod.split)
  have *: "grows tr (ps_trace ps)" if "actuatePods Q A X pods
      \<lparr>ps_trace = tr @ [publishReclaimableMetrics Q ns n w pods' targets], ps_res = r, ps_resizedDirections = [], ps_evictBudget = 1\<rparr>
      = (e, ps)" "W (wp_Namespace X) (wp_Workload X)" for X pods tr ns n w pods' targets r e ps
    using grows_trans [OF grows_emit [OF grows_refl pub] grows_actuatePods [OF that(2,1), simplified]] .
  show ?thesis using a w
    by (auto simp: actuateWorkload_def A Let_def dest!: * split: option.splits sum.splits prod.splits if_splits)
qed

lemma grows_actuateLoop:
  assumes "e_api E = A"
  shows "\<forall>d \<in> set ds. W (dr_Namespace dr) (d_Name d) \<Longrightarrow> actuateLoop Q E wh dr usage now byWorkload ds st = (err, st') \<Longrightarrow>
    grows (as_trace st) (as_trace st')"
proof (induction ds arbitrary: st)
  case (Cons d ds)
  then show ?case
    by (auto intro: grows_trans dest: grows_actuateWorkload [OF assms] split: prod.splits option.splits)
qed simp

lemma actuate_grows:
  assumes "e_api E = A" "\<forall>d \<in> set matched. W (dr_Namespace dr) (d_Name d)"
  shows "grows tr (ao_trace (actuate Q E wh dr matched usage now cds tr))"
  using assms(2)
  by (auto simp: actuate_def Let_def intro!: grows_emit event dest: grows_actuateLoop [OF assms(1)] split: prod.splits option.splits)

lemma actuate_policy:
  assumes "e_api E = A" "\<forall>d \<in> set matched. W (dr_Namespace dr) (d_Name d)"
    and "ao_trace (actuate Q E wh dr matched usage now cds tr) = tr @ ext"
  shows "ext = [] \<or> J ext"
  using actuate_grows [OF assms(1,2), of tr Q wh usage now cds] assms(3) by (auto simp: grows_def)

end

locale reconcile_policy = pass_policy A J W for A :: "'q cluster_api" and J W +
  assumes quiet: "quiet es \<Longrightarrow> J es"
begin

lemma actuate_J:
  assumes "e_api E = A" "\<forall>d \<in> set matched. W (dr_Namespace dr) (d_Name d)"
  shows "\<exists>ext. ao_trace (actuate Q E wh dr matched usage now cds tr) = tr @ ext \<and> J ext"
  using actuate_grows [OF assms, of tr Q wh usage now cds] quiet [of "[]"] by (auto simp: grows_def)

lemma Reconcile_J:
  assumes A: "e_api (r_env R) = A" and r: "Reconcile L Q R namespace name now s = Some (res, s')"
    and w: "\<And>dr matched usage dr'. r_get R (rs_trace s) namespace name = Inr (Some dr) \<Longrightarrow>
      acts_on L Q R s dr matched usage dr' \<Longrightarrow> \<forall>d \<in> set matched. W (dr_Namespace dr) (d_Name d)"
  shows "\<exists>ext. rs_trace s' = rs_trace s @ ext \<and> J ext"
  using Reconcile_pass [OF r]
proof
  assume "quietly s s'"
  then show ?thesis by (auto simp: quietly_def quiet)
next
  assume "\<exists>dr matched usage dr'. r_get R (rs_trace s) namespace name = Inr (Some dr)
     \<and> acts_on L Q R s dr matched usage dr' \<and> ran_pass Q R dr' matched usage now s (res, s')"
  then obtain dr matched usage dr' where g: "r_get R (rs_trace s) namespace name = Inr (Some dr)"
    "acts_on L Q R s dr matched usage dr'" "ran_pass Q R dr' matched usage now s (res, s')" by blast
  have "\<forall>d \<in> set matched. W (dr_Namespace dr') (d_Name d)"
    using w [OF g(1,2)] g(2) by (simp add: acts_on_def)
  note act = actuate_J [OF A this]
  obtain pre post where p: "quiet pre" "quiet post"
    "rs_trace s' = ao_trace (actuate Q (r_env R) (WebhookEnabled R) dr' matched usage now (rs_Cooldowns s) (rs_trace s @ pre)) @ post"
    using g(3) by (auto simp: ran_pass_def Let_def)
  obtain ext where ext: "rs_trace s' = ((rs_trace s @ pre) @ ext) @ post" "J ext"
    using act [where tr = "rs_trace s @ pre"] unfolding p(3) by metis
  have "J (pre @ ext @ post)" by (intro append quiet p(1,2) ext(2))
  then show ?thesis using ext(1) by (intro exI [of _ "pre @ ext @ post"]) simp
qed

end

section \<open>Scope\<close>

definition in_scope :: "(string \<Rightarrow> string \<Rightarrow> bool) \<Rightarrow> 'q effect \<Rightarrow> bool" where
  "in_scope W e \<longleftrightarrow> (case e of ResizeCounted ns w _ \<Rightarrow> W ns w | _ \<Rightarrow> True)"

lemma in_scope_simps [simp]:
  "in_scope W (LimiterAsked b)" "in_scope W (EventRecorded t n)" "in_scope W (ResizeCounted ns w d) \<longleftrightarrow> W ns w"
  "in_scope W (ReclaimablePublished ns dr w x y)" "in_scope W (ResizePatched ns p chs r)" "in_scope W (PodEvicted ns p r)"
  by (simp_all add: in_scope_def)

section \<open>The limiter\<close>

definition limited :: "'q cluster_api \<Rightarrow> bool" where
  "limited A \<longleftrightarrow> limiter_allow A \<noteq> None"

lemma metered_Apply:
  "limited A \<Longrightarrow> Apply A ns plan tr = (err, tr') \<Longrightarrow> \<not> list_ex is_write es \<Longrightarrow> \<exists>ext. tr' @ es = tr @ ext \<and> metered False ext"
  by (auto simp: Apply_def limiterAllow_def limited_def Let_def metered_no_write split: if_splits option.splits)

lemma metered_Evict:
  "limited A \<Longrightarrow> Evict A ns pod tr = (err, tr') \<Longrightarrow> \<not> list_ex is_write es \<Longrightarrow> \<exists>ext. tr' @ es = tr @ ext \<and> metered False ext"
  by (auto simp: Evict_def limiterAllow_def limited_def Let_def metered_no_write split: if_splits)

lemma Apply_grows:
  "Apply A ns plan tr = (err, tr') \<Longrightarrow> list_all (in_scope W) es \<Longrightarrow> \<exists>ext. tr' @ es = tr @ ext \<and> list_all (in_scope W) ext"
  by (auto simp: Apply_def limiterAllow_def Let_def split: if_splits option.splits)

lemma Evict_grows:
  "Evict A ns pod tr = (err, tr') \<Longrightarrow> list_all (in_scope W) es \<Longrightarrow> \<exists>ext. tr' @ es = tr @ ext \<and> list_all (in_scope W) ext"
  by (auto simp: Evict_def limiterAllow_def Let_def split: if_splits option.splits)

interpretation meter: reconcile_policy A "\<lambda>es. limited A \<longrightarrow> metered False es" "\<lambda>_ _. True" for A :: "'q cluster_api"
proof unfold_locales
  fix ns w :: string and plan :: "'q pod_plan" and pod and tr tr' :: "'q trace" and err :: "go_error option" and d
  let ?es = "if err = None then [ResizeCounted ns w d] else [] :: 'q effect list"
  have e: "\<not> list_ex is_write ?es" "list_all (in_scope (\<lambda>_ _. True)) ?es" by simp_all
  show "\<exists>ext. tr' @ ?es = tr @ ext \<and> (limited A \<longrightarrow> metered False ext)" if "Apply A ns plan tr = (err, tr')"
    using metered_Apply [OF _ that e(1)] Apply_grows [OF that e(2)] by blast
  show "\<exists>ext. tr' @ ?es = tr @ ext \<and> (limited A \<longrightarrow> metered False ext)" if "Evict A ns pod tr = (err, tr')"
    using metered_Evict [OF _ that e(1)] Evict_grows [OF that e(2)] by blast
next
  fix es :: "'q effect list" assume "quiet es"
  then show "limited A \<longrightarrow> metered False es" by (simp add: metered_no_write quiet_no_write)
qed (auto intro: metered_append)

section \<open>The workloads of a pass\<close>

lemma quiet_in_scope: "quiet es \<Longrightarrow> list_all (in_scope W) es"
  by (auto simp: quiet_def list_all_iff in_scope_def split: effect.split)

interpretation scope: reconcile_policy A "list_all (in_scope W)" W for A :: "'q cluster_api" and W
proof unfold_locales
  fix ns w and plan :: "'q pod_plan" and pod and tr tr' :: "'q trace" and err :: "go_error option" and d
  let ?es = "if err = None then [ResizeCounted ns w d] else [] :: 'q effect list"
  assume "W ns w"
  then have e: "list_all (in_scope W) ?es" by simp
  show "\<exists>ext. tr' @ ?es = tr @ ext \<and> list_all (in_scope W) ext" if "Apply A ns plan tr = (err, tr')"
    using Apply_grows [OF that e] .
  show "\<exists>ext. tr' @ ?es = tr @ ext \<and> list_all (in_scope W) ext" if "Evict A ns pod tr = (err, tr')"
    using Evict_grows [OF that e] .
qed (simp_all add: quiet_in_scope)

lemma counted_in_scope:
  assumes "list_all (in_scope W) es" "ResizeCounted ns w d \<in> set es"
  shows "W ns w"
  using assms by (auto simp: list_all_iff in_scope_def)

section \<open>The counter\<close>

definition is_counted :: "'q effect \<Rightarrow> bool" where
  "is_counted e \<longleftrightarrow> (case e of ResizeCounted _ _ _ \<Rightarrow> True | _ \<Rightarrow> False)"

lemma is_counted_simps [simp]:
  "\<not> is_counted (LimiterAsked b)" "\<not> is_counted (EventRecorded t n)" "is_counted (ResizeCounted ns w d)"
  "\<not> is_counted (ReclaimablePublished ns dr w x y)" "\<not> is_counted (ResizePatched ns p chs r)" "\<not> is_counted (PodEvicted ns p r)"
  by (simp_all add: is_counted_def)

definition balanced :: "'q effect list \<Rightarrow> bool" where
  \<comment> \<open>every accepted write was counted, and nothing else\<close>
  "balanced es \<longleftrightarrow> length (filter is_counted es) = length (filter is_success es)"

lemma quiet_balanced:
  assumes "quiet es"
  shows "balanced es"
proof -
  have "\<not> is_counted e \<and> \<not> is_success e" if "e \<in> set es" for e
    using assms that by (cases e) (auto simp: quiet_def list_all_iff is_counted_def is_success_def)
  then have "filter is_counted es = []" "filter is_success es = []" by (auto simp: filter_empty_conv)
  then show ?thesis by (simp add: balanced_def)
qed

interpretation balance: reconcile_policy A balanced "\<lambda>_ _. True" for A :: "'q cluster_api"
proof unfold_locales
  fix ns w and plan :: "'q pod_plan" and pod and tr tr' :: "'q trace" and err :: "go_error option" and d
  let ?es = "if err = None then [ResizeCounted ns w d] else [] :: 'q effect list"
  show "\<exists>ext. tr' @ ?es = tr @ ext \<and> balanced ext" if "Apply A ns plan tr = (err, tr')"
    using that by (cases rule: Apply_cases) (auto simp: balanced_def filter_empty_conv intro!: exI [of _ "_ @ _"])
  show "\<exists>ext. tr' @ ?es = tr @ ext \<and> balanced ext" if "Evict A ns pod tr = (err, tr')"
    using that by (cases rule: Evict_cases) (auto simp: balanced_def filter_empty_conv intro!: exI [of _ "_ @ _"])
qed (simp_all add: quiet_balanced, simp_all add: balanced_def)

end
