(* ===== verification/Gauges.thy ===== *)
theory Gauges
  imports Limiter
begin

text \<open>
  The collectors of \<open>internal/controller/prommetrics.go\<close>: what a scrape of the operator reads after the
  effects of a trace. A gauge holds the last value set for its labels, the counter of resizes what was
  added for its labels; they start out empty with the process.
\<close>

section \<open>Definitions\<close>

record registry =
  recommendedCPU :: "(string \<times> string \<times> string \<times> string, f64) gomap"
    \<comment> \<open>by namespace, dynamicresource, workload and container\<close>
  recommendedMemory :: "(string \<times> string \<times> string \<times> string, f64) gomap"
  reclaimableCPU :: "(string \<times> string \<times> string, f64) gomap"
    \<comment> \<open>by namespace, dynamicresource and workload\<close>
  reclaimableMemory :: "(string \<times> string \<times> string, f64) gomap"
  resizesTotal :: "(string \<times> string \<times> direction, nat) gomap"
    \<comment> \<open>by namespace, workload and direction\<close>

definition newRegistry :: registry where
  "newRegistry = \<lparr>recommendedCPU = [], recommendedMemory = [], reclaimableCPU = [], reclaimableMemory = [], resizesTotal = []\<rparr>"

fun collect :: "registry \<Rightarrow> 'q effect \<Rightarrow> registry" where
  "collect g (RecommendedPublished ns dr w c cpu mem) =
     g\<lparr>recommendedCPU := AList.update (ns, dr, w, c) cpu (recommendedCPU g),
       recommendedMemory := AList.update (ns, dr, w, c) mem (recommendedMemory g)\<rparr>"
| "collect g (ReclaimablePublished ns dr w cpu mem) =
     g\<lparr>reclaimableCPU := AList.update (ns, dr, w) cpu (reclaimableCPU g),
       reclaimableMemory := AList.update (ns, dr, w) mem (reclaimableMemory g)\<rparr>"
| "collect g (ResizeCounted ns w d) =
     g\<lparr>resizesTotal := AList.update (ns, w, d) (map_zero 0 (resizesTotal g) (ns, w, d) + 1) (resizesTotal g)\<rparr>"
| "collect g _ = g"

definition scrape :: "'q trace \<Rightarrow> registry" where
  "scrape tr = foldl collect newRegistry tr"

section \<open>The counter\<close>

lemma scrape_snoc: "scrape (tr @ [e]) = collect (scrape tr) e"
  by (simp add: scrape_def)

lemma scrape_wf: "gomap_wf (resizesTotal (scrape tr))"
proof (induction tr rule: rev_induct)
  case Nil
  show ?case by (simp add: scrape_def newRegistry_def)
next
  case (snoc e tr)
  then show ?case by (cases e) (simp_all add: scrape_snoc distinct_update)
qed

lemma resizesTotal_key:
  "map_zero 0 (resizesTotal (scrape tr)) (ns, w, d) = length (filter (\<lambda>e. e = ResizeCounted ns w d) tr)"
proof (induction tr rule: rev_induct)
  case Nil
  show ?case by (simp add: scrape_def newRegistry_def map_zero_def)
next
  case (snoc e tr)
  then show ?case by (cases e) (auto simp: scrape_snoc map_zero_def map_of_update)
qed

lemma sum_update:
  "gomap_wf m \<Longrightarrow> sum_list (map snd (AList.update k (map_zero 0 m k + 1) m)) = sum_list (map snd m) + (1 :: nat)"
proof (induction m)
  case (Cons kv m)
  obtain k' v where kv: "kv = (k', v)" by (cases kv)
  show ?case
  proof (cases "k' = k")
    case False
    then have "map_zero 0 (kv # m) k = map_zero 0 m k" by (simp add: kv map_zero_def)
    then show ?thesis using Cons False by (simp add: kv)
  qed (simp add: kv map_zero_def)
qed (simp add: map_zero_def)

lemma resizesTotal_sum: "sum_list (map snd (resizesTotal (scrape tr))) = length (filter is_counted tr)"
proof (induction tr rule: rev_induct)
  case Nil
  show ?case by (simp add: scrape_def newRegistry_def)
next
  case (snoc e tr)
  then show ?case by (cases e) (simp_all add: scrape_snoc sum_update [OF scrape_wf, simplified] is_counted_def)
qed

lemma balanced_counter: "balanced tr \<Longrightarrow> sum_list (map snd (resizesTotal (scrape tr))) = length (filter is_success tr)"
  by (simp add: resizesTotal_sum balanced_def)

end
