(* ===== verification/Operator.thy ===== *)
theory Operator
  imports Startup Gauges
begin

text \<open>
  The operator over its whole life, restarts included. \<open>controller-runtime\<close> runs the reconciles one after
  the other (\<open>MaxConcurrentReconciles\<close> is left at 1), each for some DynamicResource, at some later
  time, in a cluster that may have changed in any way: an event carries its own \<open>platform\<close>. A restart
  loses the recommender and the cooldowns and wires the operator anew from its flags; the trace is that
  of the cluster and goes on. \<open>op_step\<close> has one rule per kind of event and \<open>op_run\<close> is its closure; what
  holds of every run is shown by induction over \<open>op_run\<close>.
\<close>

section \<open>States, events and runs\<close>

record 'q op_state =
  op_wiring :: wiring
  op_rec :: "'q rec_state"
  op_now :: time

datatype ('q, 'ls, 'sel) op_event =
    Reconciled "('q, 'ls, 'sel) platform" string string time
  | Restarted flags startup time

definition started :: "wiring \<Rightarrow> 'q trace \<Rightarrow> time \<Rightarrow> 'q op_state" where
  "started w tr now = \<lparr>op_wiring = w, op_rec = startState tr, op_now = now\<rparr>"

inductive op_step ::
  "libm \<Rightarrow> 'q quantity_api \<Rightarrow> 'q op_state \<Rightarrow> ('q, 'ls, 'sel) op_event \<Rightarrow> 'q op_state \<Rightarrow> bool" for L Q where
    reconciled: "op_now s \<le> now \<Longrightarrow>
      Reconcile L Q (newReconciler Q (op_wiring s) P now) namespace name now (op_rec s) = Some (res, r) \<Longrightarrow>
      op_step L Q s (Reconciled P namespace name now) (s\<lparr>op_rec := r, op_now := now\<rparr>)"
  | restarted: "op_now s \<le> now \<Longrightarrow> main F A = Inr w \<Longrightarrow>
      op_step L Q s (Restarted F A now) (started w (rs_trace (op_rec s)) now)"

inductive_cases reconciledE: "op_step L Q s (Reconciled P namespace name now) s'"
inductive_cases restartedE: "op_step L Q s (Restarted F A now) s'"

inductive op_run ::
  "libm \<Rightarrow> 'q quantity_api \<Rightarrow> 'q op_state \<Rightarrow> ('q, 'ls, 'sel) op_event list \<Rightarrow> 'q op_state \<Rightarrow> bool" for L Q where
    nil: "op_run L Q s [] s"
  | snoc: "op_run L Q s es s1 \<Longrightarrow> op_step L Q s1 e s' \<Longrightarrow> op_run L Q s (es @ [e]) s'"

inductive_simps op_run_Nil: "op_run L Q s [] s'"

lemma op_run_single: "op_step L Q s e s' \<Longrightarrow> op_run L Q s [e] s'"
  using op_run.snoc [OF op_run.nil] by fastforce

lemma op_run_trans: "op_run L Q s1 es' s' \<Longrightarrow> op_run L Q s es s1 \<Longrightarrow> op_run L Q s (es @ es') s'"
proof (induction rule: op_run.induct)
  case (snoc s es1 s1 e s')
  then show ?case using op_run.snoc [of L Q _ "es @ es1"] by simp
qed simp

section \<open>One event\<close>

abbreviation op_trace :: "'q op_state \<Rightarrow> 'q trace" where
  "op_trace s \<equiv> rs_trace (op_rec s)"

fun event_time :: "('q, 'ls, 'sel) op_event \<Rightarrow> time" where
  "event_time (Reconciled P namespace name now) = now"
| "event_time (Restarted F A now) = now"

fun is_restart :: "('q, 'ls, 'sel) op_event \<Rightarrow> bool" where
  "is_restart (Restarted F A now) = True"
| "is_restart (Reconciled P namespace name now) = False"

definition lists_once :: "('q, 'ls, 'sel) reconciler \<Rightarrow> bool" where
  \<comment> \<open>the API server never lists two Deployments of one name in a namespace\<close>
  "lists_once R \<longleftrightarrow> (\<forall>tr ns sel ds. r_listDeployments R tr ns sel = Inr ds \<longrightarrow> distinct (map d_Name ds))"

lemma lists_once_newReconciler [simp]: "lists_once (newReconciler Q w P now) = lists_once (pf_client P)"
  by (simp add: lists_once_def)

fun lists_distinct :: "('q, 'ls, 'sel) op_event \<Rightarrow> bool" where
  "lists_distinct (Reconciled P namespace name now) \<longleftrightarrow> lists_once (pf_client P)"
| "lists_distinct (Restarted F A now) \<longleftrightarrow> True"

lemma op_step_time: "op_step L Q s e s' \<Longrightarrow> op_now s \<le> op_now s' \<and> op_now s' = event_time e"
  by (auto elim!: op_step.cases simp: started_def)

lemma Reconcile_metered:
  assumes "Reconcile L Q (newReconciler Q w P now) namespace name now s = Some (res, s')"
  shows "\<exists>ext. rs_trace s' = rs_trace s @ ext \<and> metered False ext"
proof -
  have "limited (e_api (r_env (newReconciler Q w P now)))" by (simp add: limited_def)
  then show ?thesis using meter.Reconcile_J [OF refl assms] by simp
qed

lemma op_step_metered: "op_step L Q s e s' \<Longrightarrow> \<exists>ext. op_trace s' = op_trace s @ ext \<and> metered False ext"
  by (auto elim!: op_step.cases dest: Reconcile_metered simp: started_def startState_def)

lemma op_run_metered: "op_run L Q s es s' \<Longrightarrow> \<exists>ext. op_trace s' = op_trace s @ ext \<and> metered False ext"
  by (induction rule: op_run.induct) (auto dest!: op_step_metered intro: metered_append)

lemma op_step_balanced: "op_step L Q s e s' \<Longrightarrow> \<exists>ext. op_trace s' = op_trace s @ ext \<and> balanced ext"
  by (auto elim!: op_step.cases dest: balance.Reconcile_J [OF refl] simp: started_def startState_def quiet_balanced)

lemma op_run_balanced: "op_run L Q s es s' \<Longrightarrow> \<exists>ext. op_trace s' = op_trace s @ ext \<and> balanced ext"
  by (induction rule: op_run.induct) (auto dest!: op_step_balanced intro: balance.append simp: quiet_balanced)

section \<open>What an event may write\<close>

definition written_by ::
  "libm \<Rightarrow> 'q quantity_api \<Rightarrow> 'q op_state \<Rightarrow> ('q, 'ls, 'sel) op_event \<Rightarrow> 'q effect \<Rightarrow> bool" where
  \<comment> \<open>the event is a reconcile that every guard let through, and the write is admitted for the
      recommendations it has just computed\<close>
  "written_by L Q s ev e \<longleftrightarrow>
     (case ev of
        Restarted F A now \<Rightarrow> False
      | Reconciled P namespace name now \<Rightarrow>
          let R = newReconciler Q (op_wiring s) P now
          in \<exists>dr matched usage dr'. r_get R (op_trace s) namespace name = Inr (Some dr)
               \<and> acts_on L Q R (op_rec s) dr matched usage dr'
               \<and> admitted Q (r_env R) (WebhookEnabled R) dr' matched usage now e)"

lemma acts_on_distinct:
  assumes "acts_on L Q R s dr matched usage dr'" "lists_once R"
  shows "distinct (map d_Name matched)"
  using assms by (auto simp: acts_on_def lists_once_def resolveSelector_def distinct_map split: sum.splits if_splits)

lemma Reconcile_admitted:
  assumes r: "Reconcile L Q R namespace name now s = Some (res, s')"
    and d: "lists_once R"
  shows "\<exists>ext. rs_trace s' = rs_trace s @ ext \<and> (\<forall>e \<in> set ext. is_write e \<longrightarrow>
    (\<exists>dr matched usage dr'. r_get R (rs_trace s) namespace name = Inr (Some dr) \<and> acts_on L Q R s dr matched usage dr'
       \<and> admitted Q (r_env R) (WebhookEnabled R) dr' matched usage now e))"
  using Reconcile_pass [OF r]
proof
  assume "quietly s s'"
  then show ?thesis by (auto simp: quietly_def dest!: quiet_no_write) (auto simp: list_ex_iff)
next
  assume "\<exists>dr matched usage dr'. r_get R (rs_trace s) namespace name = Inr (Some dr)
     \<and> acts_on L Q R s dr matched usage dr' \<and> ran_pass Q R dr' matched usage now s (res, s')"
  then obtain dr matched usage dr' where g: "r_get R (rs_trace s) namespace name = Inr (Some dr)"
    "acts_on L Q R s dr matched usage dr'" "ran_pass Q R dr' matched usage now s (res, s')" by blast
  obtain pre post where p: "quiet pre" "quiet post"
    "rs_trace s' = ao_trace (actuate Q (r_env R) (WebhookEnabled R) dr' matched usage now (rs_Cooldowns s) (rs_trace s @ pre)) @ post"
    using g(3) by (auto simp: ran_pass_def Let_def)
  note act = actuate_step [OF acts_on_distinct [OF g(2) d]]
  obtain ext where ext: "rs_trace s' = ((rs_trace s @ pre) @ ext) @ post"
    "list_all (admitted Q (r_env R) (WebhookEnabled R) dr' matched usage now) ext"
    using act [of Q "r_env R" "WebhookEnabled R" dr' usage now "rs_Cooldowns s" "rs_trace s @ pre"]
    unfolding p(3) by metis
  have "admitted Q (r_env R) (WebhookEnabled R) dr' matched usage now e" if "e \<in> set (pre @ ext @ post)" "is_write e" for e
    using that ext(2) p(1,2) by (auto simp: list_all_iff list_ex_iff dest!: quiet_no_write)
  then show ?thesis using g(1,2) ext(1) by (intro exI [of _ "pre @ ext @ post"]) auto
qed

lemma op_step_written:
  assumes "op_step L Q s ev s'" "lists_distinct ev"
  shows "\<exists>ext. op_trace s' = op_trace s @ ext \<and> (\<forall>e \<in> set ext. is_write e \<longrightarrow> written_by L Q s ev e)"
  using assms
proof (cases rule: op_step.cases)
  case (reconciled now P namespace name res r)
  have "lists_once (newReconciler Q (op_wiring s) P now)"
    using assms(2) unfolding reconciled(1) by simp
  from Reconcile_admitted [OF reconciled(4) this] show ?thesis
    unfolding reconciled(1,2) written_by_def Let_def by simp
next
  case (restarted now F A w)
  then show ?thesis by (simp add: started_def startState_def)
qed

lemma op_run_written:
  assumes "op_run L Q s es s'" "\<forall>ev \<in> set es. lists_distinct ev"
  shows "\<exists>ext. op_trace s' = op_trace s @ ext \<and> (\<forall>e \<in> set ext. is_write e \<longrightarrow>
    (\<exists>before ev after s1. es = before @ ev # after \<and> op_run L Q s before s1 \<and> written_by L Q s1 ev e))"
  using assms
proof (induction rule: op_run.induct)
  case (snoc s es s1 ev s')
  obtain ext where 1: "op_trace s1 = op_trace s @ ext" "\<And>e. e \<in> set ext \<Longrightarrow> is_write e \<Longrightarrow>
      \<exists>before ev after s1. es = before @ ev # after \<and> op_run L Q s before s1 \<and> written_by L Q s1 ev e"
    using snoc.IH snoc.prems by auto
  obtain ext' where 2: "op_trace s' = op_trace s1 @ ext'" "\<And>e. e \<in> set ext' \<Longrightarrow> is_write e \<Longrightarrow> written_by L Q s1 ev e"
    using op_step_written [OF snoc.hyps(2)] snoc.prems by auto
  have "\<exists>before ev' after s1'. es @ [ev] = before @ ev' # after \<and> op_run L Q s before s1' \<and> written_by L Q s1' ev' e"
    if "e \<in> set (ext @ ext')" "is_write e" for e
    using that 1(2) [of e] 2(2) [of e] snoc.hyps(1) by fastforce
  then show ?case using 1(1) 2(1) by (intro exI [of _ "ext @ ext'"]) auto
qed simp

end
