(* ===== verification/OperatorProps.thy ===== *)
theory OperatorProps
  imports Operator
begin

text \<open>
  What the events of a run leave behind in the state the reconciles share: the cooldowns that each
  records, the samples the recommender has seen, and whose workloads are resized.
\<close>

section \<open>Cooldowns\<close>

abbreviation stamp_time :: "string \<times> direction \<times> time \<Rightarrow> time" where
  "stamp_time x \<equiv> snd (snd x)"

lemma Reconcile_stamps:
  assumes r: "Reconcile L Q R namespace name now s = Some (res, s')" and tr: "rs_trace s' = rs_trace s @ ext"
    and d: "lists_once R"
  shows "\<exists>stamps. rs_Cooldowns s' = cdt.rec_all (rs_Cooldowns s) stamps \<and> (\<forall>x \<in> set stamps. stamp_time x = now)
    \<and> (\<forall>ns w d. counted ns w d ext \<longrightarrow> (isl res \<or> (cdKey ns w, d, now) \<in> set stamps)
        \<and> (\<exists>dr pre post. r_get R (rs_trace s) namespace name = Inr (Some dr) \<and> stamps = pre @ post
             \<and> cd_Allow (cdt.rec_all (rs_Cooldowns s) pre) (cdKey ns w) d (cooldownFor (Spec dr) d) now))"
  using Reconcile_pass [OF r]
proof
  assume "quietly s s'"
  then show ?thesis using tr by (intro exI [of _ "[]"]) (auto simp: quietly_def not_counted_quiet)
next
  assume "\<exists>dr matched usage dr'. r_get R (rs_trace s) namespace name = Inr (Some dr)
     \<and> acts_on L Q R s dr matched usage dr' \<and> ran_pass Q R dr' matched usage now s (res, s')"
  then obtain dr matched usage dr' where g: "r_get R (rs_trace s) namespace name = Inr (Some dr)"
    "acts_on L Q R s dr matched usage dr'" "ran_pass Q R dr' matched usage now s (res, s')" by blast
  have spec: "Spec dr' = Spec dr" using g(2) by (simp add: acts_on_def)
  obtain pre post where p: "quiet pre" "quiet post"
    and out: "let act = actuate Q (r_env R) (WebhookEnabled R) dr' matched usage now (rs_Cooldowns s) (rs_trace s @ pre)
           in rs_trace s' = ao_trace act @ post \<and> rs_Cooldowns s' = ao_cooldowns act \<and> ((\<exists>d. res = Inr d) \<longrightarrow> ao_err act = None)"
    using g(3) unfolding ran_pass_def by auto
  from actuate_step [OF acts_on_distinct [OF g(2) d], of Q "r_env R" "WebhookEnabled R" dr' usage now "rs_Cooldowns s" "rs_trace s @ pre"]
  obtain ext' stamps where a: "rs_trace s' = ((rs_trace s @ pre) @ ext') @ post"
    "rs_Cooldowns s' = cdt.rec_all (rs_Cooldowns s) stamps" "\<forall>x \<in> set stamps. stamp_time x = now"
    "\<And>ns w d. \<not> isl res \<Longrightarrow> counted ns w d ext' \<Longrightarrow> (cdKey ns w, d, now) \<in> set stamps"
    "\<And>ns w d. counted ns w d ext' \<Longrightarrow> \<exists>pre post. stamps = pre @ post
      \<and> cd_Allow (cdt.rec_all (rs_Cooldowns s) pre) (cdKey ns w) d (cooldownFor (Spec dr') d) now"
    using out unfolding Let_def by (metis sum.collapse(2))
  have "ext = pre @ ext' @ post" using a(1) tr by simp
  then have "counted ns w d ext \<longleftrightarrow> counted ns w d ext'" for ns w d by (simp add: counted_quiet p)
  then show ?thesis using a(2-5) g(1) spec by (intro exI [of _ stamps]) (metis (no_types, lifting))
qed

lemma op_run_stamps:
  assumes "op_run L Q s es s'" "\<forall>ev \<in> set es. lists_distinct ev \<and> \<not> is_restart ev"
  shows "op_now s \<le> op_now s' \<and> (\<exists>stamps. rs_Cooldowns (op_rec s') = cdt.rec_all (rs_Cooldowns (op_rec s)) stamps
    \<and> sorted (map stamp_time stamps) \<and> (\<forall>x \<in> set stamps. op_now s \<le> stamp_time x \<and> stamp_time x \<le> op_now s'))"
  using assms
proof (induction rule: op_run.induct)
  case (nil s)
  show ?case by (intro conjI exI [of _ "[]"]) simp_all
next
  case (snoc s es s1 ev s')
  obtain stamps where 1: "op_now s \<le> op_now s1" "rs_Cooldowns (op_rec s1) = cdt.rec_all (rs_Cooldowns (op_rec s)) stamps"
    "sorted (map stamp_time stamps)" "\<forall>x \<in> set stamps. op_now s \<le> stamp_time x \<and> stamp_time x \<le> op_now s1"
    using snoc.IH snoc.prems by auto
  obtain P namespace name now where ev: "ev = Reconciled P namespace name now" using snoc.prems by (cases ev) auto
  obtain res r where r: "op_now s1 \<le> now" "s' = s1\<lparr>op_rec := r, op_now := now\<rparr>"
    "Reconcile L Q (newReconciler Q (op_wiring s1) P now) namespace name now (op_rec s1) = Some (res, r)"
    using snoc.hyps(2) unfolding ev by (auto elim: reconciledE)
  obtain ext where ext: "rs_trace r = rs_trace (op_rec s1) @ ext" using Reconcile_metered [OF r(3)] by blast
  have d: "lists_once (newReconciler Q (op_wiring s1) P now)"
    using snoc.prems by (simp add: ev)
  obtain stamps' where 2: "rs_Cooldowns r = cdt.rec_all (rs_Cooldowns (op_rec s1)) stamps'" "\<forall>x \<in> set stamps'. stamp_time x = now"
    using Reconcile_stamps [OF r(3) ext d] by blast
  have "sorted (map stamp_time stamps')" using 2(2) by (induction stamps') auto
  then have "sorted (map stamp_time (stamps @ stamps'))"
    using 1(3,4) 2(2) r(1) by (fastforce simp: sorted_append)
  then show ?case using 1 2 r(1)
    by (intro conjI exI [of _ "stamps @ stamps'"]) (auto simp: r(2) cdt.rec_all_append)
qed

section \<open>Samples\<close>

fun serviceable :: "'q quantity_api \<Rightarrow> nat \<Rightarrow> ('q, 'ls, 'sel) op_event \<Rightarrow> bool" where
  \<comment> \<open>a reconcile reads at most \<open>k\<close> usage samples; a restart gets as far as \<open>mgr.Start\<close>\<close>
  "serviceable Q k (Reconciled P namespace name now) \<longleftrightarrow>
     (\<forall>w tr. reconcileSamples Q (newReconciler Q w P now) tr namespace name \<le> k)"
| "serviceable Q k (Restarted F A now) \<longleftrightarrow> \<not> isl (main F A)"

definition sound :: "nat \<Rightarrow> 'q op_state \<Rightarrow> bool" where
  \<comment> \<open>the recommender is well-formed and has seen at most \<open>n\<close> samples\<close>
  "sound n s \<longleftrightarrow> rec_ok n (rs_Recommender (op_rec s)) \<and> rec_live (rs_Recommender (op_rec s))"

lemma sound_started: "sound n (started w tr now)"
  by (auto simp: sound_def started_def startState_def rec_live_New intro: rec_ok_mono [OF rec_ok_New])

lemma op_step_exists:
  assumes "libm_laws L" "quantity_laws Q qv" "sound n s" "serviceable Q k ev" "n + k < 2 ^ 53" "op_now s \<le> event_time ev"
  shows "\<exists>s'. op_step L Q s ev s' \<and> sound (n + k) s'"
proof (cases ev)
  case (Reconciled P namespace name now)
  let ?R = "newReconciler Q (op_wiring s) P now"
  have b: "reconcileSamples Q ?R (rs_trace (op_rec s)) namespace name \<le> k" using assms(4) by (simp add: Reconciled)
  have "rec_ok n (rs_Recommender (op_rec s))" "rec_live (rs_Recommender (op_rec s))" using assms(3) by (simp_all add: sound_def)
  from Reconcile_total [OF assms(1,2) this, of ?R namespace name now] b assms(5)
  obtain res r where r: "Reconcile L Q ?R namespace name now (op_rec s) = Some (res, r)"
    "rec_ok (n + reconcileSamples Q ?R (rs_trace (op_rec s)) namespace name) (rs_Recommender r)" "rec_live (rs_Recommender r)"
    by auto
  have "op_step L Q s ev (s\<lparr>op_rec := r, op_now := now\<rparr>)"
    unfolding Reconciled by (rule op_step.reconciled [OF _ r(1)]) (use assms(6) in \<open>simp add: Reconciled\<close>)
  moreover have "sound (n + k) (s\<lparr>op_rec := r, op_now := now\<rparr>)"
    using rec_ok_mono [OF r(2)] b r(3) by (simp add: sound_def)
  ultimately show ?thesis by blast
next
  case (Restarted F A now)
  then obtain w where "main F A = Inr w" using assms(4) by (cases "main F A") auto
  then have "op_step L Q s ev (started w (rs_trace (op_rec s)) now)"
    unfolding Restarted using assms(6) by (intro op_step.restarted) (simp_all add: Restarted)
  then show ?thesis using sound_started by blast
qed

lemma op_run_exists:
  assumes L: "libm_laws L" and Q: "quantity_laws Q qv" and s: "sound n s"
  shows "list_all (serviceable Q k) es \<Longrightarrow> n + length es * k < 2 ^ 53 \<Longrightarrow> sorted (op_now s # map event_time es) \<Longrightarrow>
    \<exists>s'. op_run L Q s es s' \<and> sound (n + length es * k) s' \<and> op_now s' = last (op_now s # map event_time es)"
proof (induction es rule: rev_induct)
  case Nil
  show ?case using s by (auto intro: op_run.nil)
next
  case (snoc ev es)
  obtain s1 where 1: "op_run L Q s es s1" "sound (n + length es * k) s1" "op_now s1 = last (op_now s # map event_time es)"
    using snoc by (auto simp: sorted_append)
  have "last (op_now s # map event_time es) \<le> event_time ev"
    using snoc.prems(3) last_in_set [of "op_now s # map event_time es"] by (auto simp: sorted_append simp del: last.simps)
  then obtain s' where 2: "op_step L Q s1 ev s'" "sound (n + length es * k + k) s'"
    using op_step_exists [OF L Q 1(2), of k ev] snoc.prems(1,2) 1(3) by (auto simp: algebra_simps)
  have "op_now s' = event_time ev" using op_step_time [OF 2(1)] by simp
  then show ?case using op_run.snoc [OF 1(1) 2(1)] 2(2)
    by (intro exI [of _ s']) (simp add: algebra_simps)
qed

section \<open>Wiring\<close>

definition wired :: "wiring \<Rightarrow> bool" where
  "wired w \<longleftrightarrow> (\<exists>F A. main F A = Inr w)"

lemma wired_webhook: "wired w \<Longrightarrow> wi_WebhookRegistered w = wi_WebhookEnabled w"
  by (auto simp: wired_def main_Inr)

lemma wiredI: "main F A = Inr w \<Longrightarrow> wired w"
  by (auto simp: wired_def)

lemma op_step_wired: "op_step L Q s ev s' \<Longrightarrow> wired (op_wiring s) \<Longrightarrow> wired (op_wiring s')"
  by (cases rule: op_step.cases) (auto simp: started_def dest: wiredI)

lemma op_run_wired: "op_run L Q s es s' \<Longrightarrow> wired (op_wiring s) \<Longrightarrow> wired (op_wiring s')"
  by (induction rule: op_run.induct) (auto dest: op_step_wired)

lemma written_by_wired:
  assumes "written_by L Q s ev e" "wired (op_wiring s)" "is_write e"
  shows "wi_ResizeSupported (op_wiring s)" "is_evict e \<Longrightarrow> wi_WebhookRegistered (op_wiring s)"
proof -
  obtain P namespace name now where ev: "ev = Reconciled P namespace name now"
    using assms(1) by (cases ev) (simp_all add: written_by_def)
  obtain dr matched usage dr' where
    a: "acts_on L Q (newReconciler Q (op_wiring s) P now) (op_rec s) dr matched usage dr'"
    "admitted Q (r_env (newReconciler Q (op_wiring s) P now)) (wi_WebhookEnabled (op_wiring s)) dr' matched usage now e"
    using assms(1) by (auto simp: written_by_def ev Let_def)
  show "wi_ResizeSupported (op_wiring s)" using a(1) by (simp add: acts_on_def may_resize_def)
  show "wi_WebhookRegistered (op_wiring s)" if e: "is_evict e"
  proof -
    obtain ns p r where "e = PodEvicted ns p r" using e by (cases e) auto
    then have "wi_WebhookEnabled (op_wiring s)"
      using a(2) e by (auto simp: admitted_def justified_evict workload_view_def)
    then show ?thesis by (simp add: wired_webhook [OF assms(2)])
  qed
qed

section \<open>Owners\<close>

definition cleared_owner ::
  "('q, 'ls, 'sel) reconciler \<Rightarrow> 'q trace \<Rightarrow> string \<Rightarrow> string \<Rightarrow> ('q, 'ls) dynamic_resource \<Rightarrow> 'ls deployment \<Rightarrow> bool" where
  \<comment> \<open>the DynamicResource of this name matches the Deployment, and no conflict was found for it\<close>
  "cleared_owner R tr namespace name dr deploy \<longleftrightarrow>
     r_get R tr namespace name = Inr (Some dr)
     \<and> (\<exists>matched. deploy \<in> set matched \<and> resolveSelector R tr dr = Inr matched
          \<and> conflictedWorkloads R tr dr matched = Inr [])"

lemma Reconcile_counts:
  assumes r: "Reconcile L Q R namespace name now s = Some (res, s')" and tr: "rs_trace s' = rs_trace s @ ext"
    and c: "ResizeCounted ns w d \<in> set ext"
  shows "\<exists>dr deploy. cleared_owner R (rs_trace s) namespace name dr deploy \<and> ns = dr_Namespace dr \<and> w = d_Name deploy"
proof -
  let ?W = "\<lambda>ns w. \<exists>dr deploy. cleared_owner R (rs_trace s) namespace name dr deploy \<and> ns = dr_Namespace dr \<and> w = d_Name deploy"
  have "\<exists>ext. rs_trace s' = rs_trace s @ ext \<and> list_all (in_scope ?W) ext"
    by (rule scope.Reconcile_J [OF refl r]) (auto simp: acts_on_def cleared_owner_def)
  then have "list_all (in_scope ?W) ext" using tr by simp
  from counted_in_scope [OF this c] show ?thesis .
qed

definition same_identity :: "('q, 'ls) dynamic_resource \<Rightarrow> ('q, 'ls) dynamic_resource \<Rightarrow> bool" where
  \<comment> \<open>what decides which workloads a DynamicResource owns\<close>
  "same_identity x y \<longleftrightarrow> dr_Name x = dr_Name y \<and> dr_CreationTimestamp x = dr_CreationTimestamp y
     \<and> Selector (Spec x) = Selector (Spec y)"

definition same_selectors :: "('q, 'ls, 'sel) reconciler \<Rightarrow> ('q, 'ls, 'sel) reconciler \<Rightarrow> bool" where
  "same_selectors R R' \<longleftrightarrow> e_asSelector (r_env R) = e_asSelector (r_env R') \<and> r_selEmpty R = r_selEmpty R'
     \<and> r_selMatches R = r_selMatches R'"

definition sees :: "('q, 'ls, 'sel) reconciler \<Rightarrow> 'q trace \<Rightarrow> string \<Rightarrow> ('q, 'ls) dynamic_resource \<Rightarrow> bool" where
  \<comment> \<open>a list of the DynamicResources of the namespace holds this one\<close>
  "sees R tr namespace dr \<longleftrightarrow>
     (\<forall>items. r_listDynamicResources R tr namespace = Inr items \<longrightarrow> (\<exists>x \<in> set items. same_identity x dr))"

definition api_lawful :: "('q, 'ls, 'sel) reconciler \<Rightarrow> string \<Rightarrow> bool" where
  \<comment> \<open>in this namespace the API server answers with the objects it was asked for\<close>
  "api_lawful R namespace \<longleftrightarrow>
     (\<forall>tr name dr. r_get R tr namespace name = Inr (Some dr) \<longrightarrow> dr_Namespace dr = namespace \<and> dr_Name dr = name)
     \<and> (\<forall>tr sel ds. r_listDeployments R tr namespace sel = Inr ds \<longrightarrow> list_all (\<lambda>d. r_selMatches R sel (d_Labels d)) ds)"

definition same_cluster ::
  "('q, 'ls, 'sel) reconciler \<Rightarrow> 'q trace \<Rightarrow> ('q, 'ls, 'sel) reconciler \<Rightarrow> 'q trace \<Rightarrow> string \<Rightarrow> bool" where
  \<comment> \<open>from the one moment to the other no DynamicResource of the namespace came, went, or changed its selector,
      and no Deployment changed its labels\<close>
  "same_cluster R tr R' tr' namespace \<longleftrightarrow> same_selectors R R'
     \<and> (\<forall>name dr. r_get R tr namespace name = Inr (Some dr) \<longrightarrow> sees R' tr' namespace dr)
     \<and> (\<forall>name dr. r_get R' tr' namespace name = Inr (Some dr) \<longrightarrow> sees R tr namespace dr)
     \<and> (\<forall>sel sel' ds ds'. r_listDeployments R tr namespace sel = Inr ds \<longrightarrow> r_listDeployments R' tr' namespace sel' = Inr ds' \<longrightarrow>
          (\<forall>d \<in> set ds. \<forall>d' \<in> set ds'. d_Name d = d_Name d' \<longrightarrow> d_Labels d = d_Labels d'))"

lemma newReconciler_views [simp]:
  "api_lawful (newReconciler Q w P now) ns = api_lawful (pf_client P) ns"
  "same_cluster (newReconciler Q w P now) tr (newReconciler Q w' P' now') tr' ns = same_cluster (pf_client P) tr (pf_client P') tr' ns"
  by (simp_all add: api_lawful_def same_cluster_def same_selectors_def sees_def)

lemma cleared_owner_selects:
  assumes "api_lawful R namespace" "cleared_owner R tr namespace name dr deploy"
  shows "selects R dr (d_Labels deploy)" "dr_Namespace dr = namespace" "dr_Name dr = name"
  using assms
  by (auto simp: api_lawful_def cleared_owner_def resolveSelector_def selects_def list_all_iff split: sum.splits if_splits)

lemma cleared_owner_oldest:
  assumes o: "cleared_owner R tr namespace name dr deploy" and R: "api_lawful R namespace"
    and s: "sees R tr namespace dr'" "dr_Name dr' \<noteq> name" "selects R dr' (d_Labels deploy)"
  shows "\<not> olderThan dr' dr"
proof
  assume old: "olderThan dr' dr"
  note n = cleared_owner_selects [OF R o]
  obtain matched items where c: "deploy \<in> set matched" "r_listDynamicResources R tr namespace = Inr items"
    "\<not> claimedByOlder R dr deploy items"
    using o by (cases "r_listDynamicResources R tr (dr_Namespace dr)")
      (auto simp: cleared_owner_def conflictedWorkloads_def filter_empty_conv n(2))
  obtain x where x: "x \<in> set items" "same_identity x dr'" using s(1) c(2) by (auto simp: sees_def)
  then have "dr_Name x \<noteq> dr_Name dr" "olderThan x dr" "selects R x (d_Labels deploy)"
    using s(2,3) old n(3) by (auto simp: same_identity_def olderThan_def selects_def split: if_splits)
  then have "claimedByOlder R dr deploy items" using x(1) by (auto simp: claimedByOlder_iff)
  then show False using c(3) by blast
qed

lemma cleared_owner_listed:
  assumes "cleared_owner R tr namespace name dr deploy" "api_lawful R namespace"
  shows "\<exists>sel ds. r_listDeployments R tr namespace sel = Inr ds \<and> deploy \<in> set ds"
  using assms cleared_owner_selects(2) [OF assms(2,1)]
  by (auto simp: cleared_owner_def resolveSelector_def split: sum.splits if_splits)

lemma one_owner:
  assumes a: "cleared_owner R tr namespace a drA deployA" and b: "cleared_owner R' tr' namespace b drB deployB" and "a \<noteq> b"
    and R: "api_lawful R namespace" "api_lawful R' namespace" and c: "same_cluster R tr R' tr' namespace"
    and n: "d_Name deployA = d_Name deployB"
  shows False
proof -
  note A = cleared_owner_selects [OF R(1) a] and B = cleared_owner_selects [OF R(2) b]
  have l: "d_Labels deployA = d_Labels deployB"
    using cleared_owner_listed [OF a R(1)] cleared_owner_listed [OF b R(2)] c n unfolding same_cluster_def by blast
  have sel: "selects R dr ls = selects R' dr ls" for dr ls
    using c by (simp add: selects_def same_cluster_def same_selectors_def split: sum.split)
  have s: "sees R tr namespace drB" "sees R' tr' namespace drA"
    using a b c unfolding cleared_owner_def same_cluster_def by blast+
  have "\<not> olderThan drB drA" by (rule cleared_owner_oldest [OF a R(1) s(1)]) (use A B sel l assms(3) in auto)
  moreover have "\<not> olderThan drA drB" by (rule cleared_owner_oldest [OF b R(2) s(2)]) (use A B sel l assms(3) in auto)
  ultimately show False using olderThan_total [of drA drB] A(3) B(3) assms(3) by simp
qed

lemma op_step_counts:
  assumes "op_step L Q s (Reconciled P namespace name now) s'" "op_trace s' = op_trace s @ ext" "ResizeCounted ns w d \<in> set ext"
  shows "\<exists>dr deploy. cleared_owner (newReconciler Q (op_wiring s) P now) (op_trace s) namespace name dr deploy
    \<and> ns = dr_Namespace dr \<and> w = d_Name deploy"
proof -
  obtain res r where "op_rec s' = r" "Reconcile L Q (newReconciler Q (op_wiring s) P now) namespace name now (op_rec s) = Some (res, r)"
    using assms(1) by (auto elim!: reconciledE)
  then show ?thesis using Reconcile_counts assms(2,3) by blast
qed

end
