(* ===== verification/OperatorTheorems.thy ===== *)
theory OperatorTheorems
  imports OperatorProps ReconcileTheorems
begin

text \<open>
  The properties of a run of the operator, from its start, over any number of reconciles and restarts:
  why it writes, how often, how far apart, for which owner, and that it never gets stuck.
\<close>

section \<open>A small operator\<close>

definition ex_flags :: flags where
  "ex_flags = defaultFlags\<lparr>f_enablePodWebhook := True\<rparr>"

definition ex_startup :: startup where
  "ex_startup = \<lparr>su_newManager = None, su_metricsClient = None, su_discoveryClient = None,
     su_serverVersion = Inr (''1'', ''33''), su_setupController = None, su_setupWebhook = None, su_healthz = None, su_readyz = None\<rparr>"

definition ex_wiring :: wiring where
  "ex_wiring = \<lparr>wi_Manager = managerOptions ex_flags, wi_Prometheus = None, wi_Limiter = \<lparr>lim_Rate = Fin (1 / 2), lim_Burst = 5\<rparr>,
     wi_ResizeSupported = True, wi_WebhookEnabled = True, wi_WebhookRegistered = True\<rparr>"

lemma ex_version: "resizeSupported (Inr (''1'', ''33''))"
  by code_simp

lemma ex_main: "main ex_flags ex_startup = Inr ex_wiring"
proof -
  have "newLimiter (f_maxResizesPerMinute ex_flags) = \<lparr>lim_Rate = Fin (1 / 2), lim_Burst = 5\<rparr>"
    using default_limiter by (simp add: ex_flags_def)
  then show ?thesis
    by (simp add: main_def ex_startup_def ex_wiring_def ex_version) (simp add: ex_flags_def defaultFlags_def prometheusProvider_def)
qed

definition ex_platform :: "(exact_q, string, string) platform" where
  "ex_platform = \<lparr>pf_client = ex_reconciler, pf_limiter = (\<lambda>_ _. True), pf_podMetrics = (\<lambda>_ _. Inr []),
     pf_requirements = (\<lambda>_. ([], True)), pf_http = (\<lambda>_. Inl ''down''),
     pf_order = \<lparr>ord_pods = (\<lambda>xs. xs), ord_containers = (\<lambda>_ xs. xs)\<rparr>\<rparr>"

definition ex_reconcile :: "time \<Rightarrow> exact_q rec_state \<Rightarrow> exact_q rec_result option" where
  "ex_reconcile now s =
     Reconcile ex_libm exact_api (newReconciler exact_api ex_wiring ex_platform now) ''prod'' ''dr'' now s"

definition ex_ready :: "time \<Rightarrow> exact_q dr_status" where
  "ex_ready t = \<lparr>
     Conditions = [
       \<lparr>cond_Type = ''Conflicted'', cond_Status = ConditionFalse, cond_Reason = ''NoConflict'',
        cond_Message = ''no overlapping DynamicResource or VPA'', cond_Generation = 1\<rparr>,
       \<lparr>cond_Type = ''ResizeInfeasible'', cond_Status = ConditionFalse, cond_Reason = ''Feasible'',
        cond_Message = ''no infeasible resizes'', cond_Generation = 1\<rparr>,
       \<lparr>cond_Type = ''Ready'', cond_Status = ConditionTrue, cond_Reason = ''Reconciled'',
        cond_Message = ''managing 1 workload(s)'', cond_Generation = 1\<rparr>],
     MatchedWorkloads = [\<lparr>wr_Kind = ''Deployment'', wr_Name = ''web''\<rparr>],
     Recommendations = [\<lparr>Workload = ''web'', Containers =
       [\<lparr>ContainerName = ''app'', Target = [(ResourceCPU, mq 500), (ResourceMemory, bq 52428800)],
         Applied = [(ResourceCPU, mq 500), (ResourceMemory, bq 52428800)]\<rparr>]\<rparr>],
     LastResizeTime = Some t, HPAState = HPAStateIdle, ObservedGeneration = 1\<rparr>"

definition ex_done :: "time \<Rightarrow> exact_q effect list" where
  "ex_done t =
     [RecommendedPublished ''prod'' ''dr'' ''web'' ''app'' (Fin 500) (Fin 52428800),
      ReclaimablePublished ''prod'' ''dr'' ''web'' (Fin 0) (Fin 52428800), LimiterAsked True,
      ResizePatched ''prod'' ''p0'' (Changes ex_plan) None, ResizeCounted ''prod'' ''web'' DirectionUp,
      EventRecorded EventNormal ''PodsResized'', StatusPatched ''prod'' ''dr'' (ex_ready t) None]"

definition ex_after :: "time \<Rightarrow> exact_q trace \<Rightarrow> exact_q rec_state" where
  "ex_after t tr = \<lparr>rs_Recommender = New, rs_Cooldowns = ex_cooldowns t, rs_trace = tr @ ex_done t\<rparr>"

lemma ex_first: "ex_reconcile hour (startState []) = Some (Inr (30 * second), ex_after hour [])"
  by code_simp

lemma ex_later:
  "ex_reconcile (hour + 2 * minute) (ex_after hour []) =
     Some (Inr (30 * second), ex_after (hour + 2 * minute) (ex_done hour))"
  by code_simp

lemma ex_rival_conflicted:
  "Reconcile ex_libm exact_api (newReconciler exact_api ex_wiring ex_platform (2 * hour)) ''prod'' ''rival'' (2 * hour)
     (startState []) = Some (Inr 0, (startState [])\<lparr>rs_trace := ex_conflict_trace\<rparr>)"
  by code_simp

lemma ex_lists: "lists_once (pf_client ex_platform)"
  using ex_Deployments by (auto simp: lists_once_def ex_platform_def)

definition ex_event :: "time \<Rightarrow> (exact_q, string, string) op_event" where
  "ex_event now = Reconciled ex_platform ''prod'' ''dr'' now"

definition ex_op :: "time \<Rightarrow> exact_q rec_state \<Rightarrow> exact_q op_state" where
  "ex_op now s = \<lparr>op_wiring = ex_wiring, op_rec = s, op_now = now\<rparr>"

lemma ex_started: "started ex_wiring tr now = ex_op now (startState tr)"
  by (simp add: started_def ex_op_def)

lemma ex_step: "op_step ex_libm exact_api (ex_op 0 (startState [])) (ex_event hour) (ex_op hour (ex_after hour []))"
  using op_step.reconciled [where L = ex_libm and Q = exact_api and s = "ex_op 0 (startState [])" and P = ex_platform and now = hour
      and namespace = "''prod''" and name = "''dr''"] ex_first
  by (simp add: ex_op_def ex_event_def ex_reconcile_def) (simp add: const_defs)

lemma ex_run: "op_run ex_libm exact_api (started ex_wiring [] 0) [ex_event hour] (ex_op hour (ex_after hour []))"
  unfolding ex_started by (rule op_run_single [OF ex_step])

section \<open>Properties\<close>


lemma ex_patched: "ResizePatched ''prod'' ''p0'' (Changes ex_plan) None \<in> set (op_trace (ex_op hour (ex_after hour [])))"
  by (simp add: ex_op_def ex_after_def ex_done_def)


text \<open>C5. The rate limiter meters every write: in every run from the start of the operator, restarts
  included, each resize patch and each eviction directly follows a call of the limiter that granted it,
  and no grant is spent twice, so that there are never more writes than grants.\<close>

theorem run_metered:
  assumes "main F A = Inr w" "op_run L Q (started w [] now) es s'"
  shows "metered False (op_trace s')
    \<and> length (filter is_write (op_trace s')) \<le> length (filter (\<lambda>e. e = LimiterAsked True) (op_trace s'))"
proof -
  have "metered False (op_trace s')" using op_run_metered [OF assms(2)] by (auto simp: started_def startState_def)
  then show ?thesis using metered_writes by fastforce
qed

theorem run_metered_witness:
  "length (filter is_write (ex_done hour)) \<le> length (filter (\<lambda>e. e = LimiterAsked True) (ex_done hour))"
  using run_metered [OF ex_main ex_run] by (simp add: ex_op_def ex_after_def)


lemma ex_done_counted: "counted ''prod'' ''web'' DirectionUp (ex_done t)"
  by (simp add: counted_def ex_done_def)

lemma ex_later_step:
  "op_step ex_libm exact_api (ex_op hour (ex_after hour [])) (ex_event (hour + 2 * minute))
     (ex_op (hour + 2 * minute) (ex_after (hour + 2 * minute) (ex_done hour)))"
  using op_step.reconciled [where L = ex_libm and Q = exact_api and s = "ex_op hour (ex_after hour [])" and P = ex_platform
      and now = "hour + 2 * minute" and namespace = "''prod''" and name = "''dr''"] ex_later
  by (simp add: ex_op_def ex_event_def ex_reconcile_def ex_after_def) (simp add: const_defs)


text \<open>C2. One writer per workload: take two reconciles of different DynamicResources of a namespace, at any two
  moments of any runs between which no DynamicResource of the namespace came, went or changed its
  selector and no Deployment changed its labels. No workload is resized, in either direction and on any
  path, the OOM fast path and evictions included, by both of them.\<close>

theorem one_writer:
  assumes "op_step L Q s (Reconciled P ns a t) s1" "op_trace s1 = op_trace s @ ext"
    and "op_step L Q s' (Reconciled P' ns b t') s1'" "op_trace s1' = op_trace s' @ ext'" "a \<noteq> b"
    and "api_lawful (pf_client P) ns" "api_lawful (pf_client P') ns"
    and "same_cluster (pf_client P) (op_trace s) (pf_client P') (op_trace s') ns"
    and "ResizeCounted ns' w d \<in> set ext"
  shows "ResizeCounted ns' w d' \<notin> set ext'"
proof
  assume c': "ResizeCounted ns' w d' \<in> set ext'"
  let ?R = "newReconciler Q (op_wiring s) P t" and ?R' = "newReconciler Q (op_wiring s') P' t'"
  obtain drA deployA where A: "cleared_owner ?R (op_trace s) ns a drA deployA" "w = d_Name deployA"
    using op_step_counts [OF assms(1,2,9)] by blast
  obtain drB deployB where B: "cleared_owner ?R' (op_trace s') ns b drB deployB" "w = d_Name deployB"
    using op_step_counts [OF assms(3,4) c'] by blast
  show False by (rule one_owner [OF A(1) B(1) assms(5)]) (use assms(6-8) A(2) B(2) in simp_all)
qed

lemma ex_rival_step:
  "op_step ex_libm exact_api (ex_op 0 (startState [])) (Reconciled ex_platform ''prod'' ''rival'' (2 * hour))
     (ex_op (2 * hour) ((startState [])\<lparr>rs_trace := ex_conflict_trace\<rparr>))"
  using op_step.reconciled [where L = ex_libm and Q = exact_api and s = "ex_op 0 (startState [])" and P = ex_platform
      and now = "2 * hour" and namespace = "''prod''" and name = "''rival''"] ex_rival_conflicted
  by (simp add: ex_op_def) (simp add: const_defs)

lemma ex_lawful: "api_lawful ex_reconciler ''prod''"
  by (auto simp: api_lawful_def ex_reconciler_def ex_dr_def ex_rival_def ex_other_def ex_deploy_def ex_db_def map_zero_def
      split: if_splits)

lemma ex_same_cluster: "same_cluster ex_reconciler tr ex_reconciler tr' ''prod''"
  by (auto simp: same_cluster_def same_selectors_def sees_def same_identity_def ex_reconciler_def ex_dr_def ex_rival_def
      ex_other_def ex_deploy_def ex_db_def split: if_splits)

theorem one_writer_witness:
  "ResizeCounted ''prod'' ''web'' DirectionUp \<in> set (ex_done hour) \<and> ResizeCounted ''prod'' ''web'' DirectionUp \<notin> set ex_conflict_trace"
proof -
  have "''dr'' \<noteq> ''rival''" by simp
  moreover have "ResizeCounted ''prod'' ''web'' DirectionUp \<in> set (ex_done hour)" by (simp add: ex_done_def)
  ultimately show ?thesis
    using one_writer [OF ex_step [unfolded ex_event_def] _ ex_rival_step, of "ex_done hour" ex_conflict_trace] ex_lawful ex_same_cluster
    by (auto simp: ex_op_def ex_after_def startState_def ex_platform_def)
qed


lemma ex_down: "PrometheusListPodUsage exact_api r (\<lambda>_. Inl ''down'') ord t p ns sel \<noteq> Inr us"
  by (auto simp: PrometheusListPodUsage_def query_def Let_def split: sum.splits)

lemma ex_no_usage:
  "providerFor spec (PrometheusMetrics (newReconciler exact_api w ex_platform now)) (Metrics (newReconciler exact_api w ex_platform now))
     ns sel = Inr us \<Longrightarrow> us = []"
  by (auto simp: providerFor_def newReconciler_def ex_platform_def MetricsServerListPodUsage_def Let_def ex_down
      split: option.splits if_splits)

lemma ex_no_samples:
  "passSamples exact_api asSel (providerFor spec (PrometheusMetrics (newReconciler exact_api w ex_platform now))
     (Metrics (newReconciler exact_api w ex_platform now))) ns ds = []"
  by (induction ds) (auto simp: workloadSamples_def usageSamples_def dest: ex_no_usage split: sum.split)

lemma ex_serviceable: "serviceable exact_api 0 (ex_event now)"
  by (auto simp: ex_event_def reconcileSamples_def resourceSamples_def ex_no_samples split: sum.split option.split)


text \<open>C34. What \<open>main\<close> wires together is safe: whenever it gets as far as starting the manager, neither server
  speaks HTTP/2 unless asked to, a secure metrics endpoint is authenticated, every reconciler it makes
  has a rate limiter with room for at least one write, evictions are enabled exactly when the Pod webhook
  was registered, there is a Prometheus provider exactly when its URL was given, and resizing is
  supported exactly when the API server reported a version from 1.33 on that could be parsed.\<close>

theorem main_wires_safely:
  assumes "main F A = Inr w"
  shows "(\<not> f_enableHTTP2 F \<longrightarrow>
      NextProtos (foldl (\<lambda>c f. f c) c (mo_TLSOpts (MetricsOptions (wi_Manager w)))) = [''http/1.1'']
      \<and> NextProtos (foldl (\<lambda>c f. f c) c (wo_TLSOpts (WebhookServer (wi_Manager w)))) = [''http/1.1''])
    \<and> mo_SecureServing (MetricsOptions (wi_Manager w)) = mo_Authenticated (MetricsOptions (wi_Manager w))
    \<and> limited (e_api (r_env (newReconciler Q w P now))) \<and> 1 \<le> lim_Burst (wi_Limiter w)
    \<and> WebhookEnabled (newReconciler Q w P now) = wi_WebhookRegistered w
    \<and> (PrometheusMetrics (newReconciler Q w P now) = None \<longleftrightarrow> f_prometheusURL F = [])
    \<and> (ResizeSupported (newReconciler Q w P now) \<longleftrightarrow> DetectInPlaceResize (su_serverVersion A) = Inr True)"
  using main_Inr [OF assms]
  by (simp add: managerOptions_def metricsServerOptions_def webhookServerOptions_def tlsOpts_def disableHTTP2_def Let_def
      limited_def newLimiter_def prometheusProvider_def resizeSupported_def newReconciler_def split: sum.split)

theorem main_wires_safely_witness:
  "1 \<le> lim_Burst (wi_Limiter ex_wiring) \<and> wi_WebhookRegistered ex_wiring"
  using main_wires_safely [OF ex_main, of undefined exact_api ex_platform 0] by (simp add: ex_wiring_def)

text \<open>C33. The resize counter tells the truth: in every run of one process of the operator, whatever fails in
  between, \<open>kubera_pod_resizes_total\<close>, summed over its labels, is exactly the number of patches and
  evictions that the API server accepted, and for each workload and direction it is the number of
  resizes counted for it.\<close>

theorem resize_counter_exact:
  assumes "main F A = Inr w" "op_run L Q (started w tr now) es s'" "\<forall>ev \<in> set es. \<not> is_restart ev" "op_trace s' = tr @ ext"
  shows "sum_list (map snd (resizesTotal (scrape ext))) = length (filter is_success ext)
    \<and> map_zero 0 (resizesTotal (scrape ext)) (ns, wl, d) = length (filter (\<lambda>e. e = ResizeCounted ns wl d) ext)"
proof -
  have "balanced ext" using op_run_balanced [OF assms(2)] assms(4) by (auto simp: started_def startState_def)
  then show ?thesis by (simp add: balanced_counter resizesTotal_key)
qed

theorem resize_counter_exact_witness: "resizesTotal (scrape (ex_done hour)) = [((''prod'', ''web'', DirectionUp), 1)]"
proof -
  have "op_trace (ex_op hour (ex_after hour [])) = [] @ ex_done hour" by (simp add: ex_op_def ex_after_def)
  moreover have "\<forall>ev \<in> set [ex_event hour]. \<not> is_restart ev" by (simp add: ex_event_def)
  ultimately have "sum_list (map snd (resizesTotal (scrape (ex_done hour)))) = length (filter is_success (ex_done hour))"
    using resize_counter_exact [OF ex_main ex_run] by blast
  then show ?thesis by (simp add: ex_done_def scrape_def newRegistry_def map_zero_def)
qed

end
