(* ===== verification/Convergence.thy ===== *)
theory Convergence
  imports ActuationTheorems
begin

text \<open>
  The closed loop. The API server lists the Pods as the accepted resize patches have left them, so what
  one actuation pass does the next one sees. The locale \<open>calm_cluster\<close> holds what a cluster must grant for
  the loop to come to rest: patches are accepted, the limiter lets them through, no HPA and no OOMKill
  interferes. Under it a pass moves every Pod of every matched workload by exactly one planning step.
\<close>

section \<open>What patches make of a Pod\<close>

fun patched :: "string \<Rightarrow> 'q pod \<Rightarrow> 'q effect \<Rightarrow> 'q pod" where
  "patched ns pod (ResizePatched ns' name chs None) =
     (if ns' = ns \<and> name = p_Name pod then pod\<lparr>PodContainers := map (apply_changes chs) (PodContainers pod)\<rparr> else pod)"
| "patched ns pod _ = pod"

definition after :: "string \<Rightarrow> 'q trace \<Rightarrow> 'q pod \<Rightarrow> 'q pod" where
  \<comment> \<open>a Pod of the namespace after everything done in the trace\<close>
  "after ns tr pod = foldl (patched ns) pod tr"

lemma after_simps [simp]:
  "after ns [] pod = pod" "after ns (e # es) pod = after ns es (patched ns pod e)"
  "after ns (tr @ es) pod = after ns es (after ns tr pod)"
  by (simp_all add: after_def)

lemma patched_fields [simp]:
  "p_Name (patched ns pod e) = p_Name pod" "DeletionTimestamp (patched ns pod e) = DeletionTimestamp pod"
  "Phase (patched ns pod e) = Phase pod" "PodConditions (patched ns pod e) = PodConditions pod"
  "ContainerStatuses (patched ns pod e) = ContainerStatuses pod"
  by (cases "(ns, pod, e)" rule: patched.cases; simp)+

lemma after_fields [simp]:
  "p_Name (after ns tr pod) = p_Name pod" "DeletionTimestamp (after ns tr pod) = DeletionTimestamp pod"
  "Phase (after ns tr pod) = Phase pod" "PodConditions (after ns tr pod) = PodConditions pod"
  "ContainerStatuses (after ns tr pod) = ContainerStatuses pod"
  by (induction tr arbitrary: pod) simp_all

lemma after_no_patch: "\<not> list_ex is_patch es \<Longrightarrow> after ns es pod = pod"
proof (induction es arbitrary: pod)
  case (Cons e es)
  then have "patched ns pod e = pod" by (cases e) auto
  then show ?case using Cons by simp
qed simp

lemma after_limiter: "set es \<subseteq> {LimiterAsked True} \<Longrightarrow> after ns es pod = pod"
  by (rule after_no_patch) (auto simp: list_ex_iff)

lemma pod_passes_Suc: "pod_passes (Suc n) Q targets p pod = pod_pass Q targets p (pod_passes n Q targets p pod)"
  by (induction n arbitrary: pod) simp_all

lemma planLoop_no_targets: "planLoop Q [] p g plan cs = plan"
  by (induction cs) simp_all

lemma pod_pass_no_targets [simp]: "pod_pass Q [] p pod = pod"
  by (simp add: pod_pass_def PlanPod_def planLoop_no_targets Let_def)

section \<open>Cooldowns over time\<close>

definition cooled :: "cooldowns \<Rightarrow> string \<Rightarrow> ('q, 'ls) dr_spec \<Rightarrow> string list \<Rightarrow> time \<Rightarrow> bool" where
  \<comment> \<open>both directions of all these workloads may be resized\<close>
  "cooled cds ns spec ws t \<longleftrightarrow> (\<forall>w \<in> set ws. \<forall>d. cd_Allow cds (cdKey ns w) d (cooldownFor spec d) t)"

lemma cooled_New [simp]: "cooled NewCooldownTracker ns spec ws t"
  by (simp add: cooled_def cdt.allow_new)

lemma cd_Allow_mono: "cd_Allow cds k d cd t \<Longrightarrow> t \<le> t' \<Longrightarrow> cd_Allow cds k d cd t'"
  by (auto simp: cd_Allow_def split: option.splits intro: order_trans [OF _ time_sub_mono])

lemma rec_all_Allow:
  assumes "cd_Allow cds k d cd t" "\<forall>x \<in> set stamps. snd (snd x) = t" "t + cd \<le> t'" "0 \<le> cd" "cd < 2 ^ 63"
  shows "cd_Allow (cdt.rec_all cds stamps) k d cd t'"
  using assms(2)
proof (induction stamps rule: rev_induct)
  case Nil
  show ?case using cd_Allow_mono [OF assms(1)] assms(3,4) by simp
next
  case (snoc x stamps)
  obtain k' d' where x: "x = (k', d', t)" using snoc.prems by (cases x) auto
  have "cd \<le> time_sub t' t" using assms(3-5) by (subst time_sub_ge_iff) auto
  then show ?case using snoc by (auto simp: x cdt.rec_all_snoc cd_Allow_Record)
qed

section \<open>One Pod\<close>

definition tranquil :: "'q pod \<Rightarrow> bool" where
  \<comment> \<open>a Pod that runs and that the kubelet can resize, without recent OOMKills\<close>
  "tranquil pod \<longleftrightarrow> serving pod \<and> \<not> podResizeInfeasible pod \<and> (\<forall>now. OOMKilledContainers (ContainerStatuses pod) now = [])"

lemma tranquil_after [simp]: "tranquil (after ns tr pod) = tranquil pod"
  by (simp add: tranquil_def serving_def podResizeInfeasible_def)

definition accepting :: "'q cluster_api \<Rightarrow> bool" where
  \<comment> \<open>the limiter grants and the API server accepts every resize\<close>
  "accepting A \<longleftrightarrow> (\<forall>tr. fst (limiterAllow A tr)) \<and> (\<forall>tr ns p chs. resize_answer A tr ns p chs = None)"

definition moved ::
  "'q quantity_api \<Rightarrow> policy \<Rightarrow> string \<Rightarrow> ((string, 'q rlist) gomap \<times> 'q pod) list \<Rightarrow> 'q trace \<Rightarrow> bool" where
  \<comment> \<open>these effects move each of the given Pods by one step towards its targets and touch no other Pod; they
      write only when there is a step to make\<close>
  "moved Q p ns work ext \<longleftrightarrow>
     (\<forall>(targets, pod) \<in> set work. after ns ext pod = pod_pass Q targets p pod)
     \<and> (\<forall>q. p_Name q \<notin> p_Name ` snd ` set work \<longrightarrow> after ns ext q = q)
     \<and> ((\<forall>(targets, pod) \<in> set work. PlanPod Q pod targets p = None) \<longrightarrow> \<not> list_ex is_patch ext \<and> \<not> list_ex is_evict ext)"

lemma moved_Nil [simp]: "moved Q p ns [] []"
  by (simp add: moved_def)

lemma Apply_accepting:
  assumes "accepting A" "Apply A ns plan tr = (err, tr')"
  shows "err = None" "\<exists>ext. tr' = tr @ ext @ [ResizePatched ns (pp_Pod plan) (Changes plan) None] \<and> set ext \<subseteq> {LimiterAsked True}"
proof -
  have "fst (limiterAllow A tr)" using assms(1) by (simp add: accepting_def)
  then show "err = None" "\<exists>ext. tr' = tr @ ext @ [ResizePatched ns (pp_Pod plan) (Changes plan) None] \<and> set ext \<subseteq> {LimiterAsked True}"
    using assms by (auto simp: Apply_def accepting_def limiterAllow_def Let_def split: option.splits prod.splits if_splits)
qed

lemma actuatePod_moved:
  assumes A: "accepting A" and pod: "tranquil pod" and X: "\<not> recreateMode X" "\<forall>d. cooldownAllows X d"
    and a: "actuatePod Q A X pod st = (err, st')"
  shows "err = None \<and> (\<exists>ext. ps_trace st' = ps_trace st @ ext \<and> moved Q (wp_Policy X) (wp_Namespace X) [(wp_Targets X, pod)] ext)"
proof (cases "PlanPod Q pod (wp_Targets X) (wp_Policy X)")
  case None
  then have "(err, st') = (None, st)"
    using a pod X(1) by (auto simp: actuatePod_def tranquil_def serving_def oomPlan_def)
  then show ?thesis using None by (auto simp: moved_def pod_pass_def intro!: exI [of _ "[]"])
next
  case (Some plan)
  obtain e tr where ap: "Apply A (wp_Namespace X) plan (ps_trace st) = (e, tr)" by fastforce
  obtain ext where e: "e = None" "tr = ps_trace st @ ext @ [ResizePatched (wp_Namespace X) (pp_Pod plan) (Changes plan) None]"
      "set ext \<subseteq> {LimiterAsked True}"
    using Apply_accepting [OF A ap] by blast
  let ?ext = "ext @ [ResizePatched (wp_Namespace X) (pp_Pod plan) (Changes plan) None,
    ResizeCounted (wp_Namespace X) (wp_Workload X) (pp_Direction plan)]"
  have "err = None" "ps_trace st' = ps_trace st @ ?ext"
    using a pod X Some ap e(1,2) by (auto simp: actuatePod_def tranquil_def serving_def oomPlan_def applyPlan_def countResized_def Let_def)
  moreover have "moved Q (wp_Policy X) (wp_Namespace X) [(wp_Targets X, pod)] ?ext"
    using Some by (auto simp: moved_def pod_pass_def apply_plan_def after_limiter [OF e(3)] PlanPod_pod)
  ultimately show ?thesis by blast
qed

lemma pod_pass_name [simp]: "p_Name (pod_pass Q targets p pod) = p_Name pod"
  by (simp add: pod_pass_def split: option.split)

lemma moved_append:
  assumes "moved Q p ns xs e1" "moved Q p ns ys e2" "p_Name ` snd ` set xs \<inter> p_Name ` snd ` set ys = {}"
  shows "moved Q p ns (xs @ ys) (e1 @ e2)"
proof -
  have "after ns e2 (after ns e1 pod) = pod_pass Q targets p pod" if "(targets, pod) \<in> set xs" for targets pod
  proof -
    have "p_Name pod \<in> p_Name ` snd ` set xs" using that by force
    then have "p_Name (pod_pass Q targets p pod) \<notin> p_Name ` snd ` set ys" using assms(3) by auto
    then show ?thesis using that assms(1,2) by (fastforce simp: moved_def)
  qed
  moreover have "after ns e2 (after ns e1 pod) = pod_pass Q targets p pod" if "(targets, pod) \<in> set ys" for targets pod
  proof -
    have "p_Name pod \<in> p_Name ` snd ` set ys" using that by force
    then have "p_Name pod \<notin> p_Name ` snd ` set xs" using assms(3) by auto
    then show ?thesis using that assms(1,2) by (fastforce simp: moved_def)
  qed
  moreover have "after ns e2 (after ns e1 q) = q" if "p_Name q \<notin> p_Name ` snd ` set (xs @ ys)" for q
    using that assms(1,2) by (auto simp: moved_def image_Un)
  ultimately show ?thesis using assms(1,2) unfolding moved_def by auto
qed

lemma moved_emit:
  assumes "moved Q p ns work ext" "\<not> is_patch e" "\<not> is_evict e"
  shows "moved Q p ns work (e # ext)" "moved Q p ns work (ext @ [e])"
proof -
  have "patched ns pod e = pod" for pod using assms(2) by (cases e) auto
  then show "moved Q p ns work (e # ext)" "moved Q p ns work (ext @ [e])" using assms unfolding moved_def by auto
qed

lemma actuatePods_moved:
  assumes A: "accepting A" and X: "\<not> recreateMode X" "\<forall>d. cooldownAllows X d"
  shows "list_all tranquil pods \<Longrightarrow> distinct (map p_Name pods) \<Longrightarrow> actuatePods Q A X pods st = (err, st') \<Longrightarrow>
    err = None \<and> (\<exists>ext. ps_trace st' = ps_trace st @ ext \<and> moved Q (wp_Policy X) (wp_Namespace X) (map (Pair (wp_Targets X)) pods) ext)"
proof (induction pods arbitrary: st)
  case Nil
  then show ?case by (auto simp: moved_def intro!: exI [of _ "[]"])
next
  case (Cons pod pods)
  obtain e st1 where 1: "actuatePod Q A X pod st = (e, st1)" by fastforce
  obtain e1 where e1: "e = None" "ps_trace st1 = ps_trace st @ e1" "moved Q (wp_Policy X) (wp_Namespace X) [(wp_Targets X, pod)] e1"
    using actuatePod_moved [OF A _ X 1] Cons.prems(1) by auto
  then obtain e2 where e2: "err = None" "ps_trace st' = ps_trace st1 @ e2"
      "moved Q (wp_Policy X) (wp_Namespace X) (map (Pair (wp_Targets X)) pods) e2"
    using Cons.IH [of st1] Cons.prems 1 by auto
  have "moved Q (wp_Policy X) (wp_Namespace X) ([(wp_Targets X, pod)] @ map (Pair (wp_Targets X)) pods) (e1 @ e2)"
    using Cons.prems(2) by (intro moved_append [OF e1(3) e2(3)]) auto
  then show ?case using e1(2) e2(1,2) by auto
qed

section \<open>One pass\<close>

definition targetsOf :: "'q recommendations \<Rightarrow> string \<Rightarrow> (string, 'q rlist) gomap" where
  \<comment> \<open>the targets published for a workload, none without a recommendation\<close>
  "targetsOf recs w =
     (case map_of (recByWorkload recs) w of None \<Rightarrow> [] | Some i \<Rightarrow> workloadTargets (Containers (recs ! i)))"

locale calm_cluster =
  fixes E :: "('q, 'ls, 'sel) env" and ns :: string and spec :: "('q, 'ls) dr_spec"
    and matched :: "'ls deployment list" and pods :: "string \<Rightarrow> 'q pod list"
  assumes accepting: "accepting (e_api E)"
    and no_hpa: "FindHPA (e_hpas E tr ns) w = Inr None"
    and lists: "deploy \<in> set matched \<Longrightarrow> listWorkloadPods E tr ns deploy = Inr (map (after ns tr) (pods (d_Name deploy)))"
    and workloads: "distinct (map d_Name matched)"
    and pod_names: "distinct (map p_Name (concat (map (\<lambda>d. pods (d_Name d)) matched)))"
    and tranquil_pods: "deploy \<in> set matched \<Longrightarrow> list_all tranquil (pods (d_Name deploy))"
    and in_place: "UpdateMode spec = UpdateModeInPlaceOnly"
begin

definition work :: "(string \<Rightarrow> (string, 'q rlist) gomap) \<Rightarrow> 'q trace \<Rightarrow> 'ls deployment list \<Rightarrow> ((string, 'q rlist) gomap \<times> 'q pod) list" where
  \<comment> \<open>the Pods of these workloads as they are after the trace, with their targets\<close>
  "work T tr ds = concat (map (\<lambda>d. map (\<lambda>pod. (T (d_Name d), after ns tr pod)) (pods (d_Name d))) ds)"

lemma distinct_pods: "deploy \<in> set ds \<Longrightarrow> distinct (map p_Name (concat (map (\<lambda>d. pods (d_Name d)) ds))) \<Longrightarrow>
    distinct (map p_Name (pods (d_Name deploy)))"
  by (induction ds) auto

lemma work_names: "p_Name ` snd ` set (work T tr ds) = p_Name ` (\<Union>d \<in> set ds. set (pods (d_Name d)))"
  by (simp add: work_def image_UN image_image)

lemma actuateWorkload_moved:
  assumes d: "deploy \<in> set matched" and dr: "dr_Namespace dr = ns" "Spec dr = spec" and recs: "recs = Recommendations (Status dr)"
    and same: "\<And>i. map_of (recByWorkload recs) (d_Name deploy) = Some i \<Longrightarrow> as_recs st ! i = recs ! i"
    and cool: "cooled (as_cooldowns st) ns spec [d_Name deploy] now"
    and a: "actuateWorkload Q E wh dr usage now (recByWorkload recs) deploy st = (err, st')"
  shows "err = None \<and> (\<exists>ext stamps. as_trace st' = as_trace st @ ext
    \<and> moved Q (DefaultPolicy spec) ns (work (targetsOf recs) (as_trace st) [deploy]) ext
    \<and> as_cooldowns st' = cdt.rec_all (as_cooldowns st) stamps \<and> (\<forall>x \<in> set stamps. fst x = cdKey ns (d_Name deploy) \<and> snd (snd x) = now))"
proof (cases "map_of (recByWorkload recs) (d_Name deploy)")
  case None
  then have "(err, st') = (None, st)" using a by (simp add: actuateWorkload_def)
  then show ?thesis using None
    by (auto simp: moved_def work_def targetsOf_def intro!: exI [of _ "[]"] split: prod.split)
next
  case (Some i)
  let ?w = "d_Name deploy" and ?tr = "as_trace st"
  let ?T = "workloadTargets (Containers (recs ! i))" and ?pods = "map (after ns ?tr) (pods ?w)"
  have c: "coordinateHPA Q spec (e_hpas E ?tr ns) ?w ?T u now = Inr (HPAStateIdle, ?T)" for u
    by (simp add: coordinateHPA_def no_hpa)
  let ?X = "\<lparr>wp_Namespace = ns, wp_Workload = ?w, wp_Spec = spec, wp_Targets = ?T, wp_Policy = DefaultPolicy spec, wp_Now = now,
    wp_Cooldowns = as_cooldowns st, wp_WebhookEnabled = wh\<rparr>"
  let ?pub = "publishReclaimableMetrics Q ns (dr_Name dr) ?w ?pods ?T"
  obtain e ps where p: "actuatePods Q (e_api E) ?X ?pods
      \<lparr>ps_trace = ?tr @ [?pub], ps_res = as_res st, ps_resizedDirections = [], ps_evictBudget = 1\<rparr> = (e, ps)" by fastforce
  have X: "\<not> recreateMode ?X" "\<forall>d. cooldownAllows ?X d"
    using in_place cool by (simp_all add: recreateMode_def cooldownAllows_def cooldownKey_def cooled_def)
  have "distinct (map p_Name (pods ?w))" by (rule distinct_pods [OF d pod_names])
  then have n: "distinct (map p_Name ?pods)" by (simp add: comp_def)
  have t: "list_all tranquil ?pods" using tranquil_pods [OF d] by (simp add: list_all_iff)
  obtain ext where ext: "e = None" "ps_trace ps = ?tr @ [?pub] @ ext" "moved Q (DefaultPolicy spec) ns (map (Pair ?T) ?pods) ext"
    using actuatePods_moved [OF accepting X t n p] by auto
  have w: "work (targetsOf recs) ?tr [deploy] = map (Pair ?T) ?pods" by (simp add: work_def targetsOf_def Some comp_def)
  have "\<not> is_patch ?pub" "\<not> is_evict ?pub" by (simp_all add: publishReclaimableMetrics_def split: prod.split)
  then have "moved Q (DefaultPolicy spec) ns (work (targetsOf recs) ?tr [deploy]) (?pub # ext)"
    unfolding w by (rule moved_emit(1) [OF ext(3)])
  moreover have "err = None" "as_trace st' = ?tr @ ?pub # ext"
    "as_cooldowns st' = cdt.rec_all (as_cooldowns st) (map (\<lambda>d. (cdKey ns ?w, d, now)) (gomap_keys (ps_resizedDirections ps)))"
    using a Some c lists [OF d] p ext(1,2)
    by (auto simp: actuateWorkload_def dr same [OF Some] Let_def recordCooldowns_rec_all cooldownKey_def)
  ultimately show ?thesis
    by (intro conjI exI [of _ "?pub # ext"] exI [of _ "map (\<lambda>d. (cdKey ns ?w, d, now)) (gomap_keys (ps_resizedDirections ps))"]) auto
qed

lemma cooled_other:
  assumes "\<forall>x \<in> set stamps. fst x = cdKey ns w" "w \<notin> set ws"
  shows "cooled (cdt.rec_all cds stamps) ns spec ws t \<longleftrightarrow> cooled cds ns spec ws t"
proof -
  have "cd_Allow (cdt.rec_all cds stamps) (cdKey ns w') d cd t = cd_Allow cds (cdKey ns w') d cd t" if "w' \<noteq> w" for w' d cd
    using assms(1) that
  proof (induction stamps rule: rev_induct)
    case (snoc x stamps)
    then show ?case by (cases x) (auto simp: cdt.rec_all_snoc cd_Allow_Record)
  qed simp
  moreover have "w' \<noteq> w" if "w' \<in> set ws" for w' using assms(2) that by blast
  ultimately show ?thesis unfolding cooled_def by metis
qed

lemma work_later:
  assumes "moved Q p ns (work T tr [d]) ext"
    and "p_Name ` set (pods (d_Name d)) \<inter> p_Name ` (\<Union>d' \<in> set ds. set (pods (d_Name d'))) = {}"
  shows "work T (tr @ ext) ds = work T tr ds"
proof -
  have "after ns ext (after ns tr pod) = after ns tr pod" if "d' \<in> set ds" "pod \<in> set (pods (d_Name d'))" for d' pod
  proof -
    have "p_Name pod \<notin> p_Name ` snd ` set (work T tr [d])"
      using assms(2) that unfolding work_names by auto
    then show ?thesis using assms(1) by (simp add: moved_def)
  qed
  then show ?thesis by (auto simp: work_def intro!: arg_cong [where f = concat] map_cong)
qed

lemma actuateLoop_moved:
  assumes dr: "dr_Namespace dr = ns" "Spec dr = spec" and recs: "recs = Recommendations (Status dr)"
  shows "set ds \<subseteq> set matched \<Longrightarrow> distinct (map d_Name ds) \<Longrightarrow> distinct (map p_Name (concat (map (\<lambda>d. pods (d_Name d)) ds))) \<Longrightarrow>
    (\<And>d i. d \<in> set ds \<Longrightarrow> map_of (recByWorkload recs) (d_Name d) = Some i \<Longrightarrow> as_recs st ! i = recs ! i) \<Longrightarrow>
    cooled (as_cooldowns st) ns spec (map d_Name ds) now \<Longrightarrow>
    actuateLoop Q E wh dr usage now (recByWorkload recs) ds st = (err, st') \<Longrightarrow>
    err = None \<and> (\<exists>ext stamps. as_trace st' = as_trace st @ ext
      \<and> moved Q (DefaultPolicy spec) ns (work (targetsOf recs) (as_trace st) ds) ext
      \<and> as_cooldowns st' = cdt.rec_all (as_cooldowns st) stamps \<and> (\<forall>x \<in> set stamps. snd (snd x) = now))"
proof (induction ds arbitrary: st)
  case Nil
  then show ?case by (auto simp: work_def intro!: exI [of _ "[]"])
next
  case (Cons d ds)
  let ?T = "targetsOf recs" and ?p = "DefaultPolicy spec"
  obtain e st1 where w: "actuateWorkload Q E wh dr usage now (recByWorkload recs) d st = (e, st1)" by fastforce
  have "cooled (as_cooldowns st) ns spec [d_Name d] now" using Cons.prems(5) by (simp add: cooled_def)
  moreover have "d \<in> set matched" using Cons.prems(1) by simp
  moreover have "\<And>i. map_of (recByWorkload recs) (d_Name d) = Some i \<Longrightarrow> as_recs st ! i = recs ! i"
    using Cons.prems(4) [of d] by (meson list.set_intros(1))
  ultimately obtain e1 s1 where
    1: "e = None" "as_trace st1 = as_trace st @ e1" "moved Q ?p ns (work ?T (as_trace st) [d]) e1"
      "as_cooldowns st1 = cdt.rec_all (as_cooldowns st) s1" "\<forall>x \<in> set s1. fst x = cdKey ns (d_Name d) \<and> snd (snd x) = now"
    using actuateWorkload_moved [OF _ dr recs _ _ w] by metis
  have "as_recs st1 ! i = recs ! i" if "d' \<in> set ds" "map_of (recByWorkload recs) (d_Name d') = Some i" for d' i
  proof -
    have "d_Name d \<notin> d_Name ` set ds" using Cons.prems(2) by simp
    then have "d_Name d' \<noteq> d_Name d" using that(1) by (metis imageI)
    then have "map_of (recByWorkload recs) (d_Name d) \<noteq> Some i"
      using recByWorkload_Some(2) that(2) by metis
    moreover have "as_recs st ! i = recs ! i" using that by (intro Cons.prems(4) [of d']) simp_all
    ultimately show ?thesis using actuateWorkload_frame [OF w] by simp
  qed
  moreover have "cooled (as_cooldowns st1) ns spec (map d_Name ds) now"
  proof -
    have "d_Name d \<notin> set (map d_Name ds)" using Cons.prems(2) by simp
    moreover have "\<forall>x \<in> set s1. fst x = cdKey ns (d_Name d)" using 1(5) by simp
    moreover have "cooled (as_cooldowns st) ns spec (map d_Name ds) now" using Cons.prems(5) by (simp add: cooled_def)
    ultimately show ?thesis unfolding 1(4) using cooled_other by blast
  qed
  moreover have "actuateLoop Q E wh dr usage now (recByWorkload recs) ds st1 = (err, st')" using Cons.prems(6) w 1(1) by simp
  moreover have disj: "p_Name ` set (pods (d_Name d)) \<inter> p_Name ` (\<Union>d' \<in> set ds. set (pods (d_Name d'))) = {}"
    and "distinct (map p_Name (concat (map (\<lambda>d. pods (d_Name d)) ds)))"
    using Cons.prems(3) by auto
  ultimately obtain e2 s2 where 2: "err = None" "as_trace st' = as_trace st1 @ e2"
      "moved Q ?p ns (work ?T (as_trace st1) ds) e2" "as_cooldowns st' = cdt.rec_all (as_cooldowns st1) s2"
      "\<forall>x \<in> set s2. snd (snd x) = now"
    using Cons.IH [of st1] Cons.prems(1,2) by auto
  have "work ?T (as_trace st1) ds = work ?T (as_trace st) ds" unfolding 1(2) by (rule work_later [OF 1(3) disj])
  then have "moved Q ?p ns (work ?T (as_trace st) [d] @ work ?T (as_trace st) ds) (e1 @ e2)"
    using disj by (intro moved_append [OF 1(3)]) (use 2(3) in simp, simp only: work_names, simp)
  moreover have "work ?T (as_trace st) [d] @ work ?T (as_trace st) ds = work ?T (as_trace st) (d # ds)" by (simp add: work_def)
  ultimately show ?case using 1 2
    by (intro conjI exI [of _ "e1 @ e2"] exI [of _ "s1 @ s2"]) (auto simp: cdt.rec_all_append)
qed

lemma actuate_moved:
  assumes dr: "dr_Namespace dr = ns" "Spec dr = spec" and cool: "cooled cds ns spec (map d_Name matched) now"
  shows "ao_err (actuate Q E wh dr matched usage now cds tr) = None \<and> (\<exists>ext stamps.
    ao_trace (actuate Q E wh dr matched usage now cds tr) = tr @ ext
    \<and> moved Q (DefaultPolicy spec) ns (work (targetsOf (Recommendations (Status dr))) tr matched) ext
    \<and> ao_cooldowns (actuate Q E wh dr matched usage now cds tr) = cdt.rec_all cds stamps \<and> (\<forall>x \<in> set stamps. snd (snd x) = now))"
proof -
  let ?recs = "Recommendations (Status dr)"
  let ?st = "\<lparr>as_trace = tr, as_cooldowns = cds,
             as_res = \<lparr>ar_resized = 0, ar_infeasible = [], ar_recreateBlocked = False\<rparr>,
             as_hpaState = HPAStateIdle, as_recs = ?recs\<rparr>"
  obtain err st where l: "actuateLoop Q E wh dr usage now (recByWorkload ?recs) matched ?st = (err, st)" by fastforce
  have "cooled (as_cooldowns ?st) ns spec (map d_Name matched) now" using cool by simp
  from actuateLoop_moved [OF dr refl subset_refl workloads pod_names _ this l] obtain ext stamps where
    e: "err = None" "as_trace st = tr @ ext" "moved Q (DefaultPolicy spec) ns (work (targetsOf ?recs) tr matched) ext"
      "as_cooldowns st = cdt.rec_all cds stamps" "\<forall>x \<in> set stamps. snd (snd x) = now"
    by auto
  note more = moved_emit(2) [OF e(3), of "EventRecorded EventNormal ''PodsResized''"]
  show ?thesis
  proof (cases "0 < ar_resized (as_res st)")
    case True
    then show ?thesis using l e more
      by (intro conjI exI [of _ "ext @ [EventRecorded EventNormal ''PodsResized'']"] exI [of _ stamps])
        (simp_all add: actuate_def Let_def)
  next
    case False
    then show ?thesis using l e by (intro conjI exI [of _ ext] exI [of _ stamps]) (simp_all add: actuate_def Let_def)
  qed
qed

end

section \<open>Many passes\<close>

definition same_work :: "('q, 'ls) dr_spec \<Rightarrow> string \<Rightarrow> 'ls deployment list \<Rightarrow> (string \<Rightarrow> (string, 'q rlist) gomap) \<Rightarrow> ('q, 'ls) pass_input \<Rightarrow> bool" where
  \<comment> \<open>a pass of one DynamicResource over the same workloads with the same targets; the rest of its status, the
      usage and the time are free\<close>
  "same_work spec ns matched T p \<longleftrightarrow> dr_Namespace (pi_dr p) = ns \<and> Spec (pi_dr p) = spec \<and> pi_matched p = matched
     \<and> targetsOf (Recommendations (Status (pi_dr p))) = T"

definition apart :: "('q, 'ls) dr_spec \<Rightarrow> time \<Rightarrow> time \<Rightarrow> bool" where
  "apart spec t t' \<longleftrightarrow> (\<forall>d. t + cooldownFor spec d \<le> t')"

definition cooldowns_ok :: "('q, 'ls) dr_spec \<Rightarrow> bool" where
  "cooldowns_ok spec \<longleftrightarrow> (\<forall>d. 0 \<le> cooldownFor spec d \<and> cooldownFor spec d < 2 ^ 63)"

lemma cooled_later:
  assumes "cooled cds ns spec ws t" "\<forall>x \<in> set stamps. snd (snd x) = t" "apart spec t t'" "cooldowns_ok spec"
  shows "cooled (cdt.rec_all cds stamps) ns spec ws t'"
  using assms rec_all_Allow [OF _ assms(2)] by (auto simp: cooled_def apart_def cooldowns_ok_def)

context calm_cluster
begin

lemma work_pod:
  assumes "deploy \<in> set matched" "pod \<in> set (pods (d_Name deploy))"
  shows "(T (d_Name deploy), after ns tr pod) \<in> set (work T tr matched)"
  using assms by (auto simp: work_def)

lemma passes_moved:
  assumes spec: "cooldowns_ok spec"
  shows "list_all (same_work spec ns matched T) ps \<Longrightarrow> successively (apart spec) (map pi_now ps @ [t]) \<Longrightarrow>
    run_passes Q E wh (NewCooldownTracker, []) ps = (cds, tr) \<Longrightarrow>
    cooled cds ns spec (map d_Name matched) t
    \<and> (\<forall>deploy \<in> set matched. \<forall>pod \<in> set (pods (d_Name deploy)).
         after ns tr pod = pod_passes (length ps) Q (T (d_Name deploy)) (DefaultPolicy spec) pod)"
proof (induction ps arbitrary: cds tr t rule: rev_induct)
  case Nil
  then have "cds = NewCooldownTracker" "tr = []" by (simp_all add: run_passes_def)
  then show ?case by simp
next
  case (snoc p ps)
  obtain cds1 tr1 where 1: "run_passes Q E wh (NewCooldownTracker, []) ps = (cds1, tr1)" by fastforce
  let ?o = "actuate Q E wh (pi_dr p) matched (pi_usage p) (pi_now p) cds1 tr1"
  have p: "dr_Namespace (pi_dr p) = ns" "Spec (pi_dr p) = spec" "pi_matched p = matched"
    "targetsOf (Recommendations (Status (pi_dr p))) = T" using snoc.prems(1) by (simp_all add: same_work_def)
  have o: "cds = ao_cooldowns ?o" "tr = ao_trace ?o"
    using snoc.prems(3) 1 by (simp_all add: run_passes_def run_pass_def p(3) Let_def)
  have s: "successively (apart spec) (map pi_now ps @ [pi_now p])" "apart spec (pi_now p) t"
    using snoc.prems(2) by (simp_all add: successively_append_iff)
  note IH = snoc.IH [OF _ s(1) 1]
  then have cool: "cooled cds1 ns spec (map d_Name matched) (pi_now p)" using snoc.prems(1) by simp
  obtain ext stamps where a: "ao_trace ?o = tr1 @ ext" "moved Q (DefaultPolicy spec) ns (work T tr1 matched) ext"
    "ao_cooldowns ?o = cdt.rec_all cds1 stamps" "\<forall>x \<in> set stamps. snd (snd x) = pi_now p"
    using actuate_moved [OF p(1,2) cool, of Q wh "pi_usage p" tr1] unfolding p(4) by blast
  have "cooled cds ns spec (map d_Name matched) t" unfolding o(1) a(3) by (rule cooled_later [OF cool a(4) s(2) spec])
  moreover have "after ns tr pod = pod_passes (length (ps @ [p])) Q (T (d_Name deploy)) (DefaultPolicy spec) pod"
    if d: "deploy \<in> set matched" "pod \<in> set (pods (d_Name deploy))" for deploy pod
  proof -
    have "after ns tr1 pod = pod_passes (length ps) Q (T (d_Name deploy)) (DefaultPolicy spec) pod"
      using IH snoc.prems(1) d by simp
    moreover have "after ns ext (after ns tr1 pod) = pod_pass Q (T (d_Name deploy)) (DefaultPolicy spec) (after ns tr1 pod)"
      using a(2) work_pod [OF d, of T tr1] unfolding moved_def by blast
    ultimately show ?thesis unfolding o(2) a(1) by (simp add: pod_passes_Suc del: pod_passes.simps)
  qed
  ultimately show ?case by blast
qed

end

section \<open>Properties\<close>

text \<open>The control loop comes to rest: in a calm cluster, in which the API server accepts and applies the
  patches and no HPA and no OOMKill interferes, let passes over the same workloads with the same published
  targets run at least the cooldowns apart. After as many passes as the largest distance of a Pod from its
  targets, every further pass succeeds and writes nothing, and no Pod has a step left to make.\<close>

theorem passes_come_to_rest:
  assumes Q: "quantity_laws Q qv" and calm: "calm_cluster E ns spec matched pods"
    and spec: "cooldowns_ok spec" "policy_ok (DefaultPolicy spec)"
    and pods: "\<And>deploy pod. deploy \<in> set matched \<Longrightarrow> pod \<in> set (pods (d_Name deploy)) \<Longrightarrow> pod_ok qv pod \<and> QOSClass pod \<noteq> QOSUnset
      \<and> targets_ok qv (T (d_Name deploy)) \<and> pod_gap Q (T (d_Name deploy)) pod \<le> length ps"
    and ps: "list_all (same_work spec ns matched T) (ps @ [q])" "successively (apart spec) (map pi_now (ps @ [q]))"
    and r: "run_passes Q E wh (NewCooldownTracker, []) ps = (cds, tr)"
  shows "ao_err (actuate Q E wh (pi_dr q) (pi_matched q) (pi_usage q) (pi_now q) cds tr) = None
    \<and> (\<exists>ext. ao_trace (actuate Q E wh (pi_dr q) (pi_matched q) (pi_usage q) (pi_now q) cds tr) = tr @ ext
        \<and> \<not> list_ex is_patch ext \<and> \<not> list_ex is_evict ext)
    \<and> (\<forall>deploy \<in> set matched. \<forall>pod \<in> set (pods (d_Name deploy)).
         PlanPod Q (after ns tr pod) (T (d_Name deploy)) (DefaultPolicy spec) = None)"
proof -
  have q: "dr_Namespace (pi_dr q) = ns" "Spec (pi_dr q) = spec" "pi_matched q = matched"
    "targetsOf (Recommendations (Status (pi_dr q))) = T" using ps(1) by (simp_all add: same_work_def)
  have "list_all (same_work spec ns matched T) ps" "successively (apart spec) (map pi_now ps @ [pi_now q])" using ps by simp_all
  note m = calm_cluster.passes_moved [OF calm spec(1) this r]
  have rest: "PlanPod Q (after ns tr pod) (T (d_Name deploy)) (DefaultPolicy spec) = None"
    if d: "deploy \<in> set matched" "pod \<in> set (pods (d_Name deploy))" for deploy pod
  proof -
    have "pod_steady Q qv (DefaultPolicy spec) pod"
      using pods [OF d] quantity_laws.container_ok_steady [OF Q] by (auto simp: pod_steady_def pod_ok_def list_all_iff)
    then have "PlanPod Q (pod_passes (length ps) Q (T (d_Name deploy)) (DefaultPolicy spec) pod) (T (d_Name deploy)) (DefaultPolicy spec) = None"
      using quantity_laws.passes_quiesce [OF Q] pods [OF d] spec(2) by blast
    then show ?thesis using m d by simp
  qed
  have cool: "cooled cds ns spec (map d_Name matched) (pi_now q)" using m by blast
  let ?o = "actuate Q E wh (pi_dr q) matched (pi_usage q) (pi_now q) cds tr"
  obtain ext where a: "ao_err ?o = None" "ao_trace ?o = tr @ ext" "moved Q (DefaultPolicy spec) ns (calm_cluster.work ns pods T tr matched) ext"
    using calm_cluster.actuate_moved [OF calm q(1,2) cool, of Q wh "pi_usage q" tr] unfolding q(4) by blast
  have "\<forall>(targets, pod) \<in> set (calm_cluster.work ns pods T tr matched). PlanPod Q pod targets (DefaultPolicy spec) = None"
    using rest by (auto simp: calm_cluster.work_def [OF calm])
  then have "\<not> list_ex is_patch ext \<and> \<not> list_ex is_evict ext" using a(3) unfolding moved_def by blast
  then show ?thesis using a(1,2) rest unfolding q(3) by blast
qed

section \<open>A calm cluster\<close>

definition ex_calm_env :: "(exact_q, string, string) env" where
  "ex_calm_env = ex_env\<lparr>e_pods := \<lambda>tr _ _. Inr (map (after ''prod'' tr) [ex_pod])\<rparr>"

definition ex_inplace :: "(exact_q, string) dr_spec" where
  "ex_inplace = ex_spec\<lparr>UpdateMode := UpdateModeInPlaceOnly\<rparr>"

interpretation ex_calm: calm_cluster ex_calm_env "''prod''" ex_inplace "[ex_deploy]" "\<lambda>_. [ex_pod]"
  by unfold_locales
    (auto simp: ex_calm_env_def ex_env_def ex_api_def accepting_def limiterAllow_def FindHPA_def listWorkloadPods_def
      tranquil_def serving_def podResizeInfeasible_def ex_pod_def ex_inplace_def)

definition ex_pass :: "nat \<Rightarrow> (exact_q, string) pass_input" where
  "ex_pass i = \<lparr>pi_dr = ex_dr\<lparr>Spec := ex_inplace\<rparr>, pi_matched = [ex_deploy], pi_usage = [], pi_now = int i * hour\<rparr>"

lemma ex_apart: "successively (apart ex_inplace) (map (\<lambda>i. int i * hour) [0..<n])"
proof (induction n)
  case (Suc n)
  have "apart ex_inplace (int n * hour) (int (Suc n) * hour)" for n
    by (auto simp: apart_def ex_inplace_def ex_spec_def cooldownFor_def const_defs algebra_simps)
  then show ?case using Suc by (cases n) (auto simp: successively_append_iff)
qed simp

lemma ex_published: "targetsOf (Recommendations ex_status) ''web'' = ex_targets"
  by code_simp

lemma ex_inplace_policy: "DefaultPolicy ex_inplace = ex_policy"
  by code_simp

theorem passes_come_to_rest_witness:
  "\<exists>n. PlanPod exact_api (after ''prod'' (snd (run_passes exact_api ex_calm_env False (NewCooldownTracker, []) (map ex_pass [0..<n])))
     ex_pod) ex_targets ex_policy = None"
proof -
  let ?n = "pod_gap exact_api ex_targets ex_pod" and ?T = "targetsOf (Recommendations ex_status)"
  let ?ps = "map ex_pass [0..<?n]"
  obtain cds tr where r: "run_passes exact_api ex_calm_env False (NewCooldownTracker, []) ?ps = (cds, tr)" by fastforce
  have same: "list_all (same_work ex_inplace ''prod'' [ex_deploy] ?T) (?ps @ [ex_pass ?n])"
    by (simp add: list_all_iff same_work_def ex_pass_def ex_dr_def)
  have "map pi_now (?ps @ [ex_pass ?n]) = map (\<lambda>i. int i * hour) [0..<Suc ?n]" by (simp add: ex_pass_def)
  then have apart: "successively (apart ex_inplace) (map pi_now (?ps @ [ex_pass ?n]))" by (simp only: ex_apart)
  have spec: "cooldowns_ok ex_inplace" "policy_ok (DefaultPolicy ex_inplace)"
    using ex_ok(4) by (simp_all add: ex_inplace_policy)
      (simp add: cooldowns_ok_def ex_inplace_def ex_spec_def cooldownFor_def const_defs)
  have pod: "pod_ok fst ex_pod \<and> QOSClass ex_pod \<noteq> QOSUnset \<and> targets_ok fst (?T (d_Name ex_deploy))
      \<and> pod_gap exact_api (?T (d_Name ex_deploy)) ex_pod \<le> length ?ps"
    using ex_ok(1,3) by (simp add: ex_published ex_deploy_def) (simp add: ex_pod_def)
  have "\<forall>deploy \<in> set [ex_deploy]. \<forall>pod \<in> set [ex_pod].
      PlanPod exact_api (after ''prod'' tr pod) (?T (d_Name deploy)) (DefaultPolicy ex_inplace) = None"
    using passes_come_to_rest [OF exq.quantity_laws_axioms ex_calm.calm_cluster_axioms spec _ same apart r] pod by auto
  then have "PlanPod exact_api (after ''prod'' tr ex_pod) ex_targets ex_policy = None"
    by (simp add: ex_published ex_deploy_def ex_inplace_policy)
  then show ?thesis using r by (intro exI [of _ ?n]) simp
qed

end
