(* ===== verification/Plugin.thy ===== *)
theory Plugin
  imports ReconcileTheorems
begin

text \<open>
  \<open>cmd/kubectl-kubera/main.go\<close>: the table that \<open>kubectl kubera diff\<close> prints, current requests against
  recommendations. What the API server and the client library answer is \<open>plugin_client\<close>, the environment of the
  process \<open>plugin_env\<close>. Of Go's library the theory models \<open>flag.Parse\<close> for string flags, the only ones the
  plugin has (\<open>parseFlags\<close>), \<open>os.UserHomeDir\<close> and \<open>filepath.Join\<close> on Unix, and \<open>text/tabwriter\<close> for lines
  with the same number of cells of ASCII text (\<open>tabwriter\<close>).
\<close>

section \<open>Clients\<close>

record rest_config =
  rc_Host :: string
  rc_GroupVersion :: "(string \<times> string) option"
  rc_APIPath :: string
  rc_Scheme :: bool  \<comment> \<open>\<open>NegotiatedSerializer\<close> is that of the scheme with the types of \<open>v1alpha1\<close>\<close>

record ('q, 'ls) plugin_client =
  pc_config :: "string \<Rightarrow> rest_config go_result"  \<comment> \<open>\<open>BuildConfigFromFlags\<close>, by kubeconfig\<close>
  pc_deployments :: "rest_config \<Rightarrow> (string \<Rightarrow> string \<Rightarrow> 'q container list go_result) go_result"
    \<comment> \<open>\<open>NewForConfig\<close>: the containers of the Pod template of a Deployment\<close>
  pc_addToScheme :: "string option"
  pc_restClient :: "rest_config \<Rightarrow> (string \<Rightarrow> string \<Rightarrow> ('q, 'ls) dynamic_resource list go_result) go_result"
    \<comment> \<open>\<open>RESTClientFor\<close>: listing a resource of a namespace, of all for the empty name\<close>

definition dynamicResourceClient ::
  "('q, 'ls) plugin_client \<Rightarrow> rest_config \<Rightarrow> (string \<Rightarrow> string \<Rightarrow> ('q, 'ls) dynamic_resource list go_result) go_result" where
  "dynamicResourceClient P cfg =
     (case pc_addToScheme P of
        Some err \<Rightarrow> Inl err
      | None \<Rightarrow> pc_restClient P
          (cfg\<lparr>rc_GroupVersion := Some (''autoscaling.kubera.io'', ''v1alpha1''), rc_APIPath := ''/apis'', rc_Scheme := True\<rparr>))"

section \<open>The table\<close>

definition diffHeader :: "string list" where
  "diffHeader = [''NAMESPACE'', ''WORKLOAD'', ''CONTAINER'', ''CURRENT CPU'', ''RECOMMENDED CPU'',
     ''CURRENT MEMORY'', ''RECOMMENDED MEMORY'']"

definition currentRequests :: "'q container list \<Rightarrow> (string, 'q rlist) gomap" where
  "currentRequests cs = foldl (\<lambda>m c. AList.update (c_Name c) (Requests c) m) [] cs"

definition currentCell :: "('q \<Rightarrow> string) \<Rightarrow> (string, 'q rlist) gomap \<Rightarrow> string \<Rightarrow> string \<Rightarrow> string" where
  \<comment> \<open>a dash when the container or its request is missing\<close>
  "currentCell str current container resource =
     (case map_of current container of
        Some cur \<Rightarrow> (case map_of cur resource of Some q \<Rightarrow> str q | None \<Rightarrow> ''-'')
      | None \<Rightarrow> ''-'')"

definition diffRow ::
  "'q quantity_api \<Rightarrow> ('q \<Rightarrow> string) \<Rightarrow> string \<Rightarrow> string \<Rightarrow> (string, 'q rlist) gomap \<Rightarrow> 'q container_recommendation \<Rightarrow> string list" where
  "diffRow Q str namespace workload current c =
     [namespace, workload, ContainerName c,
      currentCell str current (ContainerName c) ResourceCPU, str (map_zero (q_zero Q) (Target c) ResourceCPU),
      currentCell str current (ContainerName c) ResourceMemory, str (map_zero (q_zero Q) (Target c) ResourceMemory)]"

fun diffWorkloads ::
  "'q quantity_api \<Rightarrow> ('q \<Rightarrow> string) \<Rightarrow> (string \<Rightarrow> string \<Rightarrow> 'q container list go_result) \<Rightarrow> string
   \<Rightarrow> 'q workload_recommendation list \<Rightarrow> string list list" where
  "diffWorkloads Q str deployments namespace [] = []"
| "diffWorkloads Q str deployments namespace (rec # recs) =
     (case deployments namespace (Workload rec) of
        Inl _ \<Rightarrow> diffWorkloads Q str deployments namespace recs
      | Inr containers \<Rightarrow>
          map (diffRow Q str namespace (Workload rec) (currentRequests containers)) (Containers rec)
          @ diffWorkloads Q str deployments namespace recs)"

definition runDiff ::
  "'q quantity_api \<Rightarrow> ('q \<Rightarrow> string) \<Rightarrow> ('q, 'ls) plugin_client \<Rightarrow> string \<Rightarrow> string \<Rightarrow> string list list go_result" where
  \<comment> \<open>the cells of the lines given to the writer, or the error\<close>
  "runDiff Q str P kubeconfig namespace =
     (case pc_config P kubeconfig of Inl err \<Rightarrow> Inl err | Inr cfg \<Rightarrow>
     (case pc_deployments P cfg of Inl err \<Rightarrow> Inl err | Inr deployments \<Rightarrow>
     (case dynamicResourceClient P cfg of Inl err \<Rightarrow> Inl err | Inr drClient \<Rightarrow>
     (case drClient namespace ''dynamicresources'' of
        Inl err \<Rightarrow> Inl (''listing dynamicresources: '' @ err)
      | Inr items \<Rightarrow>
          Inr (diffHeader # concat (map (\<lambda>dr. diffWorkloads Q str deployments (dr_Namespace dr) (Recommendations (Status dr))) items))))))"

definition columnWidth :: "string list list \<Rightarrow> nat \<Rightarrow> nat" where
  \<comment> \<open>minwidth and padding are 2\<close>
  "columnWidth rows i = foldr max (map (\<lambda>row. length (row ! i) + 2) rows) 2"

fun tabLine :: "nat list \<Rightarrow> string list \<Rightarrow> string" where
  \<comment> \<open>every cell but the last is padded to the width of its column\<close>
  "tabLine (w # ws) (c # d # cells) = c @ replicate (w - length c) CHR '' '' @ tabLine ws (d # cells)"
| "tabLine ws cells = concat cells"

definition tabwriter :: "string list list \<Rightarrow> string list" where
  "tabwriter rows = (case rows of [] \<Rightarrow> [] | row # _ \<Rightarrow> map (tabLine (map (columnWidth rows) [0..<length row - 1])) rows)"

section \<open>The command line\<close>

datatype parse_result = Parsed "(string, string) gomap" "string list" | ParseHelp | ParseError

definition splitAssign :: "string \<Rightarrow> string \<times> string option" where
  \<comment> \<open>\<open>name=value\<close>, or a name alone\<close>
  "splitAssign s =
     (let key = takeWhile (\<lambda>c. c \<noteq> CHR ''='') s; rest = dropWhile (\<lambda>c. c \<noteq> CHR ''='') s
      in (key, case rest of [] \<Rightarrow> None | _ # v \<Rightarrow> Some v))"

fun parseFlags :: "string list \<Rightarrow> (string, string) gomap \<Rightarrow> string list \<Rightarrow> parse_result" where
  \<comment> \<open>the flags set so far, and the arguments left from the first that is no flag\<close>
  "parseFlags known m [] = Parsed m []"
| "parseFlags known m (s # args) =
     (if length s < 2 \<or> hd s \<noteq> CHR ''-'' then Parsed m (s # args)
      else if s = ''--'' then Parsed m args
      else
        let name = (if s ! 1 = CHR ''-'' then drop 2 s else drop 1 s)
        in if hd name = CHR ''-'' \<or> hd name = CHR ''='' then ParseError
           else case splitAssign name of
             (key, val) \<Rightarrow>
               if key \<notin> set known then (if key = ''help'' \<or> key = ''h'' then ParseHelp else ParseError)
               else (case val of
                  Some v \<Rightarrow> parseFlags known (AList.update key v m) args
                | None \<Rightarrow> (case args of [] \<Rightarrow> ParseError | v # args \<Rightarrow> parseFlags known (AList.update key v m) args)))"

section \<open>The process\<close>

record plugin_env =
  pe_Getenv :: "string \<Rightarrow> string"

fun cleanParts :: "bool \<Rightarrow> string list \<Rightarrow> string list \<Rightarrow> string list" where
  \<comment> \<open>the loop of \<open>filepath.Clean\<close> over the elements of a path; the second list is the result so far, reversed\<close>
  "cleanParts rooted out [] = rev out"
| "cleanParts rooted out (p # ps) =
     (if p = [] \<or> p = ''.'' then cleanParts rooted out ps
      else if p = ''..'' then
        (case out of
           o1 # out' \<Rightarrow> (if o1 = ''..'' then cleanParts rooted (''..'' # out) ps else cleanParts rooted out' ps)
         | [] \<Rightarrow> cleanParts rooted (if rooted then [] else [''..'']) ps)
      else cleanParts rooted (p # out) ps)"

fun splitPath :: "string \<Rightarrow> string list" where
  "splitPath [] = [[]]"
| "splitPath (c # cs) =
     (if c = CHR ''/'' then [] # splitPath cs
      else (case splitPath cs of p # ps \<Rightarrow> (c # p) # ps | [] \<Rightarrow> [[c]]))"

fun joinPath :: "string list \<Rightarrow> string" where
  "joinPath [] = []"
| "joinPath [p] = p"
| "joinPath (p # ps) = p @ ''/'' @ joinPath ps"

definition Clean :: "string \<Rightarrow> string" where
  "Clean path =
     (let rooted = (path \<noteq> [] \<and> hd path = CHR ''/'');
          out = (if rooted then ''/'' else []) @ joinPath (cleanParts rooted [] (splitPath path))
      in if out = [] then ''.'' else out)"

definition Join :: "string list \<Rightarrow> string" where
  \<comment> \<open>\<open>filepath.Join\<close> ignores empty elements before the first that is not\<close>
  "Join elems = (case dropWhile (\<lambda>e. e = []) elems of [] \<Rightarrow> [] | es \<Rightarrow> Clean (joinPath es))"

definition UserHomeDir :: "plugin_env \<Rightarrow> string go_result" where
  "UserHomeDir E = (if pe_Getenv E ''HOME'' \<noteq> [] then Inr (pe_Getenv E ''HOME'') else Inl ''$HOME is not defined'')"

definition defaultKubeconfig :: "plugin_env \<Rightarrow> string" where
  "defaultKubeconfig E =
     (if pe_Getenv E ''KUBECONFIG'' \<noteq> [] then pe_Getenv E ''KUBECONFIG''
      else case UserHomeDir E of Inl _ \<Rightarrow> [] | Inr home \<Rightarrow> Join [home, ''.kube'', ''config''])"

record plugin_exit =
  px_code :: nat
  px_stdout :: "string list"
  px_stderr :: "string list"

definition pluginMain ::
  "'q quantity_api \<Rightarrow> ('q \<Rightarrow> string) \<Rightarrow> ('q, 'ls) plugin_client \<Rightarrow> plugin_env \<Rightarrow> string list \<Rightarrow> plugin_exit" where
  \<comment> \<open>the exit code and the lines printed, for \<open>os.Args[1:]\<close>; what \<open>flag\<close> itself prints is left out\<close>
  "pluginMain Q str P E args =
     (case parseFlags [''n'', ''kubeconfig''] [] args of
        ParseHelp \<Rightarrow> \<lparr>px_code = 0, px_stdout = [], px_stderr = []\<rparr>
      | ParseError \<Rightarrow> \<lparr>px_code = 2, px_stdout = [], px_stderr = []\<rparr>
      | Parsed m rest \<Rightarrow>
          if (if rest = [] then [] else hd rest) \<noteq> ''diff''
          then \<lparr>px_code = 2, px_stdout = [], px_stderr = [''usage: kubectl kubera diff [-n namespace]'']\<rparr>
          else case runDiff Q str P (map_zero (defaultKubeconfig E) m ''kubeconfig'') (map_zero [] m ''n'') of
                 Inl err \<Rightarrow> \<lparr>px_code = 1, px_stdout = [], px_stderr = [''error: '' @ err]\<rparr>
               | Inr rows \<Rightarrow> \<lparr>px_code = 0, px_stdout = tabwriter rows, px_stderr = []\<rparr>)"

lemma default_kubeconfig_home:
  "defaultKubeconfig \<lparr>pe_Getenv = (\<lambda>v. if v = ''HOME'' then ''/home/ada/'' else [])\<rparr> = ''/home/ada/.kube/config''"
  by code_simp

section \<open>The rows\<close>

lemma currentRequests_of: "map_of (currentRequests cs) name = map_option Requests (List.find (\<lambda>c. c_Name c = name) (rev cs))"
proof (induction cs rule: rev_induct)
  case (snoc c cs)
  then show ?case by (auto simp: currentRequests_def map_of_update)
qed (simp add: currentRequests_def)

lemma find_unique:
  "distinct (map c_Name cs) \<Longrightarrow> c \<in> set cs \<Longrightarrow> List.find (\<lambda>x. c_Name x = c_Name c) cs = Some c"
  by (induction cs) force+

lemma currentRequests_unique:
  assumes "distinct (map c_Name cs)" "c \<in> set cs"
  shows "map_of (currentRequests cs) (c_Name c) = Some (Requests c)"
  using find_unique [of "rev cs" c] assms by (simp add: currentRequests_of rev_map [symmetric])

lemma diffWorkloads_row:
  "row \<in> set (diffWorkloads Q str deployments namespace recs) \<longleftrightarrow>
     (\<exists>rec \<in> set recs. \<exists>cs. deployments namespace (Workload rec) = Inr cs
        \<and> (\<exists>c \<in> set (Containers rec). row = diffRow Q str namespace (Workload rec) (currentRequests cs) c))"
proof (induction recs)
  case (Cons rec recs)
  then show ?case by (cases "deployments namespace (Workload rec)") auto
qed simp

lemma namespace_flag_ignored:
  \<comment> \<open>\<open>flag.Parse\<close> stops at the first argument that is no flag: with \<open>kubectl kubera diff -n production\<close>, the
      documented order, the flag is never read and the table shows every namespace\<close>
  "pluginMain Q str P E [''diff'', ''-n'', ns] = pluginMain Q str P E [''diff'']"
  by (simp add: pluginMain_def map_zero_def)

lemma namespace_flag_first:
  "runDiff Q str P (defaultKubeconfig E) ns = Inr rows \<Longrightarrow> px_stdout (pluginMain Q str P E [''-n'', ns, ''diff'']) = tabwriter rows"
  by (simp add: pluginMain_def splitAssign_def map_zero_def)

definition templateCell :: "('q \<Rightarrow> string) \<Rightarrow> 'q container list \<Rightarrow> string \<Rightarrow> string \<Rightarrow> string" where
  \<comment> \<open>what the template requests for the container of this name, as text\<close>
  "templateCell str cs name resource =
     (case List.find (\<lambda>k. c_Name k = name) cs of
        None \<Rightarrow> ''-''
      | Some k \<Rightarrow> (case map_of (Requests k) resource of Some q \<Rightarrow> str q | None \<Rightarrow> ''-''))"

lemma find_rev:
  assumes "distinct (map c_Name cs)"
  shows "List.find (\<lambda>k. c_Name k = name) (rev cs) = List.find (\<lambda>k. c_Name k = name) cs"
proof (cases "\<exists>k \<in> set cs. c_Name k = name")
  case True
  then obtain k where k: "k \<in> set cs" "name = c_Name k" by blast
  then show ?thesis using find_unique [OF assms k(1)] find_unique [of "rev cs" k] assms by (simp add: rev_map [symmetric])
next
  case False
  then have "List.find (\<lambda>k. c_Name k = name) cs = None" "List.find (\<lambda>k. c_Name k = name) (rev cs) = None"
    by (auto simp: find_None_iff)
  then show ?thesis by simp
qed

lemma currentCell_template:
  "distinct (map c_Name cs) \<Longrightarrow> currentCell str (currentRequests cs) name r = templateCell str cs name r"
  by (simp add: currentCell_def templateCell_def currentRequests_of find_rev split: option.split)

definition expected_row ::
  "'q quantity_api \<Rightarrow> ('q \<Rightarrow> string) \<Rightarrow> (string \<Rightarrow> string \<Rightarrow> 'q container list go_result) \<Rightarrow> ('q, 'ls) dynamic_resource list
   \<Rightarrow> string list \<Rightarrow> bool" where
  "expected_row Q str deployments items row \<longleftrightarrow>
    (\<exists>dr \<in> set items. \<exists>rec \<in> set (Recommendations (Status dr)). \<exists>cs.
       deployments (dr_Namespace dr) (Workload rec) = Inr cs
       \<and> (\<exists>c \<in> set (Containers rec). row = [dr_Namespace dr, Workload rec, ContainerName c,
                templateCell str cs (ContainerName c) ResourceCPU, str (map_zero (q_zero Q) (Target c) ResourceCPU),
                templateCell str cs (ContainerName c) ResourceMemory, str (map_zero (q_zero Q) (Target c) ResourceMemory)]))"

section \<open>The layout\<close>

lemma columnWidth_ge: "row \<in> set rows \<Longrightarrow> length (row ! i) + 2 \<le> columnWidth rows i"
proof (induction rows)
  case (Cons r rows)
  then show ?case by (cases "row = r") (auto simp: columnWidth_def)
qed simp

lemma tabLine_cell:
  assumes "i < length cells" "length cells = Suc (length ws)" "\<And>j. j < length ws \<Longrightarrow> length (cells ! j) + 2 \<le> ws ! j"
  shows "\<exists>rest. drop (sum_list (take i ws)) (tabLine ws cells) = cells ! i @ rest
    \<and> (Suc i < length cells \<longrightarrow> take 2 rest = ''  '')"
  using assms
proof (induction ws cells arbitrary: i rule: tabLine.induct)
  case (1 w ws c d cells)
  have w: "length c + 2 \<le> w" using "1.prems"(3) [of 0] by simp
  show ?case
  proof (cases i)
    case 0
    have "w - length c = Suc (Suc (w - length c - 2))" using w by simp
    then have "tabLine (w # ws) (c # d # cells) = c @ CHR '' '' # CHR '' '' # replicate (w - length c - 2) CHR '' '' @ tabLine ws (d # cells)"
      by (metis append_Cons replicate_Suc tabLine.simps(1))
    then show ?thesis using 0 by simp
  next
    case (Suc j)
    have "\<exists>rest. drop (sum_list (take j ws)) (tabLine ws (d # cells)) = (d # cells) ! j @ rest
        \<and> (Suc j < length (d # cells) \<longrightarrow> take 2 rest = ''  '')"
    proof (rule "1.IH")
      show "length ((d # cells) ! k) + 2 \<le> ws ! k" if "k < length ws" for k
        using "1.prems"(3) [of "Suc k"] that by simp
    qed (use "1.prems"(1,2) Suc in simp_all)
    then show ?thesis using w Suc by simp
  qed
qed (auto simp: nth_Cons' length_Suc_conv)

section \<open>Properties\<close>

text \<open>C35. The table of \<open>kubectl kubera diff\<close> is complete and right: below the header it has a row for exactly
  the recommended containers of the DynamicResources listed whose Deployment can be read, and the row
  shows the recommended CPU and memory of the status and what the Pod template requests for the container
  of that name, a dash for a container or a request it does not have; a Deployment that cannot be read
  hides only its own rows.\<close>

theorem diff_rows_exact:
  assumes config: "pc_config P kubeconfig = Inr cfg" and deployments: "pc_deployments P cfg = Inr deployments"
    and client: "dynamicResourceClient P cfg = Inr drClient" and items: "drClient namespace ''dynamicresources'' = Inr items"
    and names: "\<And>ns w cs. deployments ns w = Inr cs \<Longrightarrow> distinct (map c_Name cs)"
  shows "\<exists>rows. runDiff Q str P kubeconfig namespace = Inr (diffHeader # rows)
    \<and> (\<forall>row. row \<in> set rows \<longleftrightarrow> expected_row Q str deployments items row)"
proof -
  have row: "diffRow Q str ns w (currentRequests cs) c = [ns, w, ContainerName c,
      templateCell str cs (ContainerName c) ResourceCPU, str (map_zero (q_zero Q) (Target c) ResourceCPU),
      templateCell str cs (ContainerName c) ResourceMemory, str (map_zero (q_zero Q) (Target c) ResourceMemory)]"
    if "deployments ns w = Inr cs" for ns cs w c
    using names [OF that] by (simp add: diffRow_def currentCell_template)
  have "runDiff Q str P kubeconfig namespace = Inr (diffHeader #
      concat (map (\<lambda>dr. diffWorkloads Q str deployments (dr_Namespace dr) (Recommendations (Status dr))) items))"
    by (simp add: runDiff_def config deployments client items)
  moreover have "(\<exists>dr \<in> set items. row \<in> set (diffWorkloads Q str deployments (dr_Namespace dr) (Recommendations (Status dr))))
      \<longleftrightarrow> expected_row Q str deployments items row" for row
  proof -
    have "(deployments ns w = Inr cs \<and> (\<exists>c \<in> C. row = diffRow Q str ns w (currentRequests cs) c)) \<longleftrightarrow>
        (deployments ns w = Inr cs \<and> (\<exists>c \<in> C. row = [ns, w, ContainerName c,
          templateCell str cs (ContainerName c) ResourceCPU, str (map_zero (q_zero Q) (Target c) ResourceCPU),
          templateCell str cs (ContainerName c) ResourceMemory, str (map_zero (q_zero Q) (Target c) ResourceMemory)]))" for ns w cs C
      by (cases "deployments ns w = Inr cs") (simp_all only: row simp_thms)
    then show ?thesis by (simp only: diffWorkloads_row expected_row_def)
  qed
  ultimately show ?thesis by simp
qed

definition ex_rest :: rest_config where
  "ex_rest = \<lparr>rc_Host = ''https://cluster'', rc_GroupVersion = None, rc_APIPath = [], rc_Scheme = False\<rparr>"

definition ex_deployments :: "string \<Rightarrow> string \<Rightarrow> exact_q container list go_result" where
  "ex_deployments ns w = (if w = ''web'' then Inr [ex_container] else Inl ''not found'')"

definition ex_drClient :: "string \<Rightarrow> string \<Rightarrow> (exact_q, string) dynamic_resource list go_result" where
  "ex_drClient ns resource = (if resource = ''dynamicresources'' then Inr [ex_dr] else Inl ''not found'')"

definition ex_plugin :: "(exact_q, string) plugin_client" where
  "ex_plugin = \<lparr>pc_config = (\<lambda>_. Inr ex_rest), pc_deployments = (\<lambda>_. Inr ex_deployments), pc_addToScheme = None,
     pc_restClient = (\<lambda>cfg. if rc_GroupVersion cfg = Some (''autoscaling.kubera.io'', ''v1alpha1'') \<and> rc_APIPath cfg = ''/apis''
       then Inr ex_drClient else Inl ''no such API'')\<rparr>"

definition ex_str :: "exact_q \<Rightarrow> string" where
  "ex_str q = (if q = mq 100 then ''100m'' else if q = mq 500 then ''500m''
     else if q = bq 104857600 then ''100Mi'' else if q = bq 52428800 then ''50Mi'' else ''?'')"

definition ex_row :: "string list" where
  "ex_row = [''prod'', ''web'', ''app'', ''100m'', ''500m'', ''100Mi'', ''50Mi'']"

lemma ex_diff: "runDiff exact_api ex_str ex_plugin ''config'' ''prod'' = Inr [diffHeader, ex_row]"
  by code_simp

theorem diff_rows_exact_witness: "expected_row exact_api ex_str ex_deployments [ex_dr] ex_row"
proof -
  have "\<exists>rows. runDiff exact_api ex_str ex_plugin ''config'' ''prod'' = Inr (diffHeader # rows)
      \<and> (\<forall>row. row \<in> set rows \<longleftrightarrow> expected_row exact_api ex_str ex_deployments [ex_dr] row)"
    by (rule diff_rows_exact [where cfg = ex_rest and drClient = ex_drClient])
      (auto simp: ex_plugin_def dynamicResourceClient_def ex_drClient_def ex_deployments_def split: if_splits)
  then show ?thesis by (auto simp: ex_diff)
qed

text \<open>The columns of the table line up: when all rows have the same number of cells, every cell of a column
  starts at the same position of its line, and at least two blanks follow it when another cell follows.\<close>

theorem table_columns_line_up:
  assumes "rows \<noteq> []" "\<And>row. row \<in> set rows \<Longrightarrow> length row = n" "i < n"
  shows "\<exists>start. \<forall>k < length rows. \<exists>rest. drop start (tabwriter rows ! k) = rows ! k ! i @ rest
    \<and> (Suc i < n \<longrightarrow> take 2 rest = ''  '')"
proof -
  let ?ws = "map (columnWidth rows) [0..<n - 1]"
  have "length (hd rows) = n" using assms(1,2) by simp
  then have t: "tabwriter rows = map (tabLine ?ws) rows" by (cases rows) (simp_all add: tabwriter_def)
  have "\<exists>rest. drop (sum_list (take i ?ws)) (tabwriter rows ! k) = rows ! k ! i @ rest \<and> (Suc i < n \<longrightarrow> take 2 rest = ''  '')"
    if k: "k < length rows" for k
  proof -
    have r: "rows ! k \<in> set rows" "length (rows ! k) = n" using k assms(2) by simp_all
    have "\<exists>rest. drop (sum_list (take i ?ws)) (tabLine ?ws (rows ! k)) = rows ! k ! i @ rest
        \<and> (Suc i < length (rows ! k) \<longrightarrow> take 2 rest = ''  '')"
      by (rule tabLine_cell) (use r assms(3) columnWidth_ge [OF r(1)] in simp_all)
    then show ?thesis using k r(2) by (simp add: t)
  qed
  then show ?thesis by blast
qed

lemma ex_table: "tabwriter [diffHeader, ex_row] =
  [''NAMESPACE  WORKLOAD  CONTAINER  CURRENT CPU  RECOMMENDED CPU  CURRENT MEMORY  RECOMMENDED MEMORY'',
   ''prod       web       app        100m         500m             100Mi           50Mi'']"
  by code_simp

theorem table_columns_line_up_witness:
  "\<exists>start. \<exists>rest. drop start (tabwriter [diffHeader, ex_row] ! 1) = ''100m'' @ rest"
proof -
  have "\<exists>start. \<forall>k < length [diffHeader, ex_row]. \<exists>rest. drop start (tabwriter [diffHeader, ex_row] ! k) = [diffHeader, ex_row] ! k ! 3 @ rest
      \<and> (Suc 3 < 7 \<longrightarrow> take 2 rest = ''  '')"
    by (rule table_columns_line_up) (auto simp: diffHeader_def ex_row_def)
  then obtain start where "\<forall>k < length [diffHeader, ex_row]. \<exists>rest. drop start (tabwriter [diffHeader, ex_row] ! k) = [diffHeader, ex_row] ! k ! 3 @ rest
      \<and> (Suc 3 < 7 \<longrightarrow> take 2 rest = ''  '')" ..
  from spec [OF this, of 1] show ?thesis by (auto simp: ex_row_def)
qed

end
