(* ===== verification/FakeProvider.thy ===== *)
theory FakeProvider
  imports Metrics
begin

text \<open>
  \<open>internal/metrics/fake.go\<close>: the provider that the controller tests feed by hand. The mutex makes every
  operation atomic, so the provider is a value that the setters return updated.
\<close>

record 'q fake_provider =
  fk_usages :: "(string, 'q pod_usage list) gomap"
  fk_listErr :: "string option"

definition NewFakeProvider :: "'q fake_provider" where
  "NewFakeProvider = \<lparr>fk_usages = [], fk_listErr = None\<rparr>"

definition SetPodUsage :: "'q fake_provider \<Rightarrow> string \<Rightarrow> 'q pod_usage list \<Rightarrow> 'q fake_provider" where
  "SetPodUsage f namespace usages = f\<lparr>fk_usages := AList.update namespace usages (fk_usages f)\<rparr>"

definition SetError :: "'q fake_provider \<Rightarrow> string option \<Rightarrow> 'q fake_provider" where
  "SetError f err = f\<lparr>fk_listErr := err\<rparr>"

definition FakeListPodUsage :: "'q fake_provider \<Rightarrow> ('q, 'sel) provider" where
  "FakeListPodUsage f namespace selector =
     (case fk_listErr f of Some err \<Rightarrow> Inl err | None \<Rightarrow> Inr (map_zero [] (fk_usages f) namespace))"

lemma fake_lists_last_set:
  "FakeListPodUsage (SetPodUsage f ns us) ns' sel =
     (case fk_listErr f of Some err \<Rightarrow> Inl err
      | None \<Rightarrow> if ns' = ns then Inr us else FakeListPodUsage f ns' sel)"
  by (auto simp: FakeListPodUsage_def SetPodUsage_def map_zero_def map_of_update split: option.split)

lemma fake_error_sticks: "FakeListPodUsage (SetPodUsage (SetError f (Some err)) ns us) ns' sel = Inl err"
  by (simp add: FakeListPodUsage_def SetPodUsage_def SetError_def)

end
