(* ===== verification/Memory.thy ===== *)
theory Memory
  imports Api "HOL-Library.State_Monad"
begin

text \<open>
  Go's memory, as far as copying objects needs it. A memory maps addresses to cells and knows the next
  free address; a program that reads, writes and allocates is a value of the state monad. A pointer is an
  address or nil, a slice or a map is the address of the array or table behind it, or nil.

  The locale \<open>region\<close> is what can be said of a value whose parts lie in a range of addresses; the locale
  \<open>copier\<close> is the contract of a deep copy: an equal value, made of fresh cells only, that leaves the old
  cells alone. Lists, tables and pointers of a type with a copier have one.
\<close>

section \<open>Cells\<close>

type_synonym addr = nat

record 'c mem =
  cell :: "addr \<Rightarrow> 'c"
  free :: addr

definition load :: "addr \<Rightarrow> ('c mem, 'c) state" where
  "load a = State (\<lambda>h. (cell h a, h))"

definition store :: "addr \<Rightarrow> 'c \<Rightarrow> ('c mem, unit) state" where
  "store a c = State (\<lambda>h. ((), h\<lparr>cell := (cell h)(a := c)\<rparr>))"

definition alloc :: "'c \<Rightarrow> ('c mem, addr) state" where
  "alloc c = State (\<lambda>h. (free h, h\<lparr>cell := (cell h)(free h := c), free := Suc (free h)\<rparr>))"

lemma run_cells [simp]:
  "run_state (load a) h = (cell h a, h)"
  "run_state (store a c) h = ((), h\<lparr>cell := (cell h)(a := c)\<rparr>)"
  "run_state (alloc c) h = (free h, h\<lparr>cell := (cell h)(free h := c), free := Suc (free h)\<rparr>)"
  by (simp_all add: load_def store_def alloc_def)

definition grown :: "'c mem \<Rightarrow> 'c mem \<Rightarrow> bool" where
  \<comment> \<open>only new cells were written\<close>
  "grown h h' \<longleftrightarrow> free h \<le> free h' \<and> (\<forall>a < free h. cell h' a = cell h a)"

lemma grown_refl [simp]: "grown h h"
  by (simp add: grown_def)

lemma grown_trans [trans]: "grown h h1 \<Longrightarrow> grown h1 h2 \<Longrightarrow> grown h h2"
  by (auto simp: grown_def)

lemma grown_free: "grown h h' \<Longrightarrow> free h \<le> free h'"
  by (simp add: grown_def)

definition agree :: "addr \<Rightarrow> addr \<Rightarrow> 'c mem \<Rightarrow> 'c mem \<Rightarrow> bool" where
  \<comment> \<open>the cells of the range \<open>lo .. hi - 1\<close> are the same\<close>
  "agree lo hi h h' \<longleftrightarrow> (\<forall>a. lo \<le> a \<longrightarrow> a < hi \<longrightarrow> cell h' a = cell h a)"

lemma agreeD: "agree lo hi h h' \<Longrightarrow> lo \<le> a \<Longrightarrow> a < hi \<Longrightarrow> cell h' a = cell h a"
  by (simp add: agree_def)

section \<open>Copying\<close>

definition clone :: "('c \<Rightarrow> 'v) \<Rightarrow> ('v \<Rightarrow> 'c) \<Rightarrow> ('v \<Rightarrow> ('c mem, 'v) state) \<Rightarrow> addr option \<Rightarrow> ('c mem, addr option) state" where
  \<comment> \<open>nil stays nil; else a new object is filled with a shallow copy (\<open>*out = *in\<close>) and then with the copies
      of the parts\<close>
  "clone from into copy p =
     (case p of
        None \<Rightarrow> State_Monad.return None
      | Some a \<Rightarrow> do {
          c \<leftarrow> load a;
          b \<leftarrow> alloc c;
          y \<leftarrow> copy (from c);
          store b (into y);
          State_Monad.return (Some b)
        })"

fun cloneEntries :: "('v \<Rightarrow> ('c mem, 'v) state) \<Rightarrow> ('k, 'v) gomap \<Rightarrow> ('k, 'v) gomap \<Rightarrow> ('c mem, ('k, 'v) gomap) state" where
  \<comment> \<open>\<open>for key, val := range in { out[key] = val.DeepCopy() }\<close>; the order of the entries has no effect on
      what the map holds\<close>
  "cloneEntries copy out [] = State_Monad.return out"
| "cloneEntries copy out ((k, v) # m) = do {
     v \<leftarrow> copy v;
     cloneEntries copy (AList.update k v out) m
   }"

section \<open>Regions\<close>

locale region =
  fixes view :: "'c mem \<Rightarrow> 'v \<Rightarrow> 'w"
    and inside :: "'c mem \<Rightarrow> addr \<Rightarrow> addr \<Rightarrow> 'v \<Rightarrow> bool"
  assumes mono: "inside h lo hi x \<Longrightarrow> lo' \<le> lo \<Longrightarrow> hi \<le> hi' \<Longrightarrow> inside h lo' hi' x"
    and frame: "inside h lo hi x \<Longrightarrow> agree lo hi h h' \<Longrightarrow> view h' x = view h x"
    and frame_inside: "inside h lo hi x \<Longrightarrow> agree lo hi h h' \<Longrightarrow> inside h' lo hi x"
begin

lemma keep:
  assumes "inside h lo (free h) x" "grown h h'"
  shows "inside h' lo (free h') x" "view h' x = view h x"
proof -
  have "agree lo (free h) h h'" using assms(2) by (simp add: grown_def agree_def)
  then show "inside h' lo (free h') x" "view h' x = view h x"
    using frame frame_inside assms(1) mono grown_free [OF assms(2)] by blast+
qed

end

locale copier = region view inside
  for view :: "'c mem \<Rightarrow> 'v \<Rightarrow> 'w" and inside :: "'c mem \<Rightarrow> addr \<Rightarrow> addr \<Rightarrow> 'v \<Rightarrow> bool" +
  fixes copy :: "'v \<Rightarrow> ('c mem, 'v) state"
  assumes copies: "inside h 0 (free h) x \<Longrightarrow> run_state (copy x) h = (y, h') \<Longrightarrow>
    grown h h' \<and> inside h' (free h) (free h') y \<and> view h' y = view h x"
begin

lemma step:
  \<comment> \<open>one step of a longer copy that began in \<open>h0\<close>: what it made is still there at the end\<close>
  assumes "inside h0 0 (free h0) x" "grown h0 h" "run_state (copy x) h = (y, h')"
  shows "grown h0 h'" "grown h h'"
    "grown h' h'' \<Longrightarrow> inside h'' (free h0) (free h'') y \<and> view h'' y = view h0 x"
proof -
  note x = keep [OF assms(1,2)]
  from copies [OF x(1) assms(3)] have c: "grown h h'" "inside h' (free h) (free h') y" "view h' y = view h x" by blast+
  show "grown h h'" "grown h0 h'" using c(1) grown_trans [OF assms(2)] by blast+
  assume g: "grown h' h''"
  have "inside h' (free h0) (free h') y" using mono [OF c(2)] grown_free [OF assms(2)] by blast
  from keep [OF this g] show "inside h'' (free h0) (free h'') y \<and> view h'' y = view h0 x" using c(3) x(2) by simp
qed

end

lemma copier_flat: "copier (\<lambda>_ x. f x) (\<lambda>_ _ _ _. True) State_Monad.return"
  by unfold_locales auto

section \<open>Pointers, slices and maps\<close>

definition pointee :: "('c \<Rightarrow> 'v) \<Rightarrow> ('c mem \<Rightarrow> 'v \<Rightarrow> 'w) \<Rightarrow> 'c mem \<Rightarrow> addr option \<Rightarrow> 'w option" where
  "pointee from view h p = map_option (\<lambda>a. view h (from (cell h a))) p"

definition pointer_inside ::
  "('c \<Rightarrow> 'v) \<Rightarrow> ('c mem \<Rightarrow> addr \<Rightarrow> addr \<Rightarrow> 'v \<Rightarrow> bool) \<Rightarrow> 'c mem \<Rightarrow> addr \<Rightarrow> addr \<Rightarrow> addr option \<Rightarrow> bool" where
  "pointer_inside from inside h lo hi p =
     (case p of None \<Rightarrow> True | Some a \<Rightarrow> lo \<le> a \<and> a < hi \<and> inside h lo hi (from (cell h a)))"

definition entries_view :: "('c mem \<Rightarrow> 'v \<Rightarrow> 'w) \<Rightarrow> 'c mem \<Rightarrow> ('k, 'v) gomap \<Rightarrow> ('k, 'w) gomap" where
  "entries_view view h m = map (\<lambda>(k, v). (k, view h v)) m"

definition entries_inside ::
  "('c mem \<Rightarrow> addr \<Rightarrow> addr \<Rightarrow> 'v \<Rightarrow> bool) \<Rightarrow> 'c mem \<Rightarrow> addr \<Rightarrow> addr \<Rightarrow> ('k, 'v) gomap \<Rightarrow> bool" where
  \<comment> \<open>a Go map has one entry per key\<close>
  "entries_inside inside h lo hi m \<longleftrightarrow> gomap_wf m \<and> list_all (\<lambda>(k, v). inside h lo hi v) m"

context region
begin

lemma list_region: "region (\<lambda>h. map (view h)) (\<lambda>h lo hi. list_all (inside h lo hi))"
  by unfold_locales (auto simp: list_all_iff intro: mono frame frame_inside)

lemma entries_region: "region (entries_view view) (entries_inside inside)"
proof
  fix h h' :: "'c mem" and lo hi lo' hi' and m :: "('k, 'v) gomap"
  assume i: "entries_inside inside h lo hi m"
  then have x: "inside h lo hi v" if "(k, v) \<in> set m" for k v
    using that by (auto simp: entries_inside_def list_all_iff)
  show "entries_inside inside h lo' hi' m" if "lo' \<le> lo" "hi \<le> hi'"
    using i mono [OF x that] by (auto simp: entries_inside_def list_all_iff)
  show "entries_view view h' m = entries_view view h m" "entries_inside inside h' lo hi m" if "agree lo hi h h'"
    using i frame [OF x that] frame_inside [OF x that] by (auto simp: entries_view_def entries_inside_def list_all_iff)
qed

lemma pointer_region: "region (pointee from view) (pointer_inside from inside)"
  by unfold_locales
    (auto simp: pointer_inside_def pointee_def agreeD split: option.splits intro: mono frame frame_inside)

lemma map_region: "region (\<lambda>h x. f (view h x)) inside"
  by unfold_locales (auto intro: mono frame_inside arg_cong [OF frame])

end

context copier
begin

lemma list_copier: "copier (\<lambda>h. map (view h)) (\<lambda>h lo hi. list_all (inside h lo hi)) (State_Monad.traverse_list copy)"
proof (rule copier.intro [OF list_region], unfold_locales)
  show "grown h h' \<and> list_all (inside h' (free h) (free h')) ys \<and> map (view h') ys = map (view h) xs"
    if "list_all (inside h 0 (free h)) xs" "run_state (State_Monad.traverse_list copy xs) h = (ys, h')" for h xs ys h'
  proof -
    have "grown h1 h' \<and> list_all (inside h' (free h) (free h')) ys \<and> map (view h') ys = map (view h) xs"
      if "grown h h1" "run_state (State_Monad.traverse_list copy xs) h1 = (ys, h')" "list_all (inside h 0 (free h)) xs" for h1
      using that
    proof (induction xs arbitrary: ys h1)
      case (Cons x xs)
      obtain y h2 zs where c: "run_state (copy x) h1 = (y, h2)" "run_state (State_Monad.traverse_list copy xs) h2 = (zs, h')"
        "ys = y # zs"
        using Cons.prems(2) by (auto split: prod.splits)
      have x: "inside h 0 (free h) x" "list_all (inside h 0 (free h)) xs" using Cons.prems(3) by simp_all
      note s = step [OF x(1) Cons.prems(1) c(1)]
      from Cons.IH [OF s(1) c(2) x(2)] show ?case using s(2,3) grown_trans c(3) by auto
    qed simp
    then show ?thesis using that grown_refl by blast
  qed
qed

lemma cloneEntries_append:
  "gomap_wf (out @ m) \<Longrightarrow> run_state (cloneEntries copy out m) h =
     (let (vs, h') = run_state (State_Monad.traverse_list copy (map snd m)) h in (out @ zip (map fst m) vs, h'))"
proof (induction m arbitrary: out h)
  case (Cons kv m)
  obtain k v where kv: "kv = (k, v)" by fastforce
  have "AList.update k v' out = out @ [(k, v')]" for v'
  proof -
    have "k \<notin> fst ` set out" using Cons.prems by (auto simp: kv)
    then show ?thesis by (induction out) auto
  qed
  moreover have "gomap_wf ((out @ [(k, v')]) @ m)" for v' using Cons.prems by (auto simp: kv)
  ultimately show ?case using Cons.IH by (auto simp: kv Let_def split: prod.splits)
qed simp

lemma entries_copier: "copier (entries_view view) (entries_inside inside) (cloneEntries copy [])"
proof (rule copier.intro [OF entries_region], unfold_locales)
  fix h h' :: "'c mem" and m m' :: "('k, 'v) gomap"
  assume i: "entries_inside inside h 0 (free h) m" and r: "run_state (cloneEntries copy [] m) h = (m', h')"
  obtain vs where t: "run_state (State_Monad.traverse_list copy (map snd m)) h = (vs, h')" "m' = zip (map fst m) vs"
    using r cloneEntries_append [of "[]" m h] i by (auto simp: entries_inside_def Let_def split: prod.splits)
  have "list_all (inside h 0 (free h)) (map snd m)" using i by (auto simp: entries_inside_def list_all_iff)
  then have c: "grown h h'" "list_all (inside h' (free h) (free h')) vs" "map (view h') vs = map (view h) (map snd m)"
    using copier.copies [OF list_copier _ t(1)] by blast+
  have l: "length vs = length m" using c(3) by (metis length_map)
  have "entries_inside inside h' (free h) (free h') m'"
    using i c(2) l by (auto simp: t(2) entries_inside_def list_all_iff dest: set_zip_rightD)
  moreover have "entries_view view h' m' = entries_view view h m"
  proof -
    have "entries_view view h' m' = zip (map fst m) (map (view h') vs)"
      by (simp add: entries_view_def t(2) zip_map2)
    also have "\<dots> = zip (map fst m) (map (view h) (map snd m))" by (simp add: c(3))
    also have "\<dots> = entries_view view h m" by (simp add: entries_view_def zip_map_map zip_same_conv_map case_prod_unfold)
    finally show ?thesis .
  qed
  ultimately show "grown h h' \<and> entries_inside inside h' (free h) (free h') m' \<and> entries_view view h' m' = entries_view view h m"
    using c(1) by blast
qed

lemma clone_copier:
  assumes inv: "\<And>v. from (into v) = v"
  shows "copier (pointee from view) (pointer_inside from inside) (clone from into copy)"
proof (rule copier.intro [OF pointer_region], unfold_locales)
  fix h h' :: "'c mem" and p p'
  assume i: "pointer_inside from inside h 0 (free h) p" and r: "run_state (clone from into copy p) h = (p', h')"
  show "grown h h' \<and> pointer_inside from inside h' (free h) (free h') p' \<and> pointee from view h' p' = pointee from view h p"
  proof (cases p)
    case None
    then show ?thesis using r by (auto simp: clone_def pointer_inside_def pointee_def)
  next
    case (Some a)
    let ?h1 = "h\<lparr>cell := (cell h)(free h := cell h a), free := Suc (free h)\<rparr>"
    obtain y h2 where c: "run_state (copy (from (cell h a))) ?h1 = (y, h2)" by fastforce
    have e: "p' = Some (free h)" "h' = h2\<lparr>cell := (cell h2)(free h := into y)\<rparr>"
      using r c by (simp_all add: clone_def Some)
    have g: "grown h ?h1" by (simp add: grown_def)
    have x: "inside h 0 (free h) (from (cell h a))" using i by (simp add: Some pointer_inside_def)
    note k = keep [OF x g]
    from copies [OF k(1) c] have d: "grown ?h1 h2" "inside h2 (free ?h1) (free h2) y" "view h2 y = view ?h1 (from (cell h a))"
      by blast+
    have "agree (free ?h1) (free h2) h2 h'" by (simp add: agree_def e(2))
    then have f: "view h' y = view h2 y" "inside h' (free ?h1) (free h2) y" using frame frame_inside d(2) by blast+
    have "Suc (free h) \<le> free h2" using grown_free [OF d(1)] by simp
    then have "grown h h'" "free h < free h'" using d(1) by (auto simp: grown_def e(2))
    moreover have "inside h' (free h) (free h') y" using mono [of h' "free ?h1" "free h2" y "free h" "free h'"] f by (simp add: e(2))
    moreover have "view h' y = view h (from (cell h a))" using f d(3) k(2) by simp
    ultimately show ?thesis by (simp add: pointer_inside_def pointee_def Some e inv)
  qed
qed

lemma isolated:
  \<comment> \<open>whatever is done later to the new cells leaves the original alone, and the other way round\<close>
  assumes "inside h 0 (free h) x" "run_state (copy x) h = (y, h')"
  shows "view h' y = view h x" "agree 0 (free h) h' h'' \<Longrightarrow> view h'' x = view h x"
    "agree (free h) (free h') h' h'' \<Longrightarrow> view h'' y = view h x"
proof -
  from copies [OF assms] have c: "grown h h'" "inside h' (free h) (free h') y" "view h' y = view h x" by blast+
  show "view h' y = view h x" by (rule c(3))
  show "view h'' y = view h x" if "agree (free h) (free h') h' h''" using frame [OF c(2) that] c(3) by simp
  show "view h'' x = view h x" if "agree 0 (free h) h' h''"
    using frame [OF assms(1), of h''] that c(1) by (simp add: agree_def grown_def)
qed

lemma map_copier: "copier (\<lambda>h x. f (view h x)) inside copy"
  by (rule copier.intro [OF map_region], unfold_locales) (use copies in metis)

end

definition elements :: "('c \<Rightarrow> 'v list) \<Rightarrow> ('c mem \<Rightarrow> 'v \<Rightarrow> 'w) \<Rightarrow> 'c mem \<Rightarrow> addr option \<Rightarrow> 'w list" where
  \<comment> \<open>a slice read as a list; nil reads like an empty one\<close>
  "elements from view h p = (case pointee from (\<lambda>h. map (view h)) h p of None \<Rightarrow> [] | Some xs \<Rightarrow> xs)"

definition elements_inside ::
  "('c \<Rightarrow> 'v list) \<Rightarrow> ('c mem \<Rightarrow> addr \<Rightarrow> addr \<Rightarrow> 'v \<Rightarrow> bool) \<Rightarrow> 'c mem \<Rightarrow> addr \<Rightarrow> addr \<Rightarrow> addr option \<Rightarrow> bool" where
  "elements_inside from inside = pointer_inside from (\<lambda>h lo hi. list_all (inside h lo hi))"

definition table :: "('c \<Rightarrow> ('k, 'v) gomap) \<Rightarrow> ('c mem \<Rightarrow> 'v \<Rightarrow> 'w) \<Rightarrow> 'c mem \<Rightarrow> addr option \<Rightarrow> ('k, 'w) gomap" where
  \<comment> \<open>a map; nil reads like an empty one\<close>
  "table from view h p = (case pointee from (entries_view view) h p of None \<Rightarrow> [] | Some m \<Rightarrow> m)"

definition table_inside ::
  "('c \<Rightarrow> ('k, 'v) gomap) \<Rightarrow> ('c mem \<Rightarrow> addr \<Rightarrow> addr \<Rightarrow> 'v \<Rightarrow> bool) \<Rightarrow> 'c mem \<Rightarrow> addr \<Rightarrow> addr \<Rightarrow> addr option \<Rightarrow> bool" where
  "table_inside from inside = pointer_inside from (entries_inside inside)"

context copier
begin

lemma slice_copier:
  assumes "\<And>xs. from (into xs) = xs"
  shows "copier (elements from view) (elements_inside from inside) (clone from into (State_Monad.traverse_list copy))"
proof -
  have "elements from view = (\<lambda>h p. case pointee from (\<lambda>h. map (view h)) h p of None \<Rightarrow> [] | Some xs \<Rightarrow> xs)"
    by (simp add: fun_eq_iff elements_def)
  then show ?thesis
    using copier.map_copier [OF copier.clone_copier [OF list_copier assms]] by (simp add: elements_inside_def)
qed

lemma table_copier:
  assumes "\<And>m. from (into m) = m"
  shows "copier (table from view) (table_inside from inside) (clone from into (cloneEntries copy []))"
proof -
  have "table from view = (\<lambda>h p. case pointee from (entries_view view) h p of None \<Rightarrow> [] | Some m \<Rightarrow> m)"
    by (simp add: fun_eq_iff table_def)
  then show ?thesis
    using copier.map_copier [OF copier.clone_copier [OF entries_copier assms]] by (simp add: table_inside_def)
qed

end

section \<open>Structs\<close>

definition copyBoth ::
  "('a \<Rightarrow> ('c mem, 'a) state) \<Rightarrow> ('b \<Rightarrow> ('c mem, 'b) state) \<Rightarrow> 'a \<times> 'b \<Rightarrow> ('c mem, 'a \<times> 'b) state" where
  "copyBoth f g x = do { a \<leftarrow> f (fst x); b \<leftarrow> g (snd x); State_Monad.return (a, b) }"

definition both_view :: "('c mem \<Rightarrow> 'a \<Rightarrow> 'v) \<Rightarrow> ('c mem \<Rightarrow> 'b \<Rightarrow> 'w) \<Rightarrow> 'c mem \<Rightarrow> 'a \<times> 'b \<Rightarrow> 'v \<times> 'w" where
  "both_view f g h x = (f h (fst x), g h (snd x))"

definition both_inside ::
  "('c mem \<Rightarrow> addr \<Rightarrow> addr \<Rightarrow> 'a \<Rightarrow> bool) \<Rightarrow> ('c mem \<Rightarrow> addr \<Rightarrow> addr \<Rightarrow> 'b \<Rightarrow> bool)
   \<Rightarrow> 'c mem \<Rightarrow> addr \<Rightarrow> addr \<Rightarrow> 'a \<times> 'b \<Rightarrow> bool" where
  "both_inside f g h lo hi x \<longleftrightarrow> f h lo hi (fst x) \<and> g h lo hi (snd x)"

lemmas struct_defs = copyBoth_def both_view_def both_inside_def

lemma both_copier:
  assumes A: "copier view insideA copy" and B: "copier view' insideB copy'"
  shows "copier (both_view view view') (both_inside insideA insideB) (copyBoth copy copy')"
proof -
  have rA: "region view insideA" and rB: "region view' insideB"
    using A B by (simp_all add: copier_def)
  show ?thesis
  proof
    fix h h' :: "'a mem" and x y
    assume i: "both_inside insideA insideB h 0 (free h) x" and r: "run_state (copyBoth copy copy' x) h = (y, h')"
    obtain a b h1 where c: "run_state (copy (fst x)) h = (a, h1)" "run_state (copy' (snd x)) h1 = (b, h')" "y = (a, b)"
      using r by (auto simp: copyBoth_def split: prod.splits)
    have iA: "insideA h 0 (free h) (fst x)" and iB: "insideB h 0 (free h) (snd x)"
      using i by (simp_all add: both_inside_def)
    note s1 = copier.step [OF A iA grown_refl c(1)]
    note s2 = copier.step [OF B iB s1(1) c(2)]
    show "grown h h' \<and> both_inside insideA insideB h' (free h) (free h') y \<and> both_view view view' h' y = both_view view view' h x"
      using s1(3) s2 by (simp add: both_inside_def both_view_def c(3))
  qed (auto simp: both_inside_def both_view_def
      intro: region.mono [OF rA] region.mono [OF rB] region.frame [OF rA] region.frame [OF rB]
        region.frame_inside [OF rA] region.frame_inside [OF rB])
qed

lemma struct_copier:
  \<comment> \<open>a struct whose reference fields \<open>get\<close> are copied and put back\<close>
  assumes "copier view inside copy"
    and laws: "\<And>x t. get (put x t) = t" "\<And>x t w. mk (put x t) w = mk x w"
    and v: "\<And>h x. view' h x = mk x (view h (get x))" and i: "\<And>h lo hi x. inside' h lo hi x = inside h lo hi (get x)"
    and c: "\<And>x. copy' x = do { t \<leftarrow> copy (get x); State_Monad.return (put x t) }"
  shows "copier view' inside' copy'"
proof -
  have r: "region view inside" using assms(1) by (simp add: copier_def)
  show ?thesis
  proof
    fix h h' :: "'a mem" and x y
    assume x: "inside' h 0 (free h) x" and run: "run_state (copy' x) h = (y, h')"
    obtain t where t: "run_state (copy (get x)) h = (t, h')" "y = put x t" using run by (auto simp: c split: prod.splits)
    show "grown h h' \<and> inside' h' (free h) (free h') y \<and> view' h' y = view' h x"
      using copier.copies [OF assms(1) _ t(1)] x by (simp add: i v t(2) laws)
  qed (auto simp: i v intro: region.mono [OF r] region.frame_inside [OF r] arg_cong [OF region.frame [OF r]])
qed

end
