(* ===== verification/DeepCopy.thy ===== *)
theory DeepCopy
  imports Memory
begin

text \<open>
  \<open>api/v1alpha1/zz_generated.deepcopy.go\<close>, over a Go memory. A type that holds pointers, slices or maps
  gets a record \<open>.._m\<close> for its layout, with an address where the code has a reference; the types without
  any, and the bounds, whose quantities are values, are those of \<open>Api\<close>. \<open>T_DeepCopyInto\<close> takes the struct
  \<open>*in\<close> and returns what it leaves in \<open>*out\<close>; \<open>T_DeepCopy\<close> works on pointers. A slice is the
  address of its elements from the first to its length.

  The copies of the types of apimachinery (quantities, label selectors, object and list metadata, conditions,
  times) are parameters, the fields of \<open>lib\<close>. Locale \<open>library\<close> is their contract, that of a \<open>copier\<close>; it
  passes it on to every type of the API.
\<close>

section \<open>The objects in memory\<close>

record scaling_policy_m =
  mStabilizationWindow :: "addr option"
  mMaxStepPercent :: i32
  mCooldown :: "addr option"

record behavior_spec_m =
  mScaleUp :: "addr option"
  mScaleDown :: "addr option"

record metrics_config_m =
  mProvider :: metrics_provider
  mPollingInterval :: "addr option"
  mCPUPercentile :: i32
  mMemoryPercentile :: i32
  mPrometheusURL :: string

record hpa_coordination_m =
  mHPAMode :: hpa_mode
  mReserveHeadroomPercent :: i32
  mPauseWhileHPAScaling :: "addr option"
  mCooldownAfterHPA :: "addr option"

record container_override_m =
  mOverrideName :: string
  mOverrideMode :: container_mode
  mOverrideCPU :: "addr option"
  mOverrideMemory :: "addr option"

record 'q dr_spec_m =
  mSelector :: "addr option"
  mUpdateMode :: update_mode
  mResources :: "'q resource_policy"
  mContainerOverrides :: "addr option"
  mMetrics :: "addr option"
  mBehavior :: "addr option"
  mHPA :: "addr option"

record container_recommendation_m =
  mContainerName :: string
  mTarget :: "addr option"
  mApplied :: "addr option"

record workload_recommendation_m =
  mWorkload :: string
  mContainers :: "addr option"

record dr_status_m =
  mConditions :: "addr option"
  mMatchedWorkloads :: "addr option"
  mRecommendations :: "addr option"
  mLastResizeTime :: "addr option"
  mHPAState :: hpa_state
  mObservedGeneration :: i64

record type_meta =
  Kind :: string
  APIVersion :: string

record ('q, 'om) dynamic_resource_m =
  mTypeMeta :: type_meta
  mObjectMeta :: 'om
  mSpec :: "'q dr_spec_m"
  mStatus :: dr_status_m

record 'lm dynamic_resource_list_m =
  mListTypeMeta :: type_meta
  mListMeta :: 'lm
  mItems :: "addr option"

datatype ('q, 'ls, 'om, 'lm, 'cd, 'x) gocell =
    BoolCell (theBool: bool)
  | DurationCell (theDuration: duration)
  | TimeCell (theTime: time)
  | LabelSelectorCell (theLabelSelector: 'ls)
  | BoundsCell (theBounds: "'q resource_bounds")
  | PolicyCell (thePolicy: "'q resource_policy")
  | OverrideCell (theOverride: container_override_m)
  | OverridesCell (theOverrides: "container_override_m list")
  | ScalingPolicyCell (theScalingPolicy: scaling_policy_m)
  | BehaviorCell (theBehavior: behavior_spec_m)
  | MetricsCell (theMetrics: metrics_config_m)
  | HPACell (theHPA: hpa_coordination_m)
  | SpecCell (theSpec: "'q dr_spec_m")
  | ConditionsCell (theConditions: "'cd list")
  | ReferenceCell (theReference: workload_reference)
  | ReferencesCell (theReferences: "workload_reference list")
  | ResourceListCell (theResourceList: "(string, 'q) gomap")
  | ContainerRecCell (theContainerRec: container_recommendation_m)
  | ContainerRecsCell (theContainerRecs: "container_recommendation_m list")
  | WorkloadRecCell (theWorkloadRec: workload_recommendation_m)
  | WorkloadRecsCell (theWorkloadRecs: "workload_recommendation_m list")
  | StatusCell (theStatus: dr_status_m)
  | ResourceCell (theResource: "('q, 'om) dynamic_resource_m")
  | ResourcesCell (theResources: "('q, 'om) dynamic_resource_m list")
  | ResourceListObjectCell (theListObject: "'lm dynamic_resource_list_m")
  | LibraryCell (theLibrary: 'x)  \<comment> \<open>objects of the libraries behind their types\<close>

type_synonym ('q, 'ls, 'om, 'lm, 'cd, 'x) gomem = "('q, 'ls, 'om, 'lm, 'cd, 'x) gocell mem"
type_synonym ('q, 'ls, 'om, 'lm, 'cd, 'x, 'a) go = "(('q, 'ls, 'om, 'lm, 'cd, 'x) gomem, 'a) state"

record ('q, 'ls, 'om, 'lm, 'cd, 'x) lib =
  Quantity_DeepCopy :: "'q \<Rightarrow> ('q, 'ls, 'om, 'lm, 'cd, 'x, 'q) go"
  LabelSelector_DeepCopyInto :: "'ls \<Rightarrow> ('q, 'ls, 'om, 'lm, 'cd, 'x, 'ls) go"
  ObjectMeta_DeepCopyInto :: "'om \<Rightarrow> ('q, 'ls, 'om, 'lm, 'cd, 'x, 'om) go"
  ListMeta_DeepCopyInto :: "'lm \<Rightarrow> ('q, 'ls, 'om, 'lm, 'cd, 'x, 'lm) go"
  Condition_DeepCopyInto :: "'cd \<Rightarrow> ('q, 'ls, 'om, 'lm, 'cd, 'x, 'cd) go"
  Time_DeepCopy :: "addr option \<Rightarrow> ('q, 'ls, 'om, 'lm, 'cd, 'x, addr option) go"

section \<open>Spec\<close>

definition ScalingPolicy_DeepCopyInto :: "scaling_policy_m \<Rightarrow> ('q, 'ls, 'om, 'lm, 'cd, 'x, scaling_policy_m) go" where
  "ScalingPolicy_DeepCopyInto p = do {
     window \<leftarrow> clone theDuration DurationCell State_Monad.return (mStabilizationWindow p);
     cooldown \<leftarrow> clone theDuration DurationCell State_Monad.return (mCooldown p);
     State_Monad.return (p\<lparr>mStabilizationWindow := window, mCooldown := cooldown\<rparr>)
   }"

definition ScalingPolicy_DeepCopy :: "addr option \<Rightarrow> ('q, 'ls, 'om, 'lm, 'cd, 'x, addr option) go" where
  "ScalingPolicy_DeepCopy p = clone theScalingPolicy ScalingPolicyCell ScalingPolicy_DeepCopyInto p"

definition BehaviorSpec_DeepCopyInto :: "behavior_spec_m \<Rightarrow> ('q, 'ls, 'om, 'lm, 'cd, 'x, behavior_spec_m) go" where
  "BehaviorSpec_DeepCopyInto b = do {
     up \<leftarrow> clone theScalingPolicy ScalingPolicyCell ScalingPolicy_DeepCopyInto (mScaleUp b);
     down \<leftarrow> clone theScalingPolicy ScalingPolicyCell ScalingPolicy_DeepCopyInto (mScaleDown b);
     State_Monad.return (b\<lparr>mScaleUp := up, mScaleDown := down\<rparr>)
   }"

definition BehaviorSpec_DeepCopy :: "addr option \<Rightarrow> ('q, 'ls, 'om, 'lm, 'cd, 'x, addr option) go" where
  "BehaviorSpec_DeepCopy p = clone theBehavior BehaviorCell BehaviorSpec_DeepCopyInto p"

definition MetricsConfig_DeepCopyInto :: "metrics_config_m \<Rightarrow> ('q, 'ls, 'om, 'lm, 'cd, 'x, metrics_config_m) go" where
  "MetricsConfig_DeepCopyInto m = do {
     interval \<leftarrow> clone theDuration DurationCell State_Monad.return (mPollingInterval m);
     State_Monad.return (m\<lparr>mPollingInterval := interval\<rparr>)
   }"

definition MetricsConfig_DeepCopy :: "addr option \<Rightarrow> ('q, 'ls, 'om, 'lm, 'cd, 'x, addr option) go" where
  "MetricsConfig_DeepCopy p = clone theMetrics MetricsCell MetricsConfig_DeepCopyInto p"

definition HPACoordination_DeepCopyInto :: "hpa_coordination_m \<Rightarrow> ('q, 'ls, 'om, 'lm, 'cd, 'x, hpa_coordination_m) go" where
  "HPACoordination_DeepCopyInto c = do {
     pause \<leftarrow> clone theBool BoolCell State_Monad.return (mPauseWhileHPAScaling c);
     cooldown \<leftarrow> clone theDuration DurationCell State_Monad.return (mCooldownAfterHPA c);
     State_Monad.return (c\<lparr>mPauseWhileHPAScaling := pause, mCooldownAfterHPA := cooldown\<rparr>)
   }"

definition HPACoordination_DeepCopy :: "addr option \<Rightarrow> ('q, 'ls, 'om, 'lm, 'cd, 'x, addr option) go" where
  "HPACoordination_DeepCopy p = clone theHPA HPACell HPACoordination_DeepCopyInto p"

definition ResourceBounds_DeepCopyInto ::
  "('q, 'ls, 'om, 'lm, 'cd, 'x) lib \<Rightarrow> 'q resource_bounds \<Rightarrow> ('q, 'ls, 'om, 'lm, 'cd, 'x, 'q resource_bounds) go" where
  "ResourceBounds_DeepCopyInto L b = do {
     min \<leftarrow> Quantity_DeepCopy L (Min b);
     max \<leftarrow> Quantity_DeepCopy L (Max b);
     State_Monad.return (b\<lparr>Min := min, Max := max\<rparr>)
   }"

definition ResourceBounds_DeepCopy ::
  "('q, 'ls, 'om, 'lm, 'cd, 'x) lib \<Rightarrow> addr option \<Rightarrow> ('q, 'ls, 'om, 'lm, 'cd, 'x, addr option) go" where
  "ResourceBounds_DeepCopy L p = clone theBounds BoundsCell (ResourceBounds_DeepCopyInto L) p"

definition ResourcePolicy_DeepCopyInto ::
  "('q, 'ls, 'om, 'lm, 'cd, 'x) lib \<Rightarrow> 'q resource_policy \<Rightarrow> ('q, 'ls, 'om, 'lm, 'cd, 'x, 'q resource_policy) go" where
  "ResourcePolicy_DeepCopyInto L p = do {
     cpu \<leftarrow> ResourceBounds_DeepCopyInto L (rp_CPU p);
     memory \<leftarrow> ResourceBounds_DeepCopyInto L (rp_Memory p);
     State_Monad.return (p\<lparr>rp_CPU := cpu, rp_Memory := memory\<rparr>)
   }"

definition ResourcePolicy_DeepCopy ::
  "('q, 'ls, 'om, 'lm, 'cd, 'x) lib \<Rightarrow> addr option \<Rightarrow> ('q, 'ls, 'om, 'lm, 'cd, 'x, addr option) go" where
  "ResourcePolicy_DeepCopy L p = clone thePolicy PolicyCell (ResourcePolicy_DeepCopyInto L) p"

definition ContainerOverride_DeepCopyInto ::
  "('q, 'ls, 'om, 'lm, 'cd, 'x) lib \<Rightarrow> container_override_m \<Rightarrow> ('q, 'ls, 'om, 'lm, 'cd, 'x, container_override_m) go" where
  "ContainerOverride_DeepCopyInto L ov = do {
     cpu \<leftarrow> clone theBounds BoundsCell (ResourceBounds_DeepCopyInto L) (mOverrideCPU ov);
     memory \<leftarrow> clone theBounds BoundsCell (ResourceBounds_DeepCopyInto L) (mOverrideMemory ov);
     State_Monad.return (ov\<lparr>mOverrideCPU := cpu, mOverrideMemory := memory\<rparr>)
   }"

definition ContainerOverride_DeepCopy ::
  "('q, 'ls, 'om, 'lm, 'cd, 'x) lib \<Rightarrow> addr option \<Rightarrow> ('q, 'ls, 'om, 'lm, 'cd, 'x, addr option) go" where
  "ContainerOverride_DeepCopy L p = clone theOverride OverrideCell (ContainerOverride_DeepCopyInto L) p"

definition DynamicResourceSpec_DeepCopyInto ::
  "('q, 'ls, 'om, 'lm, 'cd, 'x) lib \<Rightarrow> 'q dr_spec_m \<Rightarrow> ('q, 'ls, 'om, 'lm, 'cd, 'x, 'q dr_spec_m) go" where
  "DynamicResourceSpec_DeepCopyInto L spec = do {
     selector \<leftarrow> clone theLabelSelector LabelSelectorCell (LabelSelector_DeepCopyInto L) (mSelector spec);
     resources \<leftarrow> ResourcePolicy_DeepCopyInto L (mResources spec);
     overrides \<leftarrow> clone theOverrides OverridesCell (State_Monad.traverse_list (ContainerOverride_DeepCopyInto L))
       (mContainerOverrides spec);
     metrics \<leftarrow> clone theMetrics MetricsCell MetricsConfig_DeepCopyInto (mMetrics spec);
     behavior \<leftarrow> clone theBehavior BehaviorCell BehaviorSpec_DeepCopyInto (mBehavior spec);
     hpa \<leftarrow> clone theHPA HPACell HPACoordination_DeepCopyInto (mHPA spec);
     State_Monad.return (spec\<lparr>mSelector := selector, mResources := resources, mContainerOverrides := overrides,
       mMetrics := metrics, mBehavior := behavior, mHPA := hpa\<rparr>)
   }"

definition DynamicResourceSpec_DeepCopy ::
  "('q, 'ls, 'om, 'lm, 'cd, 'x) lib \<Rightarrow> addr option \<Rightarrow> ('q, 'ls, 'om, 'lm, 'cd, 'x, addr option) go" where
  "DynamicResourceSpec_DeepCopy L p = clone theSpec SpecCell (DynamicResourceSpec_DeepCopyInto L) p"

section \<open>Status\<close>

definition WorkloadReference_DeepCopyInto :: "workload_reference \<Rightarrow> ('q, 'ls, 'om, 'lm, 'cd, 'x, workload_reference) go" where
  "WorkloadReference_DeepCopyInto r = State_Monad.return r"

definition WorkloadReference_DeepCopy :: "addr option \<Rightarrow> ('q, 'ls, 'om, 'lm, 'cd, 'x, addr option) go" where
  "WorkloadReference_DeepCopy p = clone theReference ReferenceCell WorkloadReference_DeepCopyInto p"

definition ContainerRecommendation_DeepCopyInto ::
  "('q, 'ls, 'om, 'lm, 'cd, 'x) lib \<Rightarrow> container_recommendation_m \<Rightarrow> ('q, 'ls, 'om, 'lm, 'cd, 'x, container_recommendation_m) go" where
  "ContainerRecommendation_DeepCopyInto L c = do {
     target \<leftarrow> clone theResourceList ResourceListCell (cloneEntries (Quantity_DeepCopy L) []) (mTarget c);
     applied \<leftarrow> clone theResourceList ResourceListCell (cloneEntries (Quantity_DeepCopy L) []) (mApplied c);
     State_Monad.return (c\<lparr>mTarget := target, mApplied := applied\<rparr>)
   }"

definition ContainerRecommendation_DeepCopy ::
  "('q, 'ls, 'om, 'lm, 'cd, 'x) lib \<Rightarrow> addr option \<Rightarrow> ('q, 'ls, 'om, 'lm, 'cd, 'x, addr option) go" where
  "ContainerRecommendation_DeepCopy L p = clone theContainerRec ContainerRecCell (ContainerRecommendation_DeepCopyInto L) p"

definition WorkloadRecommendation_DeepCopyInto ::
  "('q, 'ls, 'om, 'lm, 'cd, 'x) lib \<Rightarrow> workload_recommendation_m \<Rightarrow> ('q, 'ls, 'om, 'lm, 'cd, 'x, workload_recommendation_m) go" where
  "WorkloadRecommendation_DeepCopyInto L w = do {
     containers \<leftarrow> clone theContainerRecs ContainerRecsCell (State_Monad.traverse_list (ContainerRecommendation_DeepCopyInto L))
       (mContainers w);
     State_Monad.return (w\<lparr>mContainers := containers\<rparr>)
   }"

definition WorkloadRecommendation_DeepCopy ::
  "('q, 'ls, 'om, 'lm, 'cd, 'x) lib \<Rightarrow> addr option \<Rightarrow> ('q, 'ls, 'om, 'lm, 'cd, 'x, addr option) go" where
  "WorkloadRecommendation_DeepCopy L p = clone theWorkloadRec WorkloadRecCell (WorkloadRecommendation_DeepCopyInto L) p"

definition DynamicResourceStatus_DeepCopyInto ::
  "('q, 'ls, 'om, 'lm, 'cd, 'x) lib \<Rightarrow> dr_status_m \<Rightarrow> ('q, 'ls, 'om, 'lm, 'cd, 'x, dr_status_m) go" where
  "DynamicResourceStatus_DeepCopyInto L st = do {
     conditions \<leftarrow> clone theConditions ConditionsCell (State_Monad.traverse_list (Condition_DeepCopyInto L)) (mConditions st);
     matched \<leftarrow> clone theReferences ReferencesCell State_Monad.return (mMatchedWorkloads st);
     recs \<leftarrow> clone theWorkloadRecs WorkloadRecsCell (State_Monad.traverse_list (WorkloadRecommendation_DeepCopyInto L))
       (mRecommendations st);
     last \<leftarrow> (if mLastResizeTime st \<noteq> None then Time_DeepCopy L (mLastResizeTime st) else State_Monad.return None);
     State_Monad.return (st\<lparr>mConditions := conditions, mMatchedWorkloads := matched, mRecommendations := recs,
       mLastResizeTime := last\<rparr>)
   }"

definition DynamicResourceStatus_DeepCopy ::
  "('q, 'ls, 'om, 'lm, 'cd, 'x) lib \<Rightarrow> addr option \<Rightarrow> ('q, 'ls, 'om, 'lm, 'cd, 'x, addr option) go" where
  "DynamicResourceStatus_DeepCopy L p = clone theStatus StatusCell (DynamicResourceStatus_DeepCopyInto L) p"

section \<open>The objects\<close>

definition DynamicResource_DeepCopyInto ::
  "('q, 'ls, 'om, 'lm, 'cd, 'x) lib \<Rightarrow> ('q, 'om) dynamic_resource_m \<Rightarrow> ('q, 'ls, 'om, 'lm, 'cd, 'x, ('q, 'om) dynamic_resource_m) go" where
  "DynamicResource_DeepCopyInto L dr = do {
     meta \<leftarrow> ObjectMeta_DeepCopyInto L (mObjectMeta dr);
     spec \<leftarrow> DynamicResourceSpec_DeepCopyInto L (mSpec dr);
     status \<leftarrow> DynamicResourceStatus_DeepCopyInto L (mStatus dr);
     State_Monad.return (dr\<lparr>mObjectMeta := meta, mSpec := spec, mStatus := status\<rparr>)
   }"

definition DynamicResource_DeepCopy ::
  "('q, 'ls, 'om, 'lm, 'cd, 'x) lib \<Rightarrow> addr option \<Rightarrow> ('q, 'ls, 'om, 'lm, 'cd, 'x, addr option) go" where
  "DynamicResource_DeepCopy L p = clone theResource ResourceCell (DynamicResource_DeepCopyInto L) p"

definition DynamicResourceList_DeepCopyInto ::
  "('q, 'ls, 'om, 'lm, 'cd, 'x) lib \<Rightarrow> 'lm dynamic_resource_list_m \<Rightarrow> ('q, 'ls, 'om, 'lm, 'cd, 'x, 'lm dynamic_resource_list_m) go" where
  "DynamicResourceList_DeepCopyInto L l = do {
     meta \<leftarrow> ListMeta_DeepCopyInto L (mListMeta l);
     items \<leftarrow> clone theResources ResourcesCell (State_Monad.traverse_list (DynamicResource_DeepCopyInto L)) (mItems l);
     State_Monad.return (l\<lparr>mListMeta := meta, mItems := items\<rparr>)
   }"

definition DynamicResourceList_DeepCopy ::
  "('q, 'ls, 'om, 'lm, 'cd, 'x) lib \<Rightarrow> addr option \<Rightarrow> ('q, 'ls, 'om, 'lm, 'cd, 'x, addr option) go" where
  "DynamicResourceList_DeepCopy L p = clone theListObject ResourceListObjectCell (DynamicResourceList_DeepCopyInto L) p"

datatype runtime_object = DynamicResourceObject addr | DynamicResourceListObject addr

definition DynamicResource_DeepCopyObject ::
  "('q, 'ls, 'om, 'lm, 'cd, 'x) lib \<Rightarrow> addr option \<Rightarrow> ('q, 'ls, 'om, 'lm, 'cd, 'x, runtime_object option) go" where
  \<comment> \<open>the nil interface for a nil pointer\<close>
  "DynamicResource_DeepCopyObject L p = do {
     c \<leftarrow> DynamicResource_DeepCopy L p;
     State_Monad.return (case c of Some c \<Rightarrow> Some (DynamicResourceObject c) | None \<Rightarrow> None)
   }"

definition DynamicResourceList_DeepCopyObject ::
  "('q, 'ls, 'om, 'lm, 'cd, 'x) lib \<Rightarrow> addr option \<Rightarrow> ('q, 'ls, 'om, 'lm, 'cd, 'x, runtime_object option) go" where
  "DynamicResourceList_DeepCopyObject L p = do {
     c \<leftarrow> DynamicResourceList_DeepCopy L p;
     State_Monad.return (case c of Some c \<Rightarrow> Some (DynamicResourceListObject c) | None \<Rightarrow> None)
   }"

end
