(* ===== verification/DeepCopyProps.thy ===== *)
theory DeepCopyProps
  imports DeepCopy
begin

text \<open>
  What the objects in memory mean, as values of \<open>Api\<close>, and that every generated deep copy is a \<open>copier\<close>:
  the copy means the same and is made of new cells.
\<close>

section \<open>Spec\<close>

interpretation bool_ptr: copier "pointee theBool (\<lambda>_ b. b)" "pointer_inside theBool (\<lambda>_ _ _ _. True)"
    "clone theBool BoolCell State_Monad.return"
  by (rule copier.clone_copier [OF copier_flat]) simp

interpretation duration_ptr: copier "pointee theDuration (\<lambda>_ d. d)" "pointer_inside theDuration (\<lambda>_ _ _ _. True)"
    "clone theDuration DurationCell State_Monad.return"
  by (rule copier.clone_copier [OF copier_flat]) simp

definition scaling_policy_view :: "('q, 'ls, 'om, 'lm, 'cd, 'x) gomem \<Rightarrow> scaling_policy_m \<Rightarrow> scaling_policy" where
  "scaling_policy_view h p =
     \<lparr>StabilizationWindow = pointee theDuration (\<lambda>_ d. d) h (mStabilizationWindow p), MaxStepPercent = mMaxStepPercent p,
      Cooldown = pointee theDuration (\<lambda>_ d. d) h (mCooldown p)\<rparr>"

definition scaling_policy_inside :: "('q, 'ls, 'om, 'lm, 'cd, 'x) gomem \<Rightarrow> addr \<Rightarrow> addr \<Rightarrow> scaling_policy_m \<Rightarrow> bool" where
  "scaling_policy_inside h lo hi p \<longleftrightarrow> pointer_inside theDuration (\<lambda>_ _ _ _. True) h lo hi (mStabilizationWindow p)
     \<and> pointer_inside theDuration (\<lambda>_ _ _ _. True) h lo hi (mCooldown p)"

interpretation scaling_policy: copier scaling_policy_view scaling_policy_inside ScalingPolicy_DeepCopyInto
  by (rule struct_copier [OF both_copier [OF duration_ptr.copier_axioms duration_ptr.copier_axioms],
        where get = "\<lambda>p. (mStabilizationWindow p, mCooldown p)"
          and put = "\<lambda>p t. p\<lparr>mStabilizationWindow := fst t, mCooldown := snd t\<rparr>"
          and mk = "\<lambda>p w. \<lparr>StabilizationWindow = fst w, MaxStepPercent = mMaxStepPercent p, Cooldown = snd w\<rparr>"])
    (auto simp: struct_defs scaling_policy_view_def scaling_policy_inside_def ScalingPolicy_DeepCopyInto_def)

interpretation scaling_policy_ptr: copier "pointee theScalingPolicy scaling_policy_view"
    "pointer_inside theScalingPolicy scaling_policy_inside" "clone theScalingPolicy ScalingPolicyCell ScalingPolicy_DeepCopyInto"
  by (rule scaling_policy.clone_copier) simp

definition behavior_view :: "('q, 'ls, 'om, 'lm, 'cd, 'x) gomem \<Rightarrow> behavior_spec_m \<Rightarrow> behavior_spec" where
  "behavior_view h b = \<lparr>ScaleUp = pointee theScalingPolicy scaling_policy_view h (mScaleUp b),
     ScaleDown = pointee theScalingPolicy scaling_policy_view h (mScaleDown b)\<rparr>"

definition behavior_inside :: "('q, 'ls, 'om, 'lm, 'cd, 'x) gomem \<Rightarrow> addr \<Rightarrow> addr \<Rightarrow> behavior_spec_m \<Rightarrow> bool" where
  "behavior_inside h lo hi b \<longleftrightarrow> pointer_inside theScalingPolicy scaling_policy_inside h lo hi (mScaleUp b)
     \<and> pointer_inside theScalingPolicy scaling_policy_inside h lo hi (mScaleDown b)"

interpretation behavior: copier behavior_view behavior_inside BehaviorSpec_DeepCopyInto
  by (rule struct_copier [OF both_copier [OF scaling_policy_ptr.copier_axioms scaling_policy_ptr.copier_axioms],
        where get = "\<lambda>b. (mScaleUp b, mScaleDown b)" and put = "\<lambda>b t. b\<lparr>mScaleUp := fst t, mScaleDown := snd t\<rparr>"
          and mk = "\<lambda>_ w. \<lparr>ScaleUp = fst w, ScaleDown = snd w\<rparr>"])
    (auto simp: struct_defs behavior_view_def behavior_inside_def BehaviorSpec_DeepCopyInto_def)

interpretation behavior_ptr: copier "pointee theBehavior behavior_view" "pointer_inside theBehavior behavior_inside"
    "clone theBehavior BehaviorCell BehaviorSpec_DeepCopyInto"
  by (rule behavior.clone_copier) simp

definition metrics_view :: "('q, 'ls, 'om, 'lm, 'cd, 'x) gomem \<Rightarrow> metrics_config_m \<Rightarrow> metrics_config" where
  "metrics_view h m = \<lparr>Provider = mProvider m, PollingInterval = pointee theDuration (\<lambda>_ d. d) h (mPollingInterval m),
     CPUPercentile = mCPUPercentile m, MemoryPercentile = mMemoryPercentile m, PrometheusURL = mPrometheusURL m\<rparr>"

definition metrics_inside :: "('q, 'ls, 'om, 'lm, 'cd, 'x) gomem \<Rightarrow> addr \<Rightarrow> addr \<Rightarrow> metrics_config_m \<Rightarrow> bool" where
  "metrics_inside h lo hi m \<longleftrightarrow> pointer_inside theDuration (\<lambda>_ _ _ _. True) h lo hi (mPollingInterval m)"

interpretation metrics: copier metrics_view metrics_inside MetricsConfig_DeepCopyInto
  by (rule struct_copier [OF duration_ptr.copier_axioms, where get = mPollingInterval and put = "\<lambda>m t. m\<lparr>mPollingInterval := t\<rparr>"
          and mk = "\<lambda>m w. \<lparr>Provider = mProvider m, PollingInterval = w, CPUPercentile = mCPUPercentile m,
            MemoryPercentile = mMemoryPercentile m, PrometheusURL = mPrometheusURL m\<rparr>"])
    (auto simp: metrics_view_def metrics_inside_def MetricsConfig_DeepCopyInto_def)

interpretation metrics_ptr: copier "pointee theMetrics metrics_view" "pointer_inside theMetrics metrics_inside"
    "clone theMetrics MetricsCell MetricsConfig_DeepCopyInto"
  by (rule metrics.clone_copier) simp

definition hpa_view :: "('q, 'ls, 'om, 'lm, 'cd, 'x) gomem \<Rightarrow> hpa_coordination_m \<Rightarrow> hpa_coordination" where
  "hpa_view h c = \<lparr>hc_Mode = mHPAMode c, ReserveHeadroomPercent = mReserveHeadroomPercent c,
     PauseWhileHPAScaling = pointee theBool (\<lambda>_ b. b) h (mPauseWhileHPAScaling c),
     CooldownAfterHPA = pointee theDuration (\<lambda>_ d. d) h (mCooldownAfterHPA c)\<rparr>"

definition hpa_inside :: "('q, 'ls, 'om, 'lm, 'cd, 'x) gomem \<Rightarrow> addr \<Rightarrow> addr \<Rightarrow> hpa_coordination_m \<Rightarrow> bool" where
  "hpa_inside h lo hi c \<longleftrightarrow> pointer_inside theBool (\<lambda>_ _ _ _. True) h lo hi (mPauseWhileHPAScaling c)
     \<and> pointer_inside theDuration (\<lambda>_ _ _ _. True) h lo hi (mCooldownAfterHPA c)"

interpretation hpa: copier hpa_view hpa_inside HPACoordination_DeepCopyInto
  by (rule struct_copier [OF both_copier [OF bool_ptr.copier_axioms duration_ptr.copier_axioms],
        where get = "\<lambda>c. (mPauseWhileHPAScaling c, mCooldownAfterHPA c)"
          and put = "\<lambda>c t. c\<lparr>mPauseWhileHPAScaling := fst t, mCooldownAfterHPA := snd t\<rparr>"
          and mk = "\<lambda>c w. \<lparr>hc_Mode = mHPAMode c, ReserveHeadroomPercent = mReserveHeadroomPercent c,
            PauseWhileHPAScaling = fst w, CooldownAfterHPA = snd w\<rparr>"])
    (auto simp: struct_defs hpa_view_def hpa_inside_def HPACoordination_DeepCopyInto_def)

interpretation hpa_ptr: copier "pointee theHPA hpa_view" "pointer_inside theHPA hpa_inside"
    "clone theHPA HPACell HPACoordination_DeepCopyInto"
  by (rule hpa.clone_copier) simp

definition references_view :: "('q, 'ls, 'om, 'lm, 'cd, 'x) gomem \<Rightarrow> addr option \<Rightarrow> workload_reference list" where
  "references_view h p = (case pointee theReferences (\<lambda>_ rs. rs) h p of None \<Rightarrow> [] | Some rs \<Rightarrow> rs)"

interpretation references: copier references_view "pointer_inside theReferences (\<lambda>_ _ _ _. True)"
    "clone theReferences ReferencesCell State_Monad.return"
  unfolding references_view_def [abs_def] by (rule copier.map_copier [OF copier.clone_copier [OF copier_flat]]) simp

section \<open>The libraries\<close>

record ('q, 'ls, 'om, 'lm, 'cd, 'x, 'qv, 'lsv, 'omv, 'lmv) lib_view =
  \<comment> \<open>what the objects of the libraries mean, and where their parts lie\<close>
  quantity_view :: "('q, 'ls, 'om, 'lm, 'cd, 'x) gomem \<Rightarrow> 'q \<Rightarrow> 'qv"
  quantity_inside :: "('q, 'ls, 'om, 'lm, 'cd, 'x) gomem \<Rightarrow> addr \<Rightarrow> addr \<Rightarrow> 'q \<Rightarrow> bool"
  selector_view :: "('q, 'ls, 'om, 'lm, 'cd, 'x) gomem \<Rightarrow> 'ls \<Rightarrow> 'lsv"
  selector_inside :: "('q, 'ls, 'om, 'lm, 'cd, 'x) gomem \<Rightarrow> addr \<Rightarrow> addr \<Rightarrow> 'ls \<Rightarrow> bool"
  meta_view :: "('q, 'ls, 'om, 'lm, 'cd, 'x) gomem \<Rightarrow> 'om \<Rightarrow> 'omv"
  meta_inside :: "('q, 'ls, 'om, 'lm, 'cd, 'x) gomem \<Rightarrow> addr \<Rightarrow> addr \<Rightarrow> 'om \<Rightarrow> bool"
  list_meta_view :: "('q, 'ls, 'om, 'lm, 'cd, 'x) gomem \<Rightarrow> 'lm \<Rightarrow> 'lmv"
  list_meta_inside :: "('q, 'ls, 'om, 'lm, 'cd, 'x) gomem \<Rightarrow> addr \<Rightarrow> addr \<Rightarrow> 'lm \<Rightarrow> bool"
  condition_view :: "('q, 'ls, 'om, 'lm, 'cd, 'x) gomem \<Rightarrow> 'cd \<Rightarrow> condition"
  condition_inside :: "('q, 'ls, 'om, 'lm, 'cd, 'x) gomem \<Rightarrow> addr \<Rightarrow> addr \<Rightarrow> 'cd \<Rightarrow> bool"

locale library =
  fixes L :: "('q, 'ls, 'om, 'lm, 'cd, 'x) lib" and V :: "('q, 'ls, 'om, 'lm, 'cd, 'x, 'qv, 'lsv, 'omv, 'lmv) lib_view"
  assumes quantity_copier: "copier (quantity_view V) (quantity_inside V) (Quantity_DeepCopy L)"
    and selector_copier: "copier (selector_view V) (selector_inside V) (LabelSelector_DeepCopyInto L)"
    and meta_copier: "copier (meta_view V) (meta_inside V) (ObjectMeta_DeepCopyInto L)"
    and list_meta_copier: "copier (list_meta_view V) (list_meta_inside V) (ListMeta_DeepCopyInto L)"
    and condition_copier: "copier (condition_view V) (condition_inside V) (Condition_DeepCopyInto L)"
    and time_copier: "copier (pointee theTime (\<lambda>_ t. t)) (pointer_inside theTime (\<lambda>_ _ _ _. True)) (Time_DeepCopy L)"

definition bounds_view ::
  "('q, 'ls, 'om, 'lm, 'cd, 'x, 'qv, 'lsv, 'omv, 'lmv) lib_view \<Rightarrow> ('q, 'ls, 'om, 'lm, 'cd, 'x) gomem \<Rightarrow> 'q resource_bounds \<Rightarrow> 'qv resource_bounds" where
  "bounds_view V h x = \<lparr>Min = quantity_view V h (Min x), Max = quantity_view V h (Max x)\<rparr>"

definition bounds_inside ::
  "('q, 'ls, 'om, 'lm, 'cd, 'x, 'qv, 'lsv, 'omv, 'lmv) lib_view \<Rightarrow> ('q, 'ls, 'om, 'lm, 'cd, 'x) gomem \<Rightarrow> addr \<Rightarrow> addr \<Rightarrow> 'q resource_bounds \<Rightarrow> bool" where
  "bounds_inside V h lo hi x \<longleftrightarrow> quantity_inside V h lo hi (Min x) \<and> quantity_inside V h lo hi (Max x)"

definition policy_view ::
  "('q, 'ls, 'om, 'lm, 'cd, 'x, 'qv, 'lsv, 'omv, 'lmv) lib_view \<Rightarrow> ('q, 'ls, 'om, 'lm, 'cd, 'x) gomem \<Rightarrow> 'q resource_policy \<Rightarrow> 'qv resource_policy" where
  "policy_view V h x = \<lparr>rp_CPU = bounds_view V h (rp_CPU x), rp_Memory = bounds_view V h (rp_Memory x),
     ControlledValues = ControlledValues x\<rparr>"

definition policy_inside ::
  "('q, 'ls, 'om, 'lm, 'cd, 'x, 'qv, 'lsv, 'omv, 'lmv) lib_view \<Rightarrow> ('q, 'ls, 'om, 'lm, 'cd, 'x) gomem \<Rightarrow> addr \<Rightarrow> addr \<Rightarrow> 'q resource_policy \<Rightarrow> bool" where
  "policy_inside V h lo hi x \<longleftrightarrow> bounds_inside V h lo hi (rp_CPU x) \<and> bounds_inside V h lo hi (rp_Memory x)"

definition override_view ::
  "('q, 'ls, 'om, 'lm, 'cd, 'x, 'qv, 'lsv, 'omv, 'lmv) lib_view \<Rightarrow> ('q, 'ls, 'om, 'lm, 'cd, 'x) gomem \<Rightarrow> container_override_m \<Rightarrow> 'qv container_override" where
  "override_view V h x = \<lparr>co_ContainerName = mOverrideName x, co_Mode = mOverrideMode x,
     co_CPU = pointee theBounds (bounds_view V) h (mOverrideCPU x), co_Memory = pointee theBounds (bounds_view V) h (mOverrideMemory x)\<rparr>"

definition override_inside ::
  "('q, 'ls, 'om, 'lm, 'cd, 'x, 'qv, 'lsv, 'omv, 'lmv) lib_view \<Rightarrow> ('q, 'ls, 'om, 'lm, 'cd, 'x) gomem \<Rightarrow> addr \<Rightarrow> addr \<Rightarrow> container_override_m \<Rightarrow> bool" where
  "override_inside V h lo hi x \<longleftrightarrow> pointer_inside theBounds (bounds_inside V) h lo hi (mOverrideCPU x)
     \<and> pointer_inside theBounds (bounds_inside V) h lo hi (mOverrideMemory x)"

definition spec_view ::
  "('q, 'ls, 'om, 'lm, 'cd, 'x, 'qv, 'lsv, 'omv, 'lmv) lib_view \<Rightarrow> ('q, 'ls, 'om, 'lm, 'cd, 'x) gomem \<Rightarrow> 'q dr_spec_m \<Rightarrow> ('qv, 'lsv option) dr_spec" where
  "spec_view V h x = \<lparr>Selector = pointee theLabelSelector (selector_view V) h (mSelector x), UpdateMode = mUpdateMode x,
     Resources = policy_view V h (mResources x), ContainerOverrides = elements theOverrides (override_view V) h (mContainerOverrides x),
     MetricsCfg = pointee theMetrics metrics_view h (mMetrics x), Behavior = pointee theBehavior behavior_view h (mBehavior x),
     HPA = pointee theHPA hpa_view h (mHPA x)\<rparr>"

definition spec_inside ::
  "('q, 'ls, 'om, 'lm, 'cd, 'x, 'qv, 'lsv, 'omv, 'lmv) lib_view \<Rightarrow> ('q, 'ls, 'om, 'lm, 'cd, 'x) gomem \<Rightarrow> addr \<Rightarrow> addr \<Rightarrow> 'q dr_spec_m \<Rightarrow> bool" where
  "spec_inside V h lo hi x \<longleftrightarrow> pointer_inside theLabelSelector (selector_inside V) h lo hi (mSelector x)
     \<and> policy_inside V h lo hi (mResources x) \<and> elements_inside theOverrides (override_inside V) h lo hi (mContainerOverrides x)
     \<and> pointer_inside theMetrics metrics_inside h lo hi (mMetrics x) \<and> pointer_inside theBehavior behavior_inside h lo hi (mBehavior x)
     \<and> pointer_inside theHPA hpa_inside h lo hi (mHPA x)"

definition container_rec_view ::
  "('q, 'ls, 'om, 'lm, 'cd, 'x, 'qv, 'lsv, 'omv, 'lmv) lib_view \<Rightarrow> ('q, 'ls, 'om, 'lm, 'cd, 'x) gomem \<Rightarrow> container_recommendation_m \<Rightarrow> 'qv container_recommendation" where
  "container_rec_view V h x = \<lparr>ContainerName = mContainerName x, Target = table theResourceList (quantity_view V) h (mTarget x),
     Applied = table theResourceList (quantity_view V) h (mApplied x)\<rparr>"

definition container_rec_inside ::
  "('q, 'ls, 'om, 'lm, 'cd, 'x, 'qv, 'lsv, 'omv, 'lmv) lib_view \<Rightarrow> ('q, 'ls, 'om, 'lm, 'cd, 'x) gomem \<Rightarrow> addr \<Rightarrow> addr \<Rightarrow> container_recommendation_m \<Rightarrow> bool" where
  "container_rec_inside V h lo hi x \<longleftrightarrow> table_inside theResourceList (quantity_inside V) h lo hi (mTarget x)
     \<and> table_inside theResourceList (quantity_inside V) h lo hi (mApplied x)"

definition workload_rec_view ::
  "('q, 'ls, 'om, 'lm, 'cd, 'x, 'qv, 'lsv, 'omv, 'lmv) lib_view \<Rightarrow> ('q, 'ls, 'om, 'lm, 'cd, 'x) gomem \<Rightarrow> workload_recommendation_m \<Rightarrow> 'qv workload_recommendation" where
  "workload_rec_view V h x = \<lparr>Workload = mWorkload x, Containers = elements theContainerRecs (container_rec_view V) h (mContainers x)\<rparr>"

definition workload_rec_inside ::
  "('q, 'ls, 'om, 'lm, 'cd, 'x, 'qv, 'lsv, 'omv, 'lmv) lib_view \<Rightarrow> ('q, 'ls, 'om, 'lm, 'cd, 'x) gomem \<Rightarrow> addr \<Rightarrow> addr \<Rightarrow> workload_recommendation_m \<Rightarrow> bool" where
  "workload_rec_inside V h lo hi x \<longleftrightarrow> elements_inside theContainerRecs (container_rec_inside V) h lo hi (mContainers x)"

definition status_view ::
  "('q, 'ls, 'om, 'lm, 'cd, 'x, 'qv, 'lsv, 'omv, 'lmv) lib_view \<Rightarrow> ('q, 'ls, 'om, 'lm, 'cd, 'x) gomem \<Rightarrow> dr_status_m \<Rightarrow> 'qv dr_status" where
  "status_view V h x = \<lparr>Conditions = elements theConditions (condition_view V) h (mConditions x), MatchedWorkloads = references_view h (mMatchedWorkloads x),
     Recommendations = elements theWorkloadRecs (workload_rec_view V) h (mRecommendations x),
     LastResizeTime = pointee theTime (\<lambda>_ t. t) h (mLastResizeTime x), HPAState = mHPAState x, ObservedGeneration = mObservedGeneration x\<rparr>"

definition status_inside ::
  "('q, 'ls, 'om, 'lm, 'cd, 'x, 'qv, 'lsv, 'omv, 'lmv) lib_view \<Rightarrow> ('q, 'ls, 'om, 'lm, 'cd, 'x) gomem \<Rightarrow> addr \<Rightarrow> addr \<Rightarrow> dr_status_m \<Rightarrow> bool" where
  "status_inside V h lo hi x \<longleftrightarrow> elements_inside theConditions (condition_inside V) h lo hi (mConditions x)
     \<and> pointer_inside theReferences (\<lambda>_ _ _ _. True) h lo hi (mMatchedWorkloads x)
     \<and> elements_inside theWorkloadRecs (workload_rec_inside V) h lo hi (mRecommendations x)
     \<and> pointer_inside theTime (\<lambda>_ _ _ _. True) h lo hi (mLastResizeTime x)"

record ('qv, 'lsv, 'omv) object =
  \<comment> \<open>what a DynamicResource in memory means\<close>
  o_TypeMeta :: type_meta
  o_Meta :: 'omv
  o_Spec :: "('qv, 'lsv option) dr_spec"
  o_Status :: "'qv dr_status"

definition resource_view ::
  "('q, 'ls, 'om, 'lm, 'cd, 'x, 'qv, 'lsv, 'omv, 'lmv) lib_view \<Rightarrow> ('q, 'ls, 'om, 'lm, 'cd, 'x) gomem \<Rightarrow> ('q, 'om) dynamic_resource_m \<Rightarrow> ('qv, 'lsv, 'omv) object" where
  "resource_view V h x = \<lparr>o_TypeMeta = mTypeMeta x, o_Meta = meta_view V h (mObjectMeta x), o_Spec = spec_view V h (mSpec x),
     o_Status = status_view V h (mStatus x)\<rparr>"

definition resource_inside ::
  "('q, 'ls, 'om, 'lm, 'cd, 'x, 'qv, 'lsv, 'omv, 'lmv) lib_view \<Rightarrow> ('q, 'ls, 'om, 'lm, 'cd, 'x) gomem \<Rightarrow> addr \<Rightarrow> addr \<Rightarrow> ('q, 'om) dynamic_resource_m \<Rightarrow> bool" where
  "resource_inside V h lo hi x \<longleftrightarrow> meta_inside V h lo hi (mObjectMeta x) \<and> spec_inside V h lo hi (mSpec x) \<and> status_inside V h lo hi (mStatus x)"

definition resource_list_view ::
  "('q, 'ls, 'om, 'lm, 'cd, 'x, 'qv, 'lsv, 'omv, 'lmv) lib_view \<Rightarrow> ('q, 'ls, 'om, 'lm, 'cd, 'x) gomem \<Rightarrow> 'lm dynamic_resource_list_m \<Rightarrow> type_meta \<times> 'lmv \<times> ('qv, 'lsv, 'omv) object list" where
  "resource_list_view V h x = (mListTypeMeta x, list_meta_view V h (mListMeta x), elements theResources (resource_view V) h (mItems x))"

definition resource_list_inside ::
  "('q, 'ls, 'om, 'lm, 'cd, 'x, 'qv, 'lsv, 'omv, 'lmv) lib_view \<Rightarrow> ('q, 'ls, 'om, 'lm, 'cd, 'x) gomem \<Rightarrow> addr \<Rightarrow> addr \<Rightarrow> 'lm dynamic_resource_list_m \<Rightarrow> bool" where
  "resource_list_inside V h lo hi x \<longleftrightarrow> list_meta_inside V h lo hi (mListMeta x) \<and> elements_inside theResources (resource_inside V) h lo hi (mItems x)"

section \<open>The library hands its contract on\<close>

sublocale library \<subseteq> quantity: copier "quantity_view V" "quantity_inside V" "Quantity_DeepCopy L"
  by (rule quantity_copier)

sublocale library \<subseteq> quantities: copier "table theResourceList (quantity_view V)" "table_inside theResourceList (quantity_inside V)"
    "clone theResourceList ResourceListCell (cloneEntries (Quantity_DeepCopy L) [])"
  by (rule quantity.table_copier) simp

sublocale library \<subseteq> selector_ptr: copier "pointee theLabelSelector (selector_view V)" "pointer_inside theLabelSelector (selector_inside V)"
    "clone theLabelSelector LabelSelectorCell (LabelSelector_DeepCopyInto L)"
  by (rule copier.clone_copier [OF selector_copier]) simp

sublocale library \<subseteq> conditions: copier "elements theConditions (condition_view V)" "elements_inside theConditions (condition_inside V)"
    "clone theConditions ConditionsCell (State_Monad.traverse_list (Condition_DeepCopyInto L))"
  by (rule copier.slice_copier [OF condition_copier]) simp

sublocale library \<subseteq> bounds: copier "bounds_view V" "bounds_inside V" "ResourceBounds_DeepCopyInto L"
  by (rule struct_copier [OF both_copier [OF quantity.copier_axioms quantity.copier_axioms],
        where get = "\<lambda>b. (Min b, Max b)" and put = "\<lambda>b t. b\<lparr>Min := fst t, Max := snd t\<rparr>"
          and mk = "\<lambda>_ w. \<lparr>Min = fst w, Max = snd w\<rparr>"])
    (auto simp: struct_defs bounds_view_def bounds_inside_def ResourceBounds_DeepCopyInto_def)

sublocale library \<subseteq> bounds_ptr: copier "pointee theBounds (bounds_view V)" "pointer_inside theBounds (bounds_inside V)"
    "clone theBounds BoundsCell (ResourceBounds_DeepCopyInto L)"
  by (rule bounds.clone_copier) simp

sublocale library \<subseteq> policy: copier "policy_view V" "policy_inside V" "ResourcePolicy_DeepCopyInto L"
  by (rule struct_copier [OF both_copier [OF bounds.copier_axioms bounds.copier_axioms],
        where get = "\<lambda>p. (rp_CPU p, rp_Memory p)" and put = "\<lambda>p t. p\<lparr>rp_CPU := fst t, rp_Memory := snd t\<rparr>"
          and mk = "\<lambda>p w. \<lparr>rp_CPU = fst w, rp_Memory = snd w, ControlledValues = ControlledValues p\<rparr>"])
    (auto simp: struct_defs policy_view_def policy_inside_def ResourcePolicy_DeepCopyInto_def)

sublocale library \<subseteq> override: copier "override_view V" "override_inside V" "ContainerOverride_DeepCopyInto L"
  by (rule struct_copier [OF both_copier [OF bounds_ptr.copier_axioms bounds_ptr.copier_axioms],
        where get = "\<lambda>p. (mOverrideCPU p, mOverrideMemory p)" and put = "\<lambda>p t. p\<lparr>mOverrideCPU := fst t, mOverrideMemory := snd t\<rparr>"
          and mk = "\<lambda>p w. \<lparr>co_ContainerName = mOverrideName p, co_Mode = mOverrideMode p, co_CPU = fst w, co_Memory = snd w\<rparr>"])
    (auto simp: struct_defs override_view_def override_inside_def ContainerOverride_DeepCopyInto_def)

sublocale library \<subseteq> overrides: copier "elements theOverrides (override_view V)" "elements_inside theOverrides (override_inside V)"
    "clone theOverrides OverridesCell (State_Monad.traverse_list (ContainerOverride_DeepCopyInto L))"
  by (rule override.slice_copier) simp

sublocale library \<subseteq> spec: copier "spec_view V" "spec_inside V" "DynamicResourceSpec_DeepCopyInto L"
  by (rule struct_copier [OF both_copier [OF selector_ptr.copier_axioms both_copier [OF policy.copier_axioms both_copier [OF overrides.copier_axioms both_copier [OF metrics_ptr.copier_axioms both_copier [OF behavior_ptr.copier_axioms hpa_ptr.copier_axioms]]]]],
        where get = "\<lambda>s. (mSelector s, mResources s, mContainerOverrides s, mMetrics s, mBehavior s, mHPA s)" and put = "\<lambda>s t. case t of (a, b, c, d, e, f) \<Rightarrow> s\<lparr>mSelector := a, mResources := b, mContainerOverrides := c,
            mMetrics := d, mBehavior := e, mHPA := f\<rparr>"
          and mk = "\<lambda>s w. case w of (a, b, c, d, e, f) \<Rightarrow> \<lparr>Selector = a, UpdateMode = mUpdateMode s, Resources = b, ContainerOverrides = c,
            MetricsCfg = d, Behavior = e, HPA = f\<rparr>"])
    (auto simp: struct_defs spec_view_def spec_inside_def DynamicResourceSpec_DeepCopyInto_def)

sublocale library \<subseteq> container_rec: copier "container_rec_view V" "container_rec_inside V" "ContainerRecommendation_DeepCopyInto L"
  by (rule struct_copier [OF both_copier [OF quantities.copier_axioms quantities.copier_axioms],
        where get = "\<lambda>c. (mTarget c, mApplied c)" and put = "\<lambda>c t. c\<lparr>mTarget := fst t, mApplied := snd t\<rparr>"
          and mk = "\<lambda>c w. \<lparr>ContainerName = mContainerName c, Target = fst w, Applied = snd w\<rparr>"])
    (auto simp: struct_defs container_rec_view_def container_rec_inside_def ContainerRecommendation_DeepCopyInto_def)

sublocale library \<subseteq> container_recs: copier "elements theContainerRecs (container_rec_view V)" "elements_inside theContainerRecs (container_rec_inside V)"
    "clone theContainerRecs ContainerRecsCell (State_Monad.traverse_list (ContainerRecommendation_DeepCopyInto L))"
  by (rule container_rec.slice_copier) simp

sublocale library \<subseteq> workload_rec: copier "workload_rec_view V" "workload_rec_inside V" "WorkloadRecommendation_DeepCopyInto L"
  by (rule struct_copier [OF container_recs.copier_axioms,
        where get = "mContainers" and put = "\<lambda>w t. w\<lparr>mContainers := t\<rparr>"
          and mk = "\<lambda>x w. \<lparr>Workload = mWorkload x, Containers = w\<rparr>"])
    (auto simp: struct_defs workload_rec_view_def workload_rec_inside_def WorkloadRecommendation_DeepCopyInto_def)

sublocale library \<subseteq> workload_recs: copier "elements theWorkloadRecs (workload_rec_view V)" "elements_inside theWorkloadRecs (workload_rec_inside V)"
    "clone theWorkloadRecs WorkloadRecsCell (State_Monad.traverse_list (WorkloadRecommendation_DeepCopyInto L))"
  by (rule workload_rec.slice_copier) simp

sublocale library \<subseteq> last_time: copier "pointee theTime (\<lambda>_ t. t)" "pointer_inside theTime (\<lambda>_ _ _ _. True)"
    "\<lambda>p. if p \<noteq> None then Time_DeepCopy L p else State_Monad.return None"
proof (rule copier.intro [OF copier.axioms(1) [OF time_copier]])
  show "copier_axioms (pointee theTime (\<lambda>_ t. t)) (pointer_inside theTime (\<lambda>_ _ _ _. True))
      (\<lambda>p. if p \<noteq> None then Time_DeepCopy L p else State_Monad.return None)"
  proof
    fix h h' :: "('q, 'ls, 'om, 'lm, 'cd, 'x) gomem" and p p'
    assume i: "pointer_inside theTime (\<lambda>_ _ _ _. True) h 0 (free h) p"
      and r: "run_state (if p \<noteq> None then Time_DeepCopy L p else State_Monad.return None) h = (p', h')"
    show "grown h h' \<and> pointer_inside theTime (\<lambda>_ _ _ _. True) h' (free h) (free h') p'
        \<and> pointee theTime (\<lambda>_ t. t) h' p' = pointee theTime (\<lambda>_ t. t) h p"
    proof (cases p)
      case None
      then show ?thesis using r by (auto simp: pointee_def pointer_inside_def)
    next
      case (Some a)
      then show ?thesis using copier.copies [OF time_copier i, of p' h'] r by simp
    qed
  qed
qed

sublocale library \<subseteq> status: copier "status_view V" "status_inside V" "DynamicResourceStatus_DeepCopyInto L"
  by (rule struct_copier [OF both_copier [OF conditions.copier_axioms both_copier [OF references.copier_axioms both_copier [OF workload_recs.copier_axioms last_time.copier_axioms]]],
        where get = "\<lambda>s. (mConditions s, mMatchedWorkloads s, mRecommendations s, mLastResizeTime s)" and put = "\<lambda>s t. case t of (a, b, c, d) \<Rightarrow> s\<lparr>mConditions := a, mMatchedWorkloads := b, mRecommendations := c, mLastResizeTime := d\<rparr>"
          and mk = "\<lambda>s w. case w of (a, b, c, d) \<Rightarrow> \<lparr>Conditions = a, MatchedWorkloads = b, Recommendations = c, LastResizeTime = d,
            HPAState = mHPAState s, ObservedGeneration = mObservedGeneration s\<rparr>"])
    (auto simp: struct_defs status_view_def status_inside_def DynamicResourceStatus_DeepCopyInto_def)

sublocale library \<subseteq> meta: copier "meta_view V" "meta_inside V" "ObjectMeta_DeepCopyInto L"
  by (rule meta_copier)

sublocale library \<subseteq> list_meta: copier "list_meta_view V" "list_meta_inside V" "ListMeta_DeepCopyInto L"
  by (rule list_meta_copier)

sublocale library \<subseteq> resource: copier "resource_view V" "resource_inside V" "DynamicResource_DeepCopyInto L"
  by (rule struct_copier [OF both_copier [OF meta.copier_axioms both_copier [OF spec.copier_axioms status.copier_axioms]],
        where get = "\<lambda>r. (mObjectMeta r, mSpec r, mStatus r)" and put = "\<lambda>r t. case t of (a, b, c) \<Rightarrow> r\<lparr>mObjectMeta := a, mSpec := b, mStatus := c\<rparr>"
          and mk = "\<lambda>r w. case w of (a, b, c) \<Rightarrow> \<lparr>o_TypeMeta = mTypeMeta r, o_Meta = a, o_Spec = b, o_Status = c\<rparr>"])
    (auto simp: struct_defs resource_view_def resource_inside_def DynamicResource_DeepCopyInto_def)

sublocale library \<subseteq> resource_ptr: copier "pointee theResource (resource_view V)" "pointer_inside theResource (resource_inside V)"
    "clone theResource ResourceCell (DynamicResource_DeepCopyInto L)"
  by (rule resource.clone_copier) simp

sublocale library \<subseteq> resources: copier "elements theResources (resource_view V)" "elements_inside theResources (resource_inside V)"
    "clone theResources ResourcesCell (State_Monad.traverse_list (DynamicResource_DeepCopyInto L))"
  by (rule resource.slice_copier) simp

sublocale library \<subseteq> resource_list: copier "resource_list_view V" "resource_list_inside V" "DynamicResourceList_DeepCopyInto L"
  by (rule struct_copier [OF both_copier [OF list_meta.copier_axioms resources.copier_axioms],
        where get = "\<lambda>l. (mListMeta l, mItems l)" and put = "\<lambda>l t. l\<lparr>mListMeta := fst t, mItems := snd t\<rparr>"
          and mk = "\<lambda>l w. (mListTypeMeta l, fst w, snd w)"])
    (auto simp: struct_defs resource_list_view_def resource_list_inside_def DynamicResourceList_DeepCopyInto_def)

sublocale library \<subseteq> resource_list_ptr: copier "pointee theListObject (resource_list_view V)" "pointer_inside theListObject (resource_list_inside V)"
    "clone theListObject ResourceListObjectCell (DynamicResourceList_DeepCopyInto L)"
  by (rule resource_list.clone_copier) simp

context library
begin

lemma resource_copier:
  "copier (pointee theResource (resource_view V)) (pointer_inside theResource (resource_inside V)) (DynamicResource_DeepCopy L)"
  using resource_ptr.copier_axioms by (simp add: DynamicResource_DeepCopy_def [abs_def])

lemma resource_list_copier:
  "copier (pointee theListObject (resource_list_view V)) (pointer_inside theListObject (resource_list_inside V))
     (DynamicResourceList_DeepCopy L)"
  using resource_list_ptr.copier_axioms by (simp add: DynamicResourceList_DeepCopy_def [abs_def])

end

end
