(* ===== verification/DeepCopyTheorems.thy ===== *)
theory DeepCopyTheorems
  imports DeepCopyProps
begin

text \<open>
  What the callers of \<open>DeepCopy\<close> rely on, and an instance of the library contract with objects that hold
  references of their own.
\<close>

section \<open>An instance of the libraries\<close>

text \<open>A quantity is a value, a label selector is a reference to its labels, the metadata of an object holds its
  namespace, its name and a reference to its labels.\<close>

type_synonym ex_object = "(string \<times> string) list"
type_synonym ex_meta = "(string \<times> string) \<times> addr option"
type_synonym ex_gomem = "(exact_q, addr option, ex_meta, string, condition \<times> time, ex_object) gomem"
type_synonym 'a ex_go = "(exact_q, addr option, ex_meta, string, condition \<times> time, ex_object, 'a) go"

definition ex_ref_copy :: "addr option \<Rightarrow> addr option ex_go" where
  "ex_ref_copy = clone theLibrary LibraryCell State_Monad.return"

definition ex_tagged_copy :: "'a \<times> addr option \<Rightarrow> ('a \<times> addr option) ex_go" where
  "ex_tagged_copy = copyBoth State_Monad.return ex_ref_copy"

definition ex_ref_view :: "ex_gomem \<Rightarrow> addr option \<Rightarrow> ex_object option" where
  "ex_ref_view = pointee theLibrary (\<lambda>_ x. x)"

definition ex_ref_inside :: "ex_gomem \<Rightarrow> addr \<Rightarrow> addr \<Rightarrow> addr option \<Rightarrow> bool" where
  "ex_ref_inside = pointer_inside theLibrary (\<lambda>_ _ _ _. True)"

definition ex_tagged_view :: "ex_gomem \<Rightarrow> 'a \<times> addr option \<Rightarrow> 'a \<times> ex_object option" where
  "ex_tagged_view = both_view (\<lambda>_ a. a) ex_ref_view"

definition ex_tagged_inside :: "ex_gomem \<Rightarrow> addr \<Rightarrow> addr \<Rightarrow> 'a \<times> addr option \<Rightarrow> bool" where
  "ex_tagged_inside = both_inside (\<lambda>_ _ _ _. True) ex_ref_inside"

definition ex_lib :: "(exact_q, addr option, ex_meta, string, condition \<times> time, ex_object) lib" where
  "ex_lib = \<lparr>Quantity_DeepCopy = State_Monad.return, LabelSelector_DeepCopyInto = ex_ref_copy, ObjectMeta_DeepCopyInto = ex_tagged_copy,
     ListMeta_DeepCopyInto = State_Monad.return, Condition_DeepCopyInto = State_Monad.return,
     Time_DeepCopy = clone theTime TimeCell State_Monad.return\<rparr>"

definition ex_lib_view ::
  "(exact_q, addr option, ex_meta, string, condition \<times> time, ex_object, exact_q, ex_object option,
    (string \<times> string) \<times> ex_object option, string) lib_view" where
  "ex_lib_view = \<lparr>quantity_view = (\<lambda>_ q. q), quantity_inside = (\<lambda>_ _ _ _. True), selector_view = ex_ref_view,
     selector_inside = ex_ref_inside, meta_view = ex_tagged_view, meta_inside = ex_tagged_inside,
     list_meta_view = (\<lambda>_ m. m), list_meta_inside = (\<lambda>_ _ _ _. True), condition_view = (\<lambda>_ c. fst c),
     condition_inside = (\<lambda>_ _ _ _. True)\<rparr>"

interpretation ex_ref: copier ex_ref_view ex_ref_inside ex_ref_copy
  unfolding ex_ref_view_def ex_ref_inside_def ex_ref_copy_def by (rule copier.clone_copier [OF copier_flat]) simp

interpretation ex_tagged: copier ex_tagged_view ex_tagged_inside ex_tagged_copy
  unfolding ex_tagged_view_def ex_tagged_inside_def ex_tagged_copy_def by (rule both_copier [OF copier_flat ex_ref.copier_axioms])

interpretation ex_time: copier "pointee theTime (\<lambda>_ t. t)" "pointer_inside theTime (\<lambda>_ _ _ _. True)"
    "clone theTime TimeCell State_Monad.return"
  by (rule copier.clone_copier [OF copier_flat]) simp

interpretation ex_library: library ex_lib ex_lib_view
  by (rule library.intro)
    (simp_all add: ex_lib_def ex_lib_view_def copier_flat ex_ref.copier_axioms ex_tagged.copier_axioms ex_time.copier_axioms)

section \<open>An object in memory\<close>

definition ex_cells :: "(exact_q, addr option, ex_meta, string, condition \<times> time, ex_object) gocell list" where
  "ex_cells =
     [ResourceCell \<lparr>mTypeMeta = \<lparr>Kind = ''DynamicResource'', APIVersion = ''v1alpha1''\<rparr>, mObjectMeta = ((''prod'', ''web''), Some 8),
        mSpec = \<lparr>mSelector = Some 1, mUpdateMode = UpdateModeInPlaceOnly,
          mResources = \<lparr>rp_CPU = \<lparr>Min = mq 10, Max = mq 4000\<rparr>, rp_Memory = \<lparr>Min = bq 67108864, Max = bq 4294967296\<rparr>,
            ControlledValues = ControlledValuesUnset\<rparr>,
          mContainerOverrides = Some 3, mMetrics = None, mBehavior = None, mHPA = None\<rparr>,
        mStatus = \<lparr>mConditions = Some 10, mMatchedWorkloads = Some 11, mRecommendations = Some 5, mLastResizeTime = Some 9,
          mHPAState = HPAStateIdle, mObservedGeneration = 1\<rparr>\<rparr>,
      LabelSelectorCell (Some 2), LibraryCell [(''app'', ''web'')],
      OverridesCell [\<lparr>mOverrideName = ''app'', mOverrideMode = ContainerModeAuto, mOverrideCPU = Some 4, mOverrideMemory = None\<rparr>],
      BoundsCell \<lparr>Min = mq 20, Max = mq 2000\<rparr>,
      WorkloadRecsCell [\<lparr>mWorkload = ''web'', mContainers = Some 6\<rparr>],
      ContainerRecsCell [\<lparr>mContainerName = ''app'', mTarget = Some 7, mApplied = None\<rparr>],
      ResourceListCell [(ResourceCPU, mq 200), (ResourceMemory, bq 67108864)],
      LibraryCell [(''team'', ''shop'')], TimeCell 100,
      ConditionsCell [(\<lparr>cond_Type = ConditionReady, cond_Status = ConditionTrue, cond_Reason = ''Reconciled'',
        cond_Message = ''managing 1 workload(s)'', cond_Generation = 1\<rparr>, 90)],
      ReferencesCell [\<lparr>wr_Kind = ''Deployment'', wr_Name = ''web''\<rparr>]]"

definition ex_mem :: ex_gomem where
  "ex_mem = \<lparr>cell = (\<lambda>a. if a < length ex_cells then ex_cells ! a else BoolCell False), free = length ex_cells\<rparr>"

lemmas ex_memory = ex_mem_def ex_cells_def ex_lib_view_def ex_tagged_view_def ex_tagged_inside_def ex_ref_view_def ex_ref_inside_def

lemma ex_allocated: "pointer_inside theResource (resource_inside ex_lib_view) ex_mem 0 (free ex_mem) (Some 0)"
  by (simp add: ex_memory pointer_inside_def resource_inside_def spec_inside_def status_inside_def policy_inside_def bounds_inside_def
    override_inside_def workload_rec_inside_def container_rec_inside_def elements_inside_def table_inside_def entries_inside_def
    both_inside_def)

section \<open>Properties\<close>

text \<open>C24. A deep copy is equal and isolated: \<open>DeepCopy\<close> of a DynamicResource returns a new object that means the same as
  the original, whatever is written later to the cells the copy is made of leaves the original as it was,
  and whatever is written to the cells that were there before, or allocated after, leaves the copy as it
  was. The library types are assumed to copy in the same way.\<close>

theorem deep_copy_isolated:
  assumes "library L V" and p: "pointer_inside theResource (resource_inside V) h 0 (free h) (Some p)"
    and r: "run_state (DynamicResource_DeepCopy L (Some p)) h = (r, h')"
  shows "\<exists>q. r = Some q \<and> q \<noteq> p
    \<and> resource_view V h' (theResource (cell h' q)) = resource_view V h (theResource (cell h p))
    \<and> (\<forall>h''. agree 0 (free h) h' h'' \<longrightarrow> resource_view V h'' (theResource (cell h'' p)) = resource_view V h (theResource (cell h p)))
    \<and> (\<forall>h''. agree (free h) (free h') h' h'' \<longrightarrow> resource_view V h'' (theResource (cell h'' q)) = resource_view V h (theResource (cell h p)))"
proof -
  note copier = library.resource_copier [OF assms(1)]
  note iso = copier.isolated [OF copier p r]
  obtain q where q: "r = Some q" using iso(1) by (auto simp: pointee_def)
  have "pointer_inside theResource (resource_inside V) h' (free h) (free h') r"
    using copier.copies [OF copier p r] by blast
  then have "q \<noteq> p" using p by (auto simp: q pointer_inside_def)
  then show ?thesis using iso by (simp add: q pointee_def)
qed

definition ex_wiped :: ex_gomem where
  \<comment> \<open>after the copy, everything that was there before is overwritten\<close>
  "ex_wiped = (let h = snd (run_state (DynamicResource_DeepCopy ex_lib (Some 0)) ex_mem)
     in h\<lparr>cell := \<lambda>a. if a < length ex_cells then BoolCell True else cell h a\<rparr>)"

theorem deep_copy_isolated_witness:
  "\<exists>q. fst (run_state (DynamicResource_DeepCopy ex_lib (Some 0)) ex_mem) = Some q
     \<and> resource_view ex_lib_view ex_wiped (theResource (cell ex_wiped q)) = resource_view ex_lib_view ex_mem (theResource (cell ex_mem 0))"
proof -
  obtain r h' where r: "run_state (DynamicResource_DeepCopy ex_lib (Some 0)) ex_mem = (r, h')" by fastforce
  have "agree (free ex_mem) (free h') h' ex_wiped" by (simp add: agree_def ex_wiped_def r Let_def ex_mem_def [THEN arg_cong, of free])
  then show ?thesis
    using deep_copy_isolated [OF ex_library.library_axioms ex_allocated r] unfolding r by auto
qed

end
