(* ===== verification/InPlace.thy ===== *)
theory InPlace
  imports DeepCopyTheorems Actuation
begin

text \<open>
  What \<open>controller/actuation.go\<close> writes in place. \<open>coordinateHPA\<close> raises floors through the resource lists
  that \<open>targets\<close> shares with the status, and \<open>markApplied\<close> makes \<open>Applied\<close> share the list of \<open>Target\<close>.
  \<open>Actuation\<close> models both on values (\<open>writeBack\<close>, \<open>markApplied\<close>); here they run on the memory, and are
  shown to do the same as long as the recommendations own their lists, as decoded and freshly computed
  ones do. Writing to a nil map panics, which is \<open>None\<close>. A quantity is a value.
\<close>

section \<open>In place\<close>

definition readList :: "('q, 'ls, 'om, 'lm, 'cd, 'x) gomem \<Rightarrow> addr option \<Rightarrow> 'q rlist" where
  "readList h p = (case p of None \<Rightarrow> [] | Some a \<Rightarrow> theResourceList (cell h a))"

definition setEntry :: "addr option \<Rightarrow> string \<Rightarrow> 'q \<Rightarrow> ('q, 'ls, 'om, 'lm, 'cd, 'x) gomem \<Rightarrow> ('q, 'ls, 'om, 'lm, 'cd, 'x) gomem option" where
  "setEntry p k v h =
     (case p of
        None \<Rightarrow> None
      | Some a \<Rightarrow> Some (h\<lparr>cell := (cell h)(a := ResourceListCell (AList.update k v (theResourceList (cell h a))))\<rparr>))"

definition floorInPlace ::
  "'q quantity_api \<Rightarrow> i32 \<times> i32 \<Rightarrow> i32 \<Rightarrow> usage_snapshot option \<Rightarrow> addr option \<Rightarrow> ('q, 'ls, 'om, 'lm, 'cd, 'x) gomem
   \<Rightarrow> ('q, 'ls, 'om, 'lm, 'cd, 'x) gomem option" where
  "floorInPlace Q utilization headroom u target h =
     (case u of
        None \<Rightarrow> Some h
      | Some u \<Rightarrow>
          let (cpuTarget, memTarget) = utilization;
              floor = RequestFloor (us_CPUMilli u) cpuTarget headroom
          in case (if 0 < floor \<and> q_milli Q (map_zero (q_zero Q) (readList h target) ResourceCPU) < floor
                   then setEntry target ResourceCPU (q_newMilli Q floor DecimalSI) h else Some h) of
               None \<Rightarrow> None
             | Some h \<Rightarrow>
                 let floor = RequestFloor (us_MemBytes u) memTarget headroom
                 in if 0 < floor \<and> q_value Q (map_zero (q_zero Q) (readList h target) ResourceMemory) < floor
                    then setEntry target ResourceMemory (q_new Q floor BinarySI) h else Some h)"

fun floorLoop ::
  "'q quantity_api \<Rightarrow> ('q, 'l) dr_spec \<Rightarrow> i32 \<times> i32 \<Rightarrow> i32 \<Rightarrow> (string, usage_snapshot) gomap \<Rightarrow> (string, addr option) gomap
   \<Rightarrow> bool \<Rightarrow> ('q, 'ls, 'om, 'lm, 'cd, 'x) gomem \<Rightarrow> (bool \<times> ('q, 'ls, 'om, 'lm, 'cd, 'x) gomem) option" where
  \<comment> \<open>the loop over \<open>targets\<close>, with \<open>atMax\<close>\<close>
  "floorLoop Q spec utilization headroom usage [] atMax h = Some (atMax, h)"
| "floorLoop Q spec utilization headroom usage ((name, target) # targets) atMax h =
     (case floorInPlace Q utilization headroom (map_of usage name) target h of
        None \<Rightarrow> None
      | Some h \<Rightarrow> floorLoop Q spec utilization headroom usage targets
          (atMax \<and> pinnedAtMax Q spec name (readList h target)) h)"

definition coordinateInPlace ::
  "'q quantity_api \<Rightarrow> ('q, 'l) dr_spec \<Rightarrow> hpa list go_result \<Rightarrow> string \<Rightarrow> (string, addr option) gomap
   \<Rightarrow> (string, usage_snapshot) gomap \<Rightarrow> time \<Rightarrow> ('q, 'ls, 'om, 'lm, 'cd, 'x) gomem
   \<Rightarrow> (hpa_state \<times> ('q, 'ls, 'om, 'lm, 'cd, 'x) gomem) go_result option" where
  "coordinateInPlace Q spec hpas workload targets usage now h =
     (if (case HPA spec of Some c \<Rightarrow> hc_Mode c = HPAModeIgnore | None \<Rightarrow> False) then Some (Inr (HPAStateIdle, h))
      else case FindHPA hpas workload of
             Inl err \<Rightarrow> Some (Inl err)
           | Inr None \<Rightarrow> Some (Inr (HPAStateIdle, h))
           | Inr (Some hpa) \<Rightarrow>
               let s = hpaSettings (HPA spec)
               in if hs_pause s \<and> IsScaling (Some hpa) (hs_settle s) now then Some (Inr (HPAStateScaling, h))
                  else map_option (\<lambda>(atMax, h). Inr (if atMax then HPAStateAtMaxVertical else HPAStateIdle, h))
                    (floorLoop Q spec (TargetUtilization (Some hpa)) (hs_headroom s) usage targets (targets \<noteq> []) h))"

definition sharedTargets :: "container_recommendation_m list \<Rightarrow> (string, addr option) gomap" where
  \<comment> \<open>\<open>targets[c.ContainerName] = c.Target\<close>: the entry is the reference\<close>
  "sharedTargets cs = foldl (\<lambda>targets c. AList.update (mContainerName c) (mTarget c) targets) [] cs"

definition containersOf :: "('q, 'ls, 'om, 'lm, 'cd, 'x) gomem \<Rightarrow> workload_recommendation_m \<Rightarrow> container_recommendation_m list" where
  "containersOf h w = (case mContainers w of None \<Rightarrow> [] | Some a \<Rightarrow> theContainerRecs (cell h a))"

fun markAppliedInPlace ::
  "(string, nat) gomap \<Rightarrow> workload_recommendation_m list \<Rightarrow> ('q, 'ls, 'om, 'lm, 'cd, 'x) gomem \<Rightarrow> ('q, 'ls, 'om, 'lm, 'cd, 'x) gomem" where
  "markAppliedInPlace byWorkload [] h = h"
| "markAppliedInPlace byWorkload (w # ws) h =
     markAppliedInPlace byWorkload ws
       (if map_of byWorkload (mWorkload w) = None then h
        else case mContainers w of
               None \<Rightarrow> h
             | Some a \<Rightarrow> h\<lparr>cell := (cell h)(a := ContainerRecsCell
                 (map (\<lambda>c. c\<lparr>mApplied := mTarget c\<rparr>) (theContainerRecs (cell h a))))\<rparr>)"

section \<open>What the recommendations mean, and whose their lists are\<close>

definition containerRec :: "('q, 'ls, 'om, 'lm, 'cd, 'x) gomem \<Rightarrow> container_recommendation_m \<Rightarrow> 'q container_recommendation" where
  "containerRec h c = \<lparr>ContainerName = mContainerName c, Target = readList h (mTarget c), Applied = readList h (mApplied c)\<rparr>"

definition workloadRec :: "('q, 'ls, 'om, 'lm, 'cd, 'x) gomem \<Rightarrow> workload_recommendation_m \<Rightarrow> 'q workload_recommendation" where
  "workloadRec h w = \<lparr>Workload = mWorkload w, Containers = map (containerRec h) (containersOf h w)\<rparr>"

definition isList :: "('q, 'ls, 'om, 'lm, 'cd, 'x) gomem \<Rightarrow> addr \<Rightarrow> bool" where
  "isList h a \<longleftrightarrow> (case cell h a of ResourceListCell _ \<Rightarrow> True | _ \<Rightarrow> False)"

definition isContainers :: "('q, 'ls, 'om, 'lm, 'cd, 'x) gomem \<Rightarrow> addr \<Rightarrow> bool" where
  "isContainers h a \<longleftrightarrow> (case cell h a of ContainerRecsCell _ \<Rightarrow> True | _ \<Rightarrow> False)"

definition allContainers :: "('q, 'ls, 'om, 'lm, 'cd, 'x) gomem \<Rightarrow> workload_recommendation_m list \<Rightarrow> container_recommendation_m list" where
  "allContainers h ws = concat (map (containersOf h) ws)"

definition owned :: "('q, 'ls, 'om, 'lm, 'cd, 'x) gomem \<Rightarrow> workload_recommendation_m list \<Rightarrow> bool" where
  \<comment> \<open>every container has a target, and no two references of the recommendations are to the same object\<close>
  "owned h ws \<longleftrightarrow>
     (\<forall>w \<in> set ws. \<exists>a. mContainers w = Some a \<and> isContainers h a) \<and> distinct (map mContainers ws)
     \<and> (\<forall>c \<in> set (allContainers h ws). (\<exists>a. mTarget c = Some a \<and> isList h a)
          \<and> (\<forall>a. mApplied c = Some a \<longrightarrow> isList h a \<and> Some a \<notin> mTarget ` set (allContainers h ws)))
     \<and> distinct (map mTarget (allContainers h ws))"

lemma isList_iff: "isList h a \<longleftrightarrow> (\<exists>m. cell h a = ResourceListCell m)"
  by (simp add: isList_def split: gocell.split)

lemma isContainers_iff: "isContainers h a \<longleftrightarrow> (\<exists>m. cell h a = ContainerRecsCell m)"
  by (simp add: isContainers_def split: gocell.split)

lemma containerRec_name [simp]: "ContainerName (containerRec h c) = mContainerName c"
  by (simp add: containerRec_def)

section \<open>The loop\<close>

lemma floorInPlace_floorTarget:
  "isList h a \<Longrightarrow> floorInPlace Q utilization headroom u (Some a) h =
     Some (h\<lparr>cell := (cell h)(a := ResourceListCell (floorTarget Q utilization headroom u (readList h (Some a))))\<rparr>)"
  by (auto simp: isList_iff floorInPlace_def floorTarget_def setEntry_def readList_def Let_def fun_upd_idem split: option.split prod.split)

definition floored ::
  "(string \<Rightarrow> 'q rlist \<Rightarrow> 'q rlist) \<Rightarrow> (string, addr option) gomap \<Rightarrow> ('q, 'ls, 'om, 'lm, 'cd, 'x) gomem
   \<Rightarrow> ('q, 'ls, 'om, 'lm, 'cd, 'x) gomem \<Rightarrow> bool" where
  \<comment> \<open>the lists of \<open>targets\<close>, and no other cell, changed by \<open>F\<close>\<close>
  "floored F targets h h' \<longleftrightarrow> free h' = free h
     \<and> (\<forall>(name, p) \<in> set targets. \<forall>a. p = Some a \<longrightarrow> cell h' a = ResourceListCell (F name (readList h p)))
     \<and> (\<forall>a. Some a \<notin> snd ` set targets \<longrightarrow> cell h' a = cell h a)"

lemma floorLoop_floored:
  assumes "\<forall>p \<in> snd ` set targets. \<exists>a. p = Some a \<and> isList h a" "distinct (map snd targets)"
  shows "\<exists>h'. floorLoop Q spec utilization headroom usage targets atMax h =
      Some (atMax \<and> list_all (\<lambda>(name, m). pinnedAtMax Q spec name m)
        (map (\<lambda>(name, p). (name, floorTarget Q utilization headroom (map_of usage name) (readList h p))) targets), h')
    \<and> floored (\<lambda>name. floorTarget Q utilization headroom (map_of usage name)) targets h h'"
  using assms
proof (induction targets arbitrary: h atMax)
  case Nil
  then show ?case by (simp add: floored_def)
next
  case (Cons t targets)
  let ?F = "\<lambda>name. floorTarget Q utilization headroom (map_of usage name)"
  obtain name a where t: "t = (name, Some a)" "isList h a" using Cons.prems(1) by (cases t) auto
  let ?h1 = "h\<lparr>cell := (cell h)(a := ResourceListCell (?F name (readList h (Some a))))\<rparr>"
  have others: "readList ?h1 p = readList h p" if "p \<in> snd ` set targets" for p
  proof -
    have "p \<noteq> Some a" using that Cons.prems(2) t(1) by force
    then show ?thesis by (auto simp: readList_def split: option.split)
  qed
  have "\<forall>p \<in> snd ` set targets. \<exists>b. p = Some b \<and> isList ?h1 b"
    using Cons.prems by (fastforce simp: isList_iff)
  from Cons.IH [OF this, of "atMax \<and> pinnedAtMax Q spec name (readList ?h1 (Some a))"] Cons.prems(2)
  obtain h' where h': "floorLoop Q spec utilization headroom usage targets (atMax \<and> pinnedAtMax Q spec name (readList ?h1 (Some a))) ?h1 =
      Some ((atMax \<and> pinnedAtMax Q spec name (readList ?h1 (Some a))) \<and> list_all (\<lambda>(name, m). pinnedAtMax Q spec name m)
        (map (\<lambda>(name, p). (name, ?F name (readList ?h1 p))) targets), h')" "floored ?F targets ?h1 h'"
    by auto
  have e: "map (\<lambda>(name, p). (name, ?F name (readList ?h1 p))) targets = map (\<lambda>(name, p). (name, ?F name (readList h p))) targets"
    by (rule map_cong [OF refl]) (use others in force)
  have self: "readList ?h1 (Some a) = ?F name (readList h (Some a))" by (simp add: readList_def)
  have "floorLoop Q spec utilization headroom usage (t # targets) atMax h =
      floorLoop Q spec utilization headroom usage targets (atMax \<and> pinnedAtMax Q spec name (readList ?h1 (Some a))) ?h1"
    by (simp add: t(1) floorInPlace_floorTarget [OF t(2)])
  moreover have "floored ?F (t # targets) h h'"
    using h'(2) others Cons.prems(2) unfolding t(1) floored_def by (fastforce simp: readList_def)
  ultimately show ?case using h'(1) unfolding e self by (intro exI [of _ h']) (simp add: t(1))
qed

section \<open>The shared targets\<close>

lemma sharedTargets_snoc: "sharedTargets (cs @ [c]) = AList.update (mContainerName c) (mTarget c) (sharedTargets cs)"
  by (simp add: sharedTargets_def)

lemma sharedTargets_wf [simp]: "gomap_wf (sharedTargets cs)"
  by (induction cs rule: rev_induct) (simp_all add: sharedTargets_snoc, simp add: sharedTargets_def)

lemma sharedTargets_of:
  "map_of (sharedTargets cs) name = Some p \<longleftrightarrow>
     (\<exists>pre c post. cs = pre @ c # post \<and> mContainerName c = name \<and> mTarget c = p \<and> name \<notin> mContainerName ` set post)"
proof (induction cs rule: rev_induct)
  case Nil
  then show ?case by (simp add: sharedTargets_def)
next
  case (snoc x cs)
  show ?case
  proof (cases "mContainerName x = name")
    case True
    then have "(\<exists>pre c post. cs @ [x] = pre @ c # post \<and> mContainerName c = name \<and> mTarget c = p \<and> name \<notin> mContainerName ` set post)
        \<longleftrightarrow> mTarget x = p" (is "?l \<longleftrightarrow> _")
    proof (intro iffI)
      assume ?l
      then obtain pre c post where s: "cs @ [x] = pre @ c # post" "mTarget c = p" "name \<notin> mContainerName ` set post" by blast
      have "post = []" using s(1,3) True by (cases post rule: rev_cases) auto
      then show "mTarget x = p" using s(1,2) by simp
    qed fastforce
    then show ?thesis using True by (simp add: sharedTargets_snoc map_of_update)
  next
    case False
    have "(\<exists>pre c post. cs @ [x] = pre @ c # post \<and> mContainerName c = name \<and> mTarget c = p \<and> name \<notin> mContainerName ` set post)
        \<longleftrightarrow> (\<exists>pre c post. cs = pre @ c # post \<and> mContainerName c = name \<and> mTarget c = p \<and> name \<notin> mContainerName ` set post)"
      (is "?l \<longleftrightarrow> ?r")
    proof
      assume ?l
      then obtain pre c post where s: "cs @ [x] = pre @ c # post" "mContainerName c = name" "mTarget c = p" "name \<notin> mContainerName ` set post"
        by blast
      then obtain post' where "post = post' @ [x]" using False by (cases post rule: rev_cases) auto
      then show ?r using s by auto
    next
      assume ?r
      then obtain pre c post where s: "cs = pre @ c # post" "mContainerName c = name" "mTarget c = p" "name \<notin> mContainerName ` set post"
        by blast
      then have "cs @ [x] = pre @ c # (post @ [x])" "name \<notin> mContainerName ` set (post @ [x])" using False by auto
      then show ?l using s by blast
    qed
    then show ?thesis using snoc False by (simp add: sharedTargets_snoc map_of_update)
  qed
qed

lemma update_values: "AList.update k (f v) (map (\<lambda>(k, v). (k, f v)) m) = map (\<lambda>(k, v). (k, f v)) (AList.update k v m)"
  by (induction m) auto

lemma workloadTargets_shared:
  "workloadTargets (map (containerRec h) cs) = map (\<lambda>(name, p). (name, readList h p)) (sharedTargets cs)"
proof (induction cs rule: rev_induct)
  case Nil
  then show ?case by (simp add: workloadTargets_def sharedTargets_def)
next
  case (snoc c cs)
  have "workloadTargets (map (containerRec h) (cs @ [c])) =
      AList.update (mContainerName c) (readList h (mTarget c)) (workloadTargets (map (containerRec h) cs))"
    by (simp add: workloadTargets_def containerRec_def)
  then show ?case using snoc update_values by (simp add: sharedTargets_snoc)
qed

lemma sharedTargets_set: "snd ` set (sharedTargets cs) \<subseteq> mTarget ` set cs"
proof
  fix p
  assume "p \<in> snd ` set (sharedTargets cs)"
  then obtain name where "map_of (sharedTargets cs) name = Some p" by auto
  then show "p \<in> mTarget ` set cs" unfolding sharedTargets_of by auto
qed

lemma update_values_set: "snd ` set (AList.update k v m) \<subseteq> insert v (snd ` set m)"
  by (induction m) auto

lemma distinct_values_update: "distinct (map snd m) \<Longrightarrow> v \<notin> snd ` set m \<Longrightarrow> distinct (map snd (AList.update k v m))"
proof (induction m)
  case (Cons x m)
  obtain k' v' where x: "x = (k', v')" by fastforce
  show ?case
  proof (cases "k' = k")
    case False
    have "v' \<notin> snd ` set (AList.update k v m)" using update_values_set [of k v m] Cons.prems x by auto
    then show ?thesis using Cons False by (simp add: x)
  qed (use Cons.prems x in simp)
qed simp

lemma map_of_two:
  "map_of (map (\<lambda>(name, m). (name, F name m)) (map (\<lambda>(name, p). (name, G p)) m)) name = map_option (\<lambda>p. F name (G p)) (map_of m name)"
  by (induction m) auto

lemma sharedTargets_distinct: "distinct (map mTarget cs) \<Longrightarrow> distinct (map snd (sharedTargets cs))"
proof (induction cs rule: rev_induct)
  case Nil
  then show ?case by (simp add: sharedTargets_def)
next
  case (snoc c cs)
  have "distinct (map snd (sharedTargets cs))" "mTarget c \<notin> snd ` set (sharedTargets cs)"
    using snoc sharedTargets_set [of cs] by auto
  then show ?case by (simp add: sharedTargets_snoc distinct_values_update)
qed

section \<open>Writing through the targets\<close>

lemma floored_containers:
  assumes fl: "floored F (sharedTargets all) h h'" and d: "distinct (map mTarget all)"
    and lists: "\<forall>c \<in> set all. (\<exists>a. mTarget c = Some a) \<and> (mApplied c = None \<or> mApplied c \<notin> mTarget ` set all)"
    and all: "all = pre @ cs"
  shows "map (containerRec h') cs =
    writeBack (map (\<lambda>(name, m). (name, F name m)) (workloadTargets (map (containerRec h) all))) (map (containerRec h) cs)"
  using all
proof (induction cs arbitrary: pre)
  case (Cons c cs)
  let ?T = "map (\<lambda>(name, m). (name, F name m)) (workloadTargets (map (containerRec h) all))"
  obtain a where a: "mTarget c = Some a" using lists Cons.prems by auto
  have applied: "readList h' (mApplied c) = readList h (mApplied c)"
  proof (cases "mApplied c")
    case (Some b)
    then have "Some b \<notin> snd ` set (sharedTargets all)" using lists Cons.prems sharedTargets_set by fastforce
    then show ?thesis using fl by (simp add: Some readList_def floored_def)
  qed (simp add: readList_def)
  have T: "map_of ?T name = map_option (\<lambda>p. F name (readList h p)) (map_of (sharedTargets all) name)" for name
    unfolding workloadTargets_shared by (rule map_of_two)
  have "containerRec h' c = (if mContainerName c \<in> mContainerName ` set cs then containerRec h c
      else (containerRec h c)\<lparr>Target := map_zero (Target (containerRec h c)) ?T (mContainerName c)\<rparr>)"
  proof (cases "mContainerName c \<in> mContainerName ` set cs")
    case True
    have "Some a \<notin> snd ` set (sharedTargets all)"
    proof
      assume "Some a \<in> snd ` set (sharedTargets all)"
      then obtain name where "map_of (sharedTargets all) name = Some (Some a)" by auto
      then obtain pre' c' post where s: "all = pre' @ c' # post" "mContainerName c' = name" "mTarget c' = Some a"
        "name \<notin> mContainerName ` set post" unfolding sharedTargets_of by blast
      have "length pre' = length pre"
      proof -
        have "map mTarget all ! length pre' = Some a" using s(1,3) by (simp add: nth_append)
        moreover have "map mTarget all ! length pre = Some a" using a by (simp add: nth_append Cons.prems)
        moreover have "length pre' < length all" by (simp add: s(1))
        moreover have "length pre < length all" by (simp add: Cons.prems)
        ultimately show ?thesis
          using nth_eq_iff_index_eq [OF d, unfolded length_map, of "length pre'" "length pre"] by simp
      qed
      then have "c' = c" "post = cs" using s(1) Cons.prems by auto
      then show False using True s(2,4) by blast
    qed
    then have "readList h' (mTarget c) = readList h (mTarget c)" using fl by (simp add: a readList_def floored_def)
    then show ?thesis using True applied by (simp add: containerRec_def)
  next
    case False
    then have m: "map_of (sharedTargets all) (mContainerName c) = Some (Some a)"
      unfolding sharedTargets_of using Cons.prems a by blast
    have "cell h' a = ResourceListCell (F (mContainerName c) (readList h (Some a)))"
      using fl map_of_SomeD [OF m] unfolding floored_def by fastforce
    then have "readList h' (mTarget c) = F (mContainerName c) (readList h (mTarget c))" by (simp add: a readList_def)
    then show ?thesis using False applied m by (simp add: containerRec_def T a)
  qed
  moreover have "map (containerRec h') cs = writeBack ?T (map (containerRec h) cs)"
    by (rule Cons.IH [of "pre @ [c]"]) (simp add: Cons.prems)
  ultimately show ?case by (simp add: image_image)
qed simp

section \<open>The recommendations of a status\<close>

lemma owned_containers:
  assumes "owned h ws" "w \<in> set ws"
  shows "distinct (map mTarget (containersOf h w))"
    "\<forall>c \<in> set (containersOf h w). (\<exists>a. mTarget c = Some a \<and> isList h a)
       \<and> (mApplied c = None \<or> mApplied c \<notin> mTarget ` set (allContainers h ws))"
proof -
  obtain xs ys where ws: "ws = xs @ w # ys" using assms(2) by (meson split_list)
  then show "distinct (map mTarget (containersOf h w))" using assms(1) by (simp add: owned_def allContainers_def)
  have "set (containersOf h w) \<subseteq> set (allContainers h ws)" using assms(2) by (auto simp: allContainers_def)
  show "\<forall>c \<in> set (containersOf h w). (\<exists>a. mTarget c = Some a \<and> isList h a)
       \<and> (mApplied c = None \<or> mApplied c \<notin> mTarget ` set (allContainers h ws))"
  proof
    fix c
    assume "c \<in> set (containersOf h w)"
    then have "c \<in> set (allContainers h ws)" using \<open>set (containersOf h w) \<subseteq> set (allContainers h ws)\<close> by blast
    then show "(\<exists>a. mTarget c = Some a \<and> isList h a) \<and> (mApplied c = None \<or> mApplied c \<notin> mTarget ` set (allContainers h ws))"
      using assms(1) unfolding owned_def by (cases "mApplied c") (blast, metis)
  qed
qed

lemma owned_sharedTargets:
  assumes "owned h ws" "w \<in> set ws"
  shows "\<forall>p \<in> snd ` set (sharedTargets (containersOf h w)). \<exists>a. p = Some a \<and> isList h a"
    "distinct (map snd (sharedTargets (containersOf h w)))"
proof -
  note own = owned_containers [OF assms]
  show "\<forall>p \<in> snd ` set (sharedTargets (containersOf h w)). \<exists>a. p = Some a \<and> isList h a"
  proof
    fix p
    assume "p \<in> snd ` set (sharedTargets (containersOf h w))"
    then obtain c where "c \<in> set (containersOf h w)" "p = mTarget c" using sharedTargets_set by blast
    then show "\<exists>a. p = Some a \<and> isList h a" using own(2) by blast
  qed
  show "distinct (map snd (sharedTargets (containersOf h w)))" by (rule sharedTargets_distinct [OF own(1)])
qed

lemma floored_owned:
  assumes "owned h ws" "w \<in> set ws" and fl: "floored F (sharedTargets (containersOf h w)) h h'"
  shows "\<And>a. isList h a \<Longrightarrow> isList h' a" "\<And>w'. w' \<in> set ws \<Longrightarrow> containersOf h' w' = containersOf h w'" "owned h' ws"
proof -
  note sh = owned_sharedTargets [OF assms(1,2)]
  show l: "isList h' a" if "isList h a" for a
  proof (cases "Some a \<in> snd ` set (sharedTargets (containersOf h w))")
    case True
    then show ?thesis using fl unfolding floored_def isList_iff by fastforce
  next
    case False
    then show ?thesis using fl that by (simp add: floored_def isList_iff)
  qed
  have arr: "cell h' a = cell h a" if "isContainers h a" for a
  proof -
    have "\<not> isList h a" using that by (auto simp: isContainers_iff isList_iff)
    then have "Some a \<notin> snd ` set (sharedTargets (containersOf h w))" using sh(1) by blast
    then show ?thesis using fl by (simp add: floored_def)
  qed
  show c: "containersOf h' w' = containersOf h w'" if "w' \<in> set ws" for w'
    using assms(1) that arr unfolding owned_def containersOf_def by (fastforce split: option.split)
  have e: "allContainers h' ws = allContainers h ws"
    unfolding allContainers_def by (rule arg_cong [of _ _ concat], rule map_cong [OF refl c])
  have k: "isContainers h' a" if "isContainers h a" for a using arr [OF that] that by (simp add: isContainers_def)
  show "owned h' ws" using assms(1) unfolding owned_def e by (intro conjI ballI; blast intro: l k)
qed

lemma floored_other:
  assumes "owned h ws" "ws = xs @ w # ys" and fl: "floored F (sharedTargets (containersOf h w)) h h'"
    and w': "w' \<in> set xs \<union> set ys"
  shows "workloadRec h' w' = workloadRec h w'"
proof -
  have ws: "w \<in> set ws" "w' \<in> set ws" using assms(2) w' by auto
  have dis: "mTarget ` set (containersOf h w) \<inter> mTarget ` set (containersOf h w') = {}"
  proof -
    have "distinct (map mTarget (concat (map (containersOf h) xs)) @ map mTarget (containersOf h w)
        @ map mTarget (concat (map (containersOf h) ys)))"
      using assms(1,2) by (simp only: owned_def allContainers_def map_append concat_append list.map concat.simps)
    then have "mTarget ` set (containersOf h w) \<inter> (mTarget ` set (concat (map (containersOf h) xs))
        \<union> mTarget ` set (concat (map (containersOf h) ys))) = {}"
      unfolding distinct_append set_append set_map by blast
    moreover have "set (containersOf h w') \<subseteq> set (concat (map (containersOf h) xs)) \<union> set (concat (map (containersOf h) ys))"
      using w' by auto
    ultimately show ?thesis by blast
  qed
  have "readList h' p = readList h p" if "p \<notin> mTarget ` set (containersOf h w)" for p
  proof (cases p)
    case (Some a)
    then have "Some a \<notin> snd ` set (sharedTargets (containersOf h w))" using that sharedTargets_set by blast
    then show ?thesis using fl by (simp add: readList_def floored_def Some)
  qed (simp add: readList_def)
  moreover have "mTarget c \<notin> mTarget ` set (containersOf h w)" "mApplied c \<notin> mTarget ` set (containersOf h w)"
    if "c \<in> set (containersOf h w')" for c
  proof -
    show "mTarget c \<notin> mTarget ` set (containersOf h w)" using dis that by blast
    have "mTarget ` set (containersOf h w) \<subseteq> mTarget ` set (allContainers h ws)" using ws(1) by (auto simp: allContainers_def)
    then show "mApplied c \<notin> mTarget ` set (containersOf h w)"
    proof (cases "mApplied c")
      case None
      have "None \<notin> mTarget ` set (containersOf h w)" using owned_containers(2) [OF assms(1) ws(1)] by fastforce
      then show ?thesis by (simp add: None)
    next
      case (Some b)
      then have "mApplied c \<notin> mTarget ` set (allContainers h ws)" using owned_containers(2) [OF assms(1) ws(2)] that by auto
      then show ?thesis using \<open>mTarget ` set (containersOf h w) \<subseteq> mTarget ` set (allContainers h ws)\<close> by blast
    qed
  qed
  ultimately show ?thesis
    by (simp add: workloadRec_def floored_owned(2) [OF assms(1) ws(1) fl ws(2)] containerRec_def)
qed

lemma floored_workloads:
  assumes "owned h ws" "i < length ws" and fl: "floored F (sharedTargets (containersOf h (ws ! i))) h h'"
    and rec: "rec = workloadRec h (ws ! i)"
    and targets: "targets = map (\<lambda>(name, m). (name, F name m)) (workloadTargets (Containers rec))"
  shows "map (workloadRec h') ws = (map (workloadRec h) ws)[i := rec\<lparr>Containers := writeBack targets (Containers rec)\<rparr>]"
proof -
  let ?w = "ws ! i"
  obtain xs ys where ws: "ws = xs @ ?w # ys" "length xs = i" using id_take_nth_drop [OF assms(2)] assms(2) by fastforce
  have w: "?w \<in> set ws" using assms(2) by simp
  note own = owned_containers [OF assms(1) w]
  have sub: "mTarget ` set (containersOf h ?w) \<subseteq> mTarget ` set (allContainers h ws)" using w by (auto simp: allContainers_def)
  have "map (containerRec h') (containersOf h ?w) = writeBack targets (Containers rec)"
    using floored_containers [OF fl own(1) _ append_Nil [symmetric]] own(2) sub
    by (fastforce simp: targets rec workloadRec_def)
  then have "workloadRec h' ?w = rec\<lparr>Containers := writeBack targets (Containers rec)\<rparr>"
    using floored_owned(2) [OF assms(1) w fl w] by (simp add: workloadRec_def rec)
  moreover have "map (workloadRec h') xs = map (workloadRec h) xs" "map (workloadRec h') ys = map (workloadRec h) ys"
    using floored_other [OF assms(1) ws(1) fl] by simp_all
  ultimately have "map (workloadRec h') ws = map (workloadRec h) xs @ rec\<lparr>Containers := writeBack targets (Containers rec)\<rparr> # map (workloadRec h) ys"
    by (subst ws(1)) simp
  moreover have "(map (workloadRec h) ws)[i := x] = map (workloadRec h) xs @ x # map (workloadRec h) ys" for x
    using list_update_length [of "map (workloadRec h) xs"] by (subst ws(1)) (simp add: ws(2) [symmetric])
  ultimately show ?thesis by simp
qed

lemma floored_id: "floored (\<lambda>_ m. m) targets h h" if "\<forall>p \<in> snd ` set targets. \<exists>a. p = Some a \<and> isList h a"
  using that by (fastforce simp: floored_def readList_def isList_iff)

end
