(* ===== verification/InPlaceTheorems.thy ===== *)
theory InPlaceTheorems
  imports InPlace ActuationTheorems
begin

text \<open>
  The writes in place do what \<open>Actuation\<close> says they do, and leave a deep copy taken before as it was: the
  status patch of a reconcile is computed against the status that was read.
\<close>

section \<open>Marking\<close>

definition marked :: "container_recommendation_m \<Rightarrow> container_recommendation_m" where
  "marked c = c\<lparr>mApplied := mTarget c\<rparr>"

definition marks :: "(string, nat) gomap \<Rightarrow> workload_recommendation_m list \<Rightarrow> addr \<Rightarrow> bool" where
  \<comment> \<open>the array at this address is one of those marked\<close>
  "marks byWorkload ws a \<longleftrightarrow> (\<exists>w \<in> set ws. mContainers w = Some a \<and> map_of byWorkload (mWorkload w) \<noteq> None)"

lemma markAppliedInPlace_cells:
  "distinct (map mContainers ws) \<Longrightarrow> \<forall>w \<in> set ws. mContainers w \<noteq> None \<Longrightarrow>
     free (markAppliedInPlace byWorkload ws h) = free h
     \<and> cell (markAppliedInPlace byWorkload ws h) a =
         (if marks byWorkload ws a then ContainerRecsCell (map marked (theContainerRecs (cell h a))) else cell h a)"
proof (induction ws arbitrary: h)
  case (Cons w ws)
  obtain b where b: "mContainers w = Some b" using Cons.prems(2) by auto
  have "\<not> marks byWorkload ws b" using Cons.prems(1) b by (force simp: marks_def)
  then show ?case using Cons b by (auto simp: marks_def marked_def [abs_def])
qed (simp add: marks_def)

lemma markAppliedInPlace_markApplied:
  assumes "owned h ws"
  shows "map (workloadRec (markAppliedInPlace byWorkload ws h)) ws = markApplied byWorkload (map (workloadRec h) ws)"
proof -
  let ?h = "markAppliedInPlace byWorkload ws h"
  have ws: "distinct (map mContainers ws)" "\<forall>w \<in> set ws. mContainers w \<noteq> None"
    using assms by (auto simp: owned_def)
  have cells: "cell ?h a = (if marks byWorkload ws a then ContainerRecsCell (map marked (theContainerRecs (cell h a))) else cell h a)" for a
    using markAppliedInPlace_cells [OF ws] by blast
  have lists: "readList ?h p = readList h p" if "\<And>a. p = Some a \<Longrightarrow> isList h a" for p
  proof (cases p)
    case (Some a)
    have "\<not> isContainers h a" using that [OF Some] by (auto simp: isList_iff isContainers_iff)
    then have "\<not> marks byWorkload ws a" using assms by (fastforce simp: marks_def owned_def)
    then show ?thesis by (simp add: cells Some readList_def)
  qed (simp add: readList_def)
  have "workloadRec ?h w = (if map_of byWorkload (Workload (workloadRec h w)) = None then workloadRec h w
      else (workloadRec h w)\<lparr>Containers := map (\<lambda>c. c\<lparr>Applied := Target c\<rparr>) (Containers (workloadRec h w))\<rparr>)" if w: "w \<in> set ws" for w
  proof -
    obtain a where a: "mContainers w = Some a" "isContainers h a" using assms w by (auto simp: owned_def)
    have "w' = w" if "w' \<in> set ws" "mContainers w' = Some a" for w'
      using ws(1) w a(1) that by (auto simp: distinct_map inj_on_def)
    then have "marks byWorkload ws a \<longleftrightarrow> map_of byWorkload (mWorkload w) \<noteq> None"
      unfolding marks_def using w a(1) by metis
    then have c: "containersOf ?h w = (if map_of byWorkload (mWorkload w) = None then containersOf h w
        else map marked (containersOf h w))"
      using a(1) by (simp add: cells containersOf_def)
    have own: "\<forall>c \<in> set (containersOf h w). (\<exists>a. mTarget c = Some a \<and> isList h a) \<and> (\<forall>a. mApplied c = Some a \<longrightarrow> isList h a)"
      using assms w unfolding owned_def allContainers_def by auto
    have "containerRec ?h c = containerRec h c" "containerRec ?h (marked c) = (containerRec h c)\<lparr>Applied := Target (containerRec h c)\<rparr>"
      if "c \<in> set (containersOf h w)" for c
    proof -
      have "readList ?h (mTarget c) = readList h (mTarget c)" "readList ?h (mApplied c) = readList h (mApplied c)"
        using own that by (auto intro!: lists)
      then show "containerRec ?h c = containerRec h c"
        "containerRec ?h (marked c) = (containerRec h c)\<lparr>Applied := Target (containerRec h c)\<rparr>"
        by (simp_all add: containerRec_def marked_def)
    qed
    then show ?thesis by (simp add: workloadRec_def c)
  qed
  then show ?thesis by (simp add: markApplied_def)
qed

section \<open>Coordinating\<close>

lemma coordinateInPlace_error:
  "coordinateHPA Q spec hpas workload (workloadTargets cs) usage now = Inl err \<Longrightarrow>
     coordinateInPlace Q spec hpas workload targets usage now h = Some (Inl err)"
  by (auto simp: coordinateHPA_def coordinateInPlace_def Let_def split: if_splits sum.splits option.splits)

lemma coordinateInPlace_floored:
  assumes own: "owned h ws" and w: "w \<in> set ws" and rec: "rec = workloadRec h w"
    and model: "coordinateHPA Q spec hpas workload (workloadTargets (Containers rec)) usage now = Inr (state, targets)"
  shows "\<exists>F h'. coordinateInPlace Q spec hpas workload (sharedTargets (containersOf h w)) usage now h = Some (Inr (state, h'))
    \<and> floored F (sharedTargets (containersOf h w)) h h'
    \<and> targets = map (\<lambda>(name, m). (name, F name m)) (workloadTargets (Containers rec))"
proof -
  let ?sh = "sharedTargets (containersOf h w)"
  note sh = owned_sharedTargets [OF own w]
  have wt: "workloadTargets (Containers rec) = map (\<lambda>(name, p). (name, readList h p)) ?sh"
    by (simp add: rec workloadRec_def workloadTargets_shared)
  then have ne: "workloadTargets (Containers rec) = [] \<longleftrightarrow> ?sh = []" by simp
  show ?thesis
  proof (cases "coordinateInPlace Q spec hpas workload ?sh usage now h = Some (Inr (state, h)) \<and> targets = workloadTargets (Containers rec)")
    case True
    then show ?thesis using floored_id [OF sh(1)] by (intro exI [of _ "\<lambda>_ m. m"] exI [of _ h]) simp
  next
    case False
    then obtain hpa where hpa: "\<not> (case HPA spec of Some c \<Rightarrow> hc_Mode c = HPAModeIgnore | None \<Rightarrow> False)"
      "FindHPA hpas workload = Inr (Some hpa)" "\<not> (hs_pause (hpaSettings (HPA spec)) \<and> IsScaling (Some hpa) (hs_settle (hpaSettings (HPA spec))) now)"
      using model by (auto simp: coordinateHPA_def coordinateInPlace_def Let_def split: if_splits sum.splits option.splits)
    let ?u = "TargetUtilization (Some hpa)" and ?hr = "hs_headroom (hpaSettings (HPA spec))"
    let ?F = "\<lambda>name. floorTarget Q ?u ?hr (map_of usage name)"
    obtain h' where h': "floorLoop Q spec ?u ?hr usage ?sh (?sh \<noteq> []) h =
        Some (?sh \<noteq> [] \<and> list_all (\<lambda>(name, m). pinnedAtMax Q spec name m) (map (\<lambda>(name, p). (name, ?F name (readList h p))) ?sh), h')"
      "floored ?F ?sh h h'"
      using floorLoop_floored [OF sh] by blast
    have m: "map (\<lambda>(name, m). (name, ?F name m)) (workloadTargets (Containers rec)) = map (\<lambda>(name, p). (name, ?F name (readList h p))) ?sh"
      by (simp add: wt comp_def case_prod_unfold)
    have "state = (if ?sh \<noteq> [] \<and> list_all (\<lambda>(name, m). pinnedAtMax Q spec name m)
        (map (\<lambda>(name, p). (name, ?F name (readList h p))) ?sh) then HPAStateAtMaxVertical else HPAStateIdle)
      \<and> targets = map (\<lambda>(name, p). (name, ?F name (readList h p))) ?sh"
      using model hpa by (auto simp: coordinateHPA_def Let_def m ne)
    then show ?thesis
      using hpa h' by (intro exI [of _ ?F] exI [of _ h']) (auto simp: coordinateInPlace_def Let_def m)
  qed
qed

lemma floored_footprint:
  "floored F (sharedTargets cs) h h' \<Longrightarrow> Some a \<notin> mTarget ` set cs \<Longrightarrow> cell h' a = cell h a"
  unfolding floored_def using sharedTargets_set [of cs] by blast

section \<open>Properties\<close>

text \<open>C20. The value model of actuation is what happens in memory: while the recommendations own their lists,
  \<open>coordinateHPA\<close> run in place through the shared \<open>targets\<close> of one workload never writes to a nil map,
  returns the state \<open>Actuation.coordinateHPA\<close> computes, leaves in the status exactly the recommendations
  that \<open>writeBack\<close> computes, and changes no cell but the target lists of that workload; marking what was
  applied then leaves what \<open>Actuation.markApplied\<close> computes.\<close>

theorem in_place_as_modelled:
  assumes own: "owned h ws" and i: "i < length ws" and rec: "rec = workloadRec h (ws ! i)"
    and model: "coordinateHPA Q spec hpas workload (workloadTargets (Containers rec)) usage now = Inr (state, targets)"
  shows "\<exists>h'. coordinateInPlace Q spec hpas workload (sharedTargets (containersOf h (ws ! i))) usage now h = Some (Inr (state, h'))
    \<and> map (workloadRec h') ws = (map (workloadRec h) ws)[i := rec\<lparr>Containers := writeBack targets (Containers rec)\<rparr>]
    \<and> map (workloadRec (markAppliedInPlace byWorkload ws h')) ws = markApplied byWorkload (map (workloadRec h') ws)
    \<and> (\<forall>a. Some a \<notin> mTarget ` set (containersOf h (ws ! i)) \<longrightarrow> cell h' a = cell h a)"
proof -
  have w: "ws ! i \<in> set ws" using i by simp
  obtain F h' where c: "coordinateInPlace Q spec hpas workload (sharedTargets (containersOf h (ws ! i))) usage now h = Some (Inr (state, h'))"
    and f: "floored F (sharedTargets (containersOf h (ws ! i))) h h'"
    and t: "targets = map (\<lambda>(name, m). (name, F name m)) (workloadTargets (Containers rec))"
    using coordinateInPlace_floored [OF own w rec model] by blast
  show ?thesis
    using c floored_workloads [OF own i f rec t] markAppliedInPlace_markApplied [OF floored_owned(3) [OF own w f]]
      floored_footprint [OF f] by blast
qed

text \<open>The status patch is computed against the status that was read: the deep copy a reconcile takes of its
  DynamicResource still means what the object meant when it was read after the HPA floors have been
  raised in place and the applied targets have been marked, whoever owns the recommendations written to.\<close>

theorem patch_base_as_read:
  assumes lib: "library L V" and p: "pointer_inside theResource (resource_inside V) h 0 (free h) (Some p)"
    and copy: "run_state (DynamicResource_DeepCopy L (Some p)) h = (Some orig, h1)"
    and own: "owned h1 ws" and w: "w \<in> set ws"
    and apart: "\<And>w a. w \<in> set ws \<Longrightarrow> mContainers w = Some a \<or> Some a \<in> mTarget ` set (containersOf h1 w) \<Longrightarrow> a \<notin> {free h..<free h1}"
    and run: "coordinateInPlace Q spec hpas workload (sharedTargets (containersOf h1 w)) usage now h1 = Some (Inr (state, h2))"
  shows "resource_view V (markAppliedInPlace byWorkload ws h2) (theResource (cell (markAppliedInPlace byWorkload ws h2) orig)) =
    resource_view V h (theResource (cell h p))"
proof -
  let ?h3 = "markAppliedInPlace byWorkload ws h2" and ?cs = "containersOf h1 w"
  have "\<exists>F. floored F (sharedTargets ?cs) h1 h2"
  proof (cases "coordinateHPA Q spec hpas workload (workloadTargets (Containers (workloadRec h1 w))) usage now")
    case (Inl err)
    then show ?thesis using run coordinateInPlace_error [OF Inl, of _ h1] by simp
  next
    case (Inr st)
    then show ?thesis using coordinateInPlace_floored [OF own w refl, of Q spec hpas workload usage now "fst st" "snd st"] run by force
  qed
  then obtain F where f: "floored F (sharedTargets ?cs) h1 h2" ..
  note own2 = floored_owned(3) [OF own w f]
  then have ws: "distinct (map mContainers ws)" "\<forall>w \<in> set ws. mContainers w \<noteq> None" by (auto simp: owned_def)
  have "agree (free h) (free h1) h1 ?h3"
  proof (unfold agree_def, intro allI impI)
    fix a
    assume a: "free h \<le> a" "a < free h1"
    then have "Some a \<notin> mTarget ` set ?cs" "\<not> marks byWorkload ws a" using apart w by (fastforce simp: marks_def)+
    then show "cell ?h3 a = cell h1 a" using markAppliedInPlace_cells [OF ws, of byWorkload h2 a] floored_footprint [OF f] by simp
  qed
  then show ?thesis
    using copier.isolated(3) [OF library.resource_copier [OF lib] p copy] by (simp add: pointee_def)
qed

section \<open>Witnesses\<close>

definition ex_recs :: "workload_recommendation_m list" where
  "ex_recs = theWorkloadRecs (cell ex_mem 5)"

definition ex_rec_cells :: "ex_gomem \<Rightarrow> bool" where
  \<comment> \<open>the recommendations are where they are in the example\<close>
  "ex_rec_cells h \<longleftrightarrow> cell h 6 = cell ex_mem 6 \<and> cell h 7 = cell ex_mem 7"

lemma ex_recs_eq: "ex_recs = [\<lparr>mWorkload = ''web'', mContainers = Some 6\<rparr>]"
  by (simp add: ex_recs_def ex_mem_def ex_cells_def)

lemma ex_containers: "ex_rec_cells h \<Longrightarrow> w \<in> set ex_recs \<Longrightarrow> containersOf h w = [\<lparr>mContainerName = ''app'', mTarget = Some 7, mApplied = None\<rparr>]"
  by (auto simp: ex_recs_eq ex_rec_cells_def containersOf_def ex_mem_def ex_cells_def)

lemma ex_owned: "ex_rec_cells h \<Longrightarrow> owned h ex_recs"
  by (auto simp: owned_def allContainers_def ex_containers ex_recs_eq)
    (auto simp: ex_rec_cells_def isList_def isContainers_def ex_mem_def ex_cells_def containersOf_def)

lemma ex_shared: "ex_rec_cells h \<Longrightarrow> w \<in> set ex_recs \<Longrightarrow> workloadTargets (Containers (workloadRec h w)) = ex_small_targets"
  by (simp add: workloadTargets_def workloadRec_def ex_containers containerRec_def ex_small_targets_def)
    (simp add: ex_rec_cells_def readList_def ex_mem_def ex_cells_def)

theorem in_place_as_modelled_witness:
  "\<exists>h'. coordinateInPlace exact_api ex_spec (Inr [ex_hpa]) ''web'' (sharedTargets (containersOf ex_mem (ex_recs ! 0)))
      (ex_usage 350) 0 ex_mem = Some (Inr (HPAStateIdle, h'))"
proof -
  have h: "ex_rec_cells ex_mem" by (simp add: ex_rec_cells_def)
  have i: "0 < length ex_recs" by (simp add: ex_recs_eq)
  note model = ex_coordinate [folded ex_shared [OF h nth_mem [OF i]]]
  from in_place_as_modelled [OF ex_owned [OF h] i refl model] show ?thesis by blast
qed

theorem patch_base_as_read_witness:
  "\<exists>orig h1 h2. run_state (DynamicResource_DeepCopy ex_lib (Some 0)) ex_mem = (Some orig, h1)
     \<and> coordinateInPlace exact_api ex_spec (Inr [ex_hpa]) ''web'' (sharedTargets (containersOf h1 (hd ex_recs))) (ex_usage 350) 0 h1 =
         Some (Inr (HPAStateIdle, h2))
     \<and> (let h3 = markAppliedInPlace [(''web'', 0)] ex_recs h2
        in resource_view ex_lib_view h3 (theResource (cell h3 orig)) = resource_view ex_lib_view ex_mem (theResource (cell ex_mem 0)))"
proof -
  obtain r h1 where r: "run_state (DynamicResource_DeepCopy ex_lib (Some 0)) ex_mem = (r, h1)" by fastforce
  from copier.copies [OF ex_library.resource_copier ex_allocated r] have c: "grown ex_mem h1"
    "pointee theResource (resource_view ex_lib_view) h1 r = pointee theResource (resource_view ex_lib_view) ex_mem (Some 0)" by blast+
  then obtain orig where orig: "r = Some orig" by (auto simp: pointee_def)
  have free: "free ex_mem = 12" by (simp add: ex_mem_def ex_cells_def)
  have h: "ex_rec_cells h1" using c(1) by (simp add: ex_rec_cells_def grown_def free)
  have w: "hd ex_recs \<in> set ex_recs" by (simp add: ex_recs_eq)
  note model = ex_coordinate [folded ex_shared [OF h w]]
  obtain h2 where h2: "coordinateInPlace exact_api ex_spec (Inr [ex_hpa]) ''web'' (sharedTargets (containersOf h1 (hd ex_recs)))
      (ex_usage 350) 0 h1 = Some (Inr (HPAStateIdle, h2))"
    using coordinateInPlace_floored [OF ex_owned [OF h] w refl model] by blast
  have apart: "a \<notin> {free ex_mem..<free h1}"
    if "w \<in> set ex_recs" "mContainers w = Some a \<or> Some a \<in> mTarget ` set (containersOf h1 w)" for w a
    using that ex_containers [OF h that(1)] by (auto simp: ex_recs_eq free)
  show ?thesis
    using patch_base_as_read [OF ex_library.library_axioms ex_allocated r [unfolded orig] ex_owned [OF h] w apart h2] r h2
    by (auto simp: orig Let_def)
qed

end
