(* ===== verification/Ownership.thy ===== *)
theory Ownership
  imports InPlaceTheorems
begin

text \<open>
  Whose memory a pass writes to. A reconcile gets its DynamicResource from the cache of the client, which hands
  out a deep copy, and takes a deep copy of its own as the base of the status patch. The locale \<open>maker\<close> is the
  contract of a copy seen from its addresses: what it makes lies in the new cells, part after part. From
  it follows that the recommendations of a copied object own their lists (\<open>owned\<close>), and that the in-place
  writes of a pass, for any workloads in any order, reach neither the cached object nor the base.
\<close>

section \<open>Parts in a row\<close>

fun tiled :: "('c mem \<Rightarrow> addr \<Rightarrow> addr \<Rightarrow> 'v \<Rightarrow> bool) \<Rightarrow> 'c mem \<Rightarrow> addr \<Rightarrow> 'v list \<Rightarrow> addr \<Rightarrow> bool" where
  \<comment> \<open>the elements lie between the bounds, each after the one before\<close>
  "tiled made h lo [] hi \<longleftrightarrow> lo \<le> hi"
| "tiled made h lo (x # xs) hi \<longleftrightarrow> (\<exists>l m. lo \<le> l \<and> l \<le> m \<and> made h l m x \<and> tiled made h m xs hi)"

lemma tiled_le: "tiled made h lo xs hi \<Longrightarrow> lo \<le> hi"
  by (induction xs arbitrary: lo) force+

lemma tiled_lower: "tiled made h lo xs hi \<Longrightarrow> lo' \<le> lo \<Longrightarrow> tiled made h lo' xs hi"
proof (cases xs)
  case (Cons y ys)
  assume "tiled made h lo xs hi" "lo' \<le> lo"
  then show ?thesis using le_trans by (fastforce simp: Cons)
qed simp

lemma tiled_append: "tiled made h lo xs m \<Longrightarrow> tiled made h m ys hi \<Longrightarrow> tiled made h lo (xs @ ys) hi"
  by (induction xs arbitrary: lo) (auto intro: tiled_lower)

lemma tiled_all: "tiled made h lo xs hi \<Longrightarrow> x \<in> set xs \<Longrightarrow> \<exists>l m. lo \<le> l \<and> m \<le> hi \<and> made h l m x"
proof (induction xs arbitrary: lo)
  case (Cons y ys)
  then obtain l m where m: "lo \<le> l" "l \<le> m" "made h l m y" "tiled made h m ys hi" by auto
  show ?case
  proof (cases "x = y")
    case True
    then show ?thesis using m tiled_le by blast
  next
    case False
    then show ?thesis using Cons.IH [OF m(4)] Cons.prems(2) m(1,2) by (meson le_trans set_ConsD)
  qed
qed simp

lemma tiled_cong:
  assumes "tiled made h lo xs hi" "\<And>l m x. lo \<le> l \<Longrightarrow> m \<le> hi \<Longrightarrow> made h l m x \<Longrightarrow> made' h' l m x"
  shows "tiled made' h' lo xs hi"
  using assms
proof (induction xs arbitrary: lo)
  case (Cons y ys)
  then obtain l m where m: "lo \<le> l" "l \<le> m" "made h l m y" "tiled made h m ys hi" by auto
  have "made' h' l m y" using Cons.prems(2) m tiled_le [OF m(4)] by blast
  moreover have "tiled made' h' m ys hi" using Cons.IH [OF m(4)] Cons.prems(2) m(1,2) by (meson le_trans)
  ultimately show ?case using m(1,2) by auto
qed simp

lemma tiled_distinct:
  assumes "tiled made h lo xs hi" "\<And>l m x. made h l m x \<Longrightarrow> \<exists>a. f x = Some a \<and> l \<le> a \<and> a < m"
  shows "distinct (map f xs)"
  using assms(1)
proof (induction xs arbitrary: lo)
  case (Cons y ys)
  then obtain l m where m: "lo \<le> l" "l \<le> m" "made h l m y" "tiled made h m ys hi" by auto
  have "f y \<noteq> f x" if "x \<in> set ys" for x
  proof -
    obtain l' m' where "m \<le> l'" "made h l' m' x" using tiled_all [OF m(4) \<open>x \<in> set ys\<close>] by blast
    then show ?thesis using assms(2) [OF m(3)] assms(2) [of l' m' x] by force
  qed
  then have "f y \<notin> f ` set ys" by blast
  then show ?case using Cons.IH [OF m(4)] by simp
qed simp

lemma tiled_concat:
  assumes "tiled outer h lo xs hi" "\<And>l m x. outer h l m x \<Longrightarrow> tiled inner h l (f x) m"
  shows "tiled inner h lo (concat (map f xs)) hi"
  using assms(1)
proof (induction xs arbitrary: lo)
  case (Cons y ys)
  then obtain l m where m: "lo \<le> l" "l \<le> m" "outer h l m y" "tiled outer h m ys hi" by auto
  show ?case using tiled_append [OF tiled_lower [OF assms(2) [OF m(3)] m(1)] Cons.IH [OF m(4)]] by simp
qed simp

section \<open>What a copy makes\<close>

definition ref_good :: "bool \<Rightarrow> ('c \<Rightarrow> 'v) \<Rightarrow> ('c mem \<Rightarrow> 'v \<Rightarrow> bool) \<Rightarrow> 'c mem \<Rightarrow> addr option \<Rightarrow> bool" where
  \<comment> \<open>a reference to an allocated object, or nil where that is allowed\<close>
  "ref_good nil from good h p = (case p of None \<Rightarrow> nil | Some a \<Rightarrow> a < free h \<and> good h (from (cell h a)))"

definition ref_made ::
  "bool \<Rightarrow> ('v \<Rightarrow> 'c) \<Rightarrow> ('c mem \<Rightarrow> addr \<Rightarrow> addr \<Rightarrow> 'v \<Rightarrow> bool) \<Rightarrow> 'c mem \<Rightarrow> addr \<Rightarrow> addr \<Rightarrow> addr option \<Rightarrow> bool" where
  "ref_made nil into made h lo hi p =
     (case p of None \<Rightarrow> nil | Some a \<Rightarrow> lo \<le> a \<and> a < hi \<and> (\<exists>y. cell h a = into y \<and> made h (Suc a) hi y))"

locale maker =
  fixes copy :: "'v \<Rightarrow> ('c mem, 'v) state"
    and good :: "'c mem \<Rightarrow> 'v \<Rightarrow> bool"
    and made :: "'c mem \<Rightarrow> addr \<Rightarrow> addr \<Rightarrow> 'v \<Rightarrow> bool"
  assumes good_keep: "good h x \<Longrightarrow> grown h h' \<Longrightarrow> good h' x"
    and made_frame: "made h lo hi y \<Longrightarrow> agree lo hi h h' \<Longrightarrow> made h' lo hi y"
    and makes: "good h x \<Longrightarrow> run_state (copy x) h = (y, h') \<Longrightarrow> grown h h' \<and> made h' (free h) (free h') y"
begin

lemma made_grown: "made h lo hi y \<Longrightarrow> hi \<le> free h \<Longrightarrow> grown h h' \<Longrightarrow> made h' lo hi y"
  by (rule made_frame) (auto simp: agree_def grown_def)

lemma list_maker: "maker (State_Monad.traverse_list copy) (\<lambda>h. list_all (good h)) (\<lambda>h lo hi ys. tiled made h lo ys hi)"
proof
  show "list_all (good h') xs" if "list_all (good h) xs" "grown h h'" for h h' xs
    using that good_keep by (auto simp: list_all_iff)
  show "tiled made h' lo ys hi" if t: "tiled made h lo ys hi" and a: "agree lo hi h h'" for h h' lo hi ys
  proof (rule tiled_cong [OF t])
    fix l m x
    assume "lo \<le> l" "m \<le> hi" "made h l m x"
    then show "made h' l m x" using a by (auto simp: agree_def elim: made_frame)
  qed
  show "grown h h' \<and> tiled made h' (free h) ys (free h')"
    if "list_all (good h) xs" "run_state (State_Monad.traverse_list copy xs) h = (ys, h')" for h h' xs ys
    using that
  proof (induction xs arbitrary: ys h)
    case (Cons x xs)
    obtain y h1 zs where c: "run_state (copy x) h = (y, h1)" "run_state (State_Monad.traverse_list copy xs) h1 = (zs, h')"
      "ys = y # zs"
      using Cons.prems(2) by (auto split: prod.splits)
    have m: "grown h h1" "made h1 (free h) (free h1) y" using makes [OF _ c(1)] Cons.prems(1) by simp_all
    have "list_all (good h1) xs" using Cons.prems(1) good_keep [OF _ m(1)] by (auto simp: list_all_iff)
    from Cons.IH [OF this c(2)] have i: "grown h1 h'" "tiled made h' (free h1) zs (free h')" by simp_all
    then show ?case
      using grown_trans [OF m(1) i(1)] grown_free [OF m(1)] made_grown [OF m(2) le_refl i(1)] by (auto simp: c(3))
  qed simp
qed

lemma clone_maker:
  assumes inv: "\<And>v. from (into v) = v"
  shows "maker (clone from into copy) (ref_good nil from good) (ref_made nil into made)"
proof
  fix h h' :: "'c mem" and p
  assume "ref_good nil from good h p" "grown h h'"
  then show "ref_good nil from good h' p" using good_keep by (auto simp: ref_good_def grown_def split: option.splits)
next
  fix h h' :: "'c mem" and lo hi p
  assume m: "ref_made nil into made h lo hi p" and a: "agree lo hi h h'"
  have "agree (Suc x) hi h h'" if "lo \<le> x" for x using a that by (simp add: agree_def)
  then show "ref_made nil into made h' lo hi p"
    using m agreeD [OF a] made_frame by (fastforce simp: ref_made_def split: option.splits)
next
  fix h h' :: "'c mem" and p q
  assume g: "ref_good nil from good h p" and r: "run_state (clone from into copy p) h = (q, h')"
  show "grown h h' \<and> ref_made nil into made h' (free h) (free h') q"
  proof (cases p)
    case None
    then show ?thesis using g r by (auto simp: clone_def ref_good_def ref_made_def)
  next
    case (Some a)
    let ?h1 = "h\<lparr>cell := (cell h)(free h := cell h a), free := Suc (free h)\<rparr>"
    obtain y h2 where c: "run_state (copy (from (cell h a))) ?h1 = (y, h2)" by fastforce
    have e: "q = Some (free h)" "h' = h2\<lparr>cell := (cell h2)(free h := into y)\<rparr>"
      using r c by (simp_all add: clone_def Some)
    have "good ?h1 (from (cell h a))" using g by (auto simp: Some ref_good_def grown_def intro: good_keep)
    from makes [OF this c] have d: "grown ?h1 h2" "made h2 (Suc (free h)) (free h2) y" by simp_all
    have "made h' (Suc (free h)) (free h2) y" using d(2) by (rule made_frame) (simp add: agree_def e(2))
    then show ?thesis using grown_free [OF d(1)] d(1) by (auto simp: e ref_made_def grown_def)
  qed
qed

lemma struct_maker:
  assumes "\<And>x t. get (put x t) = t" "\<And>x. copy' x = do { t \<leftarrow> copy (get x); State_Monad.return (put x t) }"
  shows "maker copy' (\<lambda>h x. good h (get x)) (\<lambda>h lo hi x. made h lo hi (get x))"
proof
  fix h h' :: "'c mem" and x y
  assume g: "good h (get x)" and r: "run_state (copy' x) h = (y, h')"
  obtain t where "run_state (copy (get x)) h = (t, h')" "y = put x t" using r by (auto simp: assms(2) split: prod.splits)
  then show "grown h h' \<and> made h' (free h) (free h') (get y)" using makes [OF g] by (simp add: assms(1))
qed (use good_keep made_frame in blast)+

end

lemma both_maker:
  assumes A: "maker copyA goodA madeA" and B: "maker copyB goodB madeB"
  shows "maker (copyBoth copyA copyB) (\<lambda>h x. goodA h (fst x) \<and> goodB h (snd x))
    (\<lambda>h lo hi x. \<exists>m. lo \<le> m \<and> m \<le> hi \<and> madeA h lo m (fst x) \<and> madeB h m hi (snd x))"
proof
  fix h h' :: "'b mem" and lo hi y
  assume "\<exists>m. lo \<le> m \<and> m \<le> hi \<and> madeA h lo m (fst y) \<and> madeB h m hi (snd y)" and a: "agree lo hi h h'"
  then obtain m where m: "lo \<le> m" "m \<le> hi" "madeA h lo m (fst y)" "madeB h m hi (snd y)" by blast
  have "agree lo m h h'" "agree m hi h h'" using a m(1,2) by (simp_all add: agree_def)
  then show "\<exists>m. lo \<le> m \<and> m \<le> hi \<and> madeA h' lo m (fst y) \<and> madeB h' m hi (snd y)"
    using m maker.made_frame [OF A] maker.made_frame [OF B] by blast
next
  fix h h' :: "'b mem" and x y
  assume g: "goodA h (fst x) \<and> goodB h (snd x)" and r: "run_state (copyBoth copyA copyB x) h = (y, h')"
  obtain a b h1 where c: "run_state (copyA (fst x)) h = (a, h1)" "run_state (copyB (snd x)) h1 = (b, h')" "y = (a, b)"
    using r by (auto simp: copyBoth_def split: prod.splits)
  have m: "grown h h1" "madeA h1 (free h) (free h1) a" using maker.makes [OF A _ c(1)] g by blast+
  have n: "grown h1 h'" "madeB h' (free h1) (free h') b"
    using maker.makes [OF B _ c(2)] maker.good_keep [OF B _ m(1)] g by blast+
  show "grown h h' \<and> (\<exists>k. free h \<le> k \<and> k \<le> free h' \<and> madeA h' (free h) k (fst y) \<and> madeB h' k (free h') (snd y))"
    using grown_trans [OF m(1) n(1)] grown_free [OF m(1)] grown_free [OF n(1)] n(2) maker.made_grown [OF A m(2) le_refl n(1)]
    by (auto simp: c(3))
qed (use maker.good_keep [OF A] maker.good_keep [OF B] in blast)

lemma copier_maker:
  \<comment> \<open>for a part whose addresses do not matter\<close>
  assumes "copier view inside copy"
  shows "maker copy (\<lambda>h x. inside h 0 (free h) x) (\<lambda>_ _ _ _. True)"
proof -
  have r: "region view inside" using assms by (simp add: copier_def)
  show ?thesis
  proof
    show "inside h' 0 (free h') x" if "inside h 0 (free h) x" "grown h h'" for h h' x by (rule region.keep(1) [OF r that])
    show "grown h h' \<and> True" if "inside h 0 (free h) x" "run_state (copy x) h = (y, h')" for h h' x y
      using copier.copies [OF assms that] by blast
  qed simp
qed

section \<open>The recommendations of a copy\<close>

definition container_good ::
  "('q, 'ls, 'om, 'lm, 'cd, 'x, 'qv, 'lsv, 'omv, 'lmv) lib_view \<Rightarrow> ('q, 'ls, 'om, 'lm, 'cd, 'x) gomem \<Rightarrow> container_recommendation_m \<Rightarrow> bool" where
  "container_good V h c \<longleftrightarrow>
     ref_good False theResourceList (\<lambda>h. entries_inside (quantity_inside V) h 0 (free h)) h (mTarget c)
     \<and> ref_good True theResourceList (\<lambda>h. entries_inside (quantity_inside V) h 0 (free h)) h (mApplied c)"

definition container_made ::
  "('q, 'ls, 'om, 'lm, 'cd, 'x) gomem \<Rightarrow> addr \<Rightarrow> addr \<Rightarrow> container_recommendation_m \<Rightarrow> bool" where
  "container_made h lo hi c \<longleftrightarrow> (\<exists>m. lo \<le> m \<and> m \<le> hi
     \<and> ref_made False ResourceListCell (\<lambda>_ _ _ _. True) h lo m (mTarget c)
     \<and> ref_made True ResourceListCell (\<lambda>_ _ _ _. True) h m hi (mApplied c))"

definition workload_good ::
  "('q, 'ls, 'om, 'lm, 'cd, 'x, 'qv, 'lsv, 'omv, 'lmv) lib_view \<Rightarrow> ('q, 'ls, 'om, 'lm, 'cd, 'x) gomem \<Rightarrow> workload_recommendation_m \<Rightarrow> bool" where
  "workload_good V h w \<longleftrightarrow> ref_good False theContainerRecs (\<lambda>h. list_all (container_good V h)) h (mContainers w)"

definition workload_made ::
  "('q, 'ls, 'om, 'lm, 'cd, 'x) gomem \<Rightarrow> addr \<Rightarrow> addr \<Rightarrow> workload_recommendation_m \<Rightarrow> bool" where
  "workload_made h lo hi w \<longleftrightarrow>
     ref_made False ContainerRecsCell (\<lambda>h lo hi cs. tiled container_made h lo cs hi) h lo hi (mContainers w)"

definition status_good ::
  "('q, 'ls, 'om, 'lm, 'cd, 'x, 'qv, 'lsv, 'omv, 'lmv) lib_view \<Rightarrow> ('q, 'ls, 'om, 'lm, 'cd, 'x) gomem \<Rightarrow> dr_status_m \<Rightarrow> bool" where
  "status_good V h st \<longleftrightarrow> elements_inside theConditions (condition_inside V) h 0 (free h) (mConditions st)
     \<and> pointer_inside theReferences (\<lambda>_ _ _ _. True) h 0 (free h) (mMatchedWorkloads st)
     \<and> ref_good True theWorkloadRecs (\<lambda>h. list_all (workload_good V h)) h (mRecommendations st)
     \<and> pointer_inside theTime (\<lambda>_ _ _ _. True) h 0 (free h) (mLastResizeTime st)"

definition status_made :: "('q, 'ls, 'om, 'lm, 'cd, 'x) gomem \<Rightarrow> addr \<Rightarrow> addr \<Rightarrow> dr_status_m \<Rightarrow> bool" where
  "status_made h lo hi st \<longleftrightarrow> (\<exists>l \<ge> lo. \<exists>m \<le> hi.
     ref_made True WorkloadRecsCell (\<lambda>h lo hi ws. tiled workload_made h lo ws hi) h l m (mRecommendations st))"

lemma maker_weaken:
  assumes "maker copy good made" "\<And>h lo hi y. made h lo hi y \<Longrightarrow> made' h lo hi y"
    "\<And>h h' lo hi y. made' h lo hi y \<Longrightarrow> agree lo hi h h' \<Longrightarrow> made' h' lo hi y"
  shows "maker copy good made'"
  using assms unfolding maker_def by blast

context library
begin

lemma list_entry_maker: "maker (clone theResourceList ResourceListCell (cloneEntries (Quantity_DeepCopy L) []))
    (ref_good nil theResourceList (\<lambda>h. entries_inside (quantity_inside V) h 0 (free h)))
    (ref_made nil ResourceListCell (\<lambda>_ _ _ _. True))"
  by (rule maker.clone_maker [OF copier_maker [OF quantity.entries_copier]]) simp

lemma container_maker: "maker (ContainerRecommendation_DeepCopyInto L) (container_good V) container_made"
  using maker.struct_maker [OF both_maker [OF list_entry_maker [of False] list_entry_maker [of True]],
      of "\<lambda>c. (mTarget c, mApplied c)" "\<lambda>c t. c\<lparr>mTarget := fst t, mApplied := snd t\<rparr>" "ContainerRecommendation_DeepCopyInto L"]
  by (simp add: container_good_def [abs_def] container_made_def [abs_def] ContainerRecommendation_DeepCopyInto_def copyBoth_def)

lemma workload_maker: "maker (WorkloadRecommendation_DeepCopyInto L) (workload_good V) workload_made"
  using maker.struct_maker [OF maker.clone_maker [OF maker.list_maker [OF container_maker], of theContainerRecs ContainerRecsCell False],
      of mContainers "\<lambda>w t. w\<lparr>mContainers := t\<rparr>" "WorkloadRecommendation_DeepCopyInto L"]
  by (simp add: workload_good_def [abs_def] workload_made_def [abs_def] WorkloadRecommendation_DeepCopyInto_def)

lemma recs_maker: "maker (clone theWorkloadRecs WorkloadRecsCell (State_Monad.traverse_list (WorkloadRecommendation_DeepCopyInto L)))
    (ref_good True theWorkloadRecs (\<lambda>h. list_all (workload_good V h)))
    (ref_made True WorkloadRecsCell (\<lambda>h lo hi ws. tiled workload_made h lo ws hi))"
  by (rule maker.clone_maker [OF maker.list_maker [OF workload_maker]]) simp

lemma status_maker: "maker (DynamicResourceStatus_DeepCopyInto L) (status_good V) status_made"
proof -
  note both = both_maker [OF copier_maker [OF conditions.copier_axioms] both_maker [OF copier_maker [OF references.copier_axioms]
      both_maker [OF recs_maker copier_maker [OF last_time.copier_axioms]]]]
  have "maker (DynamicResourceStatus_DeepCopyInto L) (status_good V) (\<lambda>h lo hi st. \<exists>k \<ge> lo. \<exists>l \<ge> k. \<exists>m \<ge> l. k \<le> hi \<and> l \<le> hi \<and> m \<le> hi
      \<and> ref_made True WorkloadRecsCell (\<lambda>h lo hi ws. tiled workload_made h lo ws hi) h l m (mRecommendations st))"
    using maker.struct_maker [OF both, of "\<lambda>s. (mConditions s, mMatchedWorkloads s, mRecommendations s, mLastResizeTime s)"
        "\<lambda>s t. case t of (a, b, c, d) \<Rightarrow> s\<lparr>mConditions := a, mMatchedWorkloads := b, mRecommendations := c, mLastResizeTime := d\<rparr>"
        "DynamicResourceStatus_DeepCopyInto L"]
    by (simp add: status_good_def [abs_def] DynamicResourceStatus_DeepCopyInto_def copyBoth_def split_beta conj_ac)
  then show ?thesis
  proof (rule maker_weaken)
    show "status_made h' lo hi st" if st: "status_made h lo hi st" and a: "agree lo hi h h'" for h h' :: "('q, 'ls, 'om, 'lm, 'cd, 'x) gomem" and lo hi st
    proof -
      obtain l m where m: "lo \<le> l" "m \<le> hi"
        "ref_made True WorkloadRecsCell (\<lambda>h lo hi ws. tiled workload_made h lo ws hi) h l m (mRecommendations st)"
        using st by (auto simp: status_made_def)
      have "agree l m h h'" using a m(1,2) by (simp add: agree_def)
      from maker.made_frame [OF recs_maker m(3) this] show ?thesis using m(1,2) by (auto simp: status_made_def)
    qed
  qed (auto simp: status_made_def intro: le_trans)
qed

lemma resource_maker: "maker (DynamicResource_DeepCopy L)
    (ref_good True theResource (\<lambda>h r. meta_inside V h 0 (free h) (mObjectMeta r) \<and> spec_inside V h 0 (free h) (mSpec r)
       \<and> status_good V h (mStatus r)))
    (ref_made True ResourceCell (\<lambda>h lo hi r. \<exists>l \<ge> lo. l \<le> hi \<and> status_made h l hi (mStatus r)))"
proof -
  note both = both_maker [OF copier_maker [OF meta.copier_axioms] both_maker [OF copier_maker [OF spec.copier_axioms] status_maker]]
  have "maker (DynamicResource_DeepCopyInto L) (\<lambda>h r. meta_inside V h 0 (free h) (mObjectMeta r) \<and> spec_inside V h 0 (free h) (mSpec r)
      \<and> status_good V h (mStatus r)) (\<lambda>h lo hi r. \<exists>k \<ge> lo. k \<le> hi \<and> (\<exists>l \<ge> k. l \<le> hi \<and> status_made h l hi (mStatus r)))"
    using maker.struct_maker [OF both, of "\<lambda>r. (mObjectMeta r, mSpec r, mStatus r)"
        "\<lambda>r t. case t of (a, b, c) \<Rightarrow> r\<lparr>mObjectMeta := a, mSpec := b, mStatus := c\<rparr>" "DynamicResource_DeepCopyInto L"]
    by (simp add: DynamicResource_DeepCopyInto_def copyBoth_def split_beta)
  then have "maker (DynamicResource_DeepCopyInto L) (\<lambda>h r. meta_inside V h 0 (free h) (mObjectMeta r) \<and> spec_inside V h 0 (free h) (mSpec r)
      \<and> status_good V h (mStatus r)) (\<lambda>h lo hi r. \<exists>l \<ge> lo. l \<le> hi \<and> status_made h l hi (mStatus r))"
  proof (rule maker_weaken)
    show "\<exists>l \<ge> lo. l \<le> hi \<and> status_made h' l hi (mStatus r)"
      if st: "\<exists>l \<ge> lo. l \<le> hi \<and> status_made h l hi (mStatus r)" and a: "agree lo hi h h'" for h h' :: "('q, 'ls, 'om, 'lm, 'cd, 'x) gomem" and lo hi r
    proof -
      obtain l where l: "lo \<le> l" "l \<le> hi" "status_made h l hi (mStatus r)" using st by blast
      have "agree l hi h h'" using a l(1) by (simp add: agree_def)
      from maker.made_frame [OF status_maker l(3) this] show ?thesis using l(1,2) by blast
    qed
  qed (blast intro: le_trans)
  from maker.clone_maker [OF this, of theResource ResourceCell True] show ?thesis by (simp add: DynamicResource_DeepCopy_def [abs_def])
qed

end

interpretation ex_make: maker "DynamicResource_DeepCopy ex_lib"
  "ref_good True theResource (\<lambda>h r. meta_inside ex_lib_view h 0 (free h) (mObjectMeta r) \<and> spec_inside ex_lib_view h 0 (free h) (mSpec r)
     \<and> status_good ex_lib_view h (mStatus r))"
  "ref_made True ResourceCell (\<lambda>h lo hi r. \<exists>l \<ge> lo. l \<le> hi \<and> status_made h l hi (mStatus r))"
  by (rule ex_library.resource_maker)

definition recommendationsOf :: "('q, 'ls, 'om, 'lm, 'cd, 'x) gomem \<Rightarrow> addr \<Rightarrow> workload_recommendation_m list" where
  \<comment> \<open>\<open>dr.Status.Recommendations\<close>\<close>
  "recommendationsOf h p =
     (case mRecommendations (mStatus (theResource (cell h p))) of None \<Rightarrow> [] | Some a \<Rightarrow> theWorkloadRecs (cell h a))"

definition complete :: "('q, 'ls, 'om, 'lm, 'cd, 'x) gomem \<Rightarrow> workload_recommendation_m list \<Rightarrow> bool" where
  \<comment> \<open>every workload has its containers and every container its target, as the operator publishes them\<close>
  "complete h ws \<longleftrightarrow> list_all (\<lambda>w. mContainers w \<noteq> None \<and> list_all (\<lambda>c. mTarget c \<noteq> None) (containersOf h w)) ws"

definition footprint :: "('q, 'ls, 'om, 'lm, 'cd, 'x) gomem \<Rightarrow> workload_recommendation_m list \<Rightarrow> addr set" where
  \<comment> \<open>the cells a pass writes to\<close>
  "footprint h ws = {a. \<exists>w \<in> set ws. mContainers w = Some a \<or> Some a \<in> mTarget ` set (containersOf h w)}"

lemma container_range:
  "container_made h lo hi c \<Longrightarrow> (\<exists>a. mTarget c = Some a \<and> lo \<le> a \<and> a < hi \<and> isList h a)
     \<and> (\<forall>a. mApplied c = Some a \<longrightarrow> lo \<le> a \<and> a < hi \<and> isList h a \<and> mTarget c \<noteq> Some a)"
  by (auto simp: container_made_def ref_made_def isList_iff split: option.splits)

lemma workload_range:
  "workload_made h lo hi w \<Longrightarrow> (\<exists>a. mContainers w = Some a \<and> lo \<le> a \<and> a < hi \<and> isContainers h a)
     \<and> tiled container_made h lo (containersOf h w) hi"
  by (auto simp: workload_made_def ref_made_def isContainers_iff containersOf_def split: option.splits intro: tiled_lower [where lo = "Suc _"])

lemma tiled_applied:
  "tiled container_made h lo cs hi \<Longrightarrow> c \<in> set cs \<Longrightarrow> mApplied c = Some a \<Longrightarrow> Some a \<notin> mTarget ` set cs"
proof (induction cs arbitrary: lo)
  case (Cons d ds)
  then obtain l m where m: "l \<le> m" "container_made h l m d" "tiled container_made h m ds hi" by auto
  have later: "m \<le> b" if x: "x \<in> set ds" "mTarget x = Some b \<or> mApplied x = Some b" for x b
  proof -
    obtain l' m' where "m \<le> l'" "container_made h l' m' x" using tiled_all [OF m(3) x(1)] by blast
    then show ?thesis using container_range [of h l' m' x] x(2) by fastforce
  qed
  show ?case
  proof (cases "c = d")
    case True
    then have "a < m" "mTarget d \<noteq> Some a" using container_range [OF m(2)] Cons.prems(3) by blast+
    moreover have "mTarget x \<noteq> Some a" if "x \<in> set ds" for x using later [OF that, of a] \<open>a < m\<close> by auto
    ultimately show ?thesis by force
  next
    case False
    then have c: "c \<in> set ds" using Cons.prems(2) by simp
    then have "mTarget d \<noteq> Some a" using container_range [OF m(2)] later [OF c] Cons.prems(3) by force
    then show ?thesis using Cons.IH [OF m(3) c Cons.prems(3)] by simp
  qed
qed simp

lemma tiled_owned:
  assumes t: "tiled workload_made h lo ws hi"
  shows "owned h ws" "footprint h ws \<subseteq> {lo..<hi}"
proof -
  have w: "\<exists>l m. lo \<le> l \<and> m \<le> hi \<and> workload_made h l m w" if "w \<in> set ws" for w using tiled_all [OF t that] .
  have cs: "tiled container_made h lo (allContainers h ws) hi"
    unfolding allContainers_def using t by (rule tiled_concat) (use workload_range in blast)
  have c: "\<exists>l m. lo \<le> l \<and> m \<le> hi \<and> container_made h l m c" if "c \<in> set (allContainers h ws)" for c
    using tiled_all [OF cs that] .
  have "distinct (map mContainers ws)" using t by (rule tiled_distinct) (use workload_range in blast)
  moreover have "distinct (map mTarget (allContainers h ws))" using cs by (rule tiled_distinct) (use container_range in blast)
  moreover have "\<exists>a. mContainers w = Some a \<and> isContainers h a" if "w \<in> set ws" for w
    using w [OF that] workload_range by blast
  moreover have "(\<exists>a. mTarget c = Some a \<and> isList h a) \<and> (\<forall>a. mApplied c = Some a \<longrightarrow> isList h a)"
    if "c \<in> set (allContainers h ws)" for c
    using c [OF that] container_range by blast
  ultimately show "owned h ws" using tiled_applied [OF cs] unfolding owned_def by blast
  show "footprint h ws \<subseteq> {lo..<hi}"
  proof
    fix a
    assume "a \<in> footprint h ws"
    then obtain v where v: "v \<in> set ws" "mContainers v = Some a \<or> Some a \<in> mTarget ` set (containersOf h v)"
      by (auto simp: footprint_def)
    show "a \<in> {lo..<hi}"
    proof (cases "mContainers v = Some a")
      case True
      then show ?thesis using w [OF v(1)] workload_range by fastforce
    next
      case False
      then obtain x where "x \<in> set (containersOf h v)" "mTarget x = Some a" using v(2) by (metis imageE)
      then have "x \<in> set (allContainers h ws)" "mTarget x = Some a" using v(1) by (auto simp: allContainers_def)
      then show ?thesis using c [of x] container_range by fastforce
    qed
  qed
qed

section \<open>The writes of a pass\<close>

inductive pass_writes ::
  "'q quantity_api \<Rightarrow> ('q, 'l) dr_spec \<Rightarrow> workload_recommendation_m list \<Rightarrow> ('q, 'ls, 'om, 'lm, 'cd, 'x) gomem
   \<Rightarrow> ('q, 'ls, 'om, 'lm, 'cd, 'x) gomem \<Rightarrow> bool"
  for Q :: "'q quantity_api" and spec :: "('q, 'l) dr_spec" and ws :: "workload_recommendation_m list" where
  \<comment> \<open>coordination of any workloads of \<open>ws\<close>, in any order and with any answers\<close>
  none: "pass_writes Q spec ws h h"
| coordinate: "pass_writes Q spec ws h h1 \<Longrightarrow> w \<in> set ws \<Longrightarrow>
    coordinateInPlace Q spec hpas workload (sharedTargets (containersOf h1 w)) usage now h1 = Some (Inr (state, h2)) \<Longrightarrow>
    pass_writes Q spec ws h h2"

lemma coordinate_outcome:
  assumes "owned h ws" "w \<in> set ws"
  obtains (error) err where "coordinateInPlace Q spec hpas workload (sharedTargets (containersOf h w)) usage now h = Some (Inl err)"
  | (writes) F state h' where "coordinateInPlace Q spec hpas workload (sharedTargets (containersOf h w)) usage now h = Some (Inr (state, h'))"
      "floored F (sharedTargets (containersOf h w)) h h'"
proof (cases "coordinateHPA Q spec hpas workload (workloadTargets (Containers (workloadRec h w))) usage now")
  case (Inl err)
  then show ?thesis using coordinateInPlace_error [OF Inl] error by blast
next
  case (Inr st)
  then show ?thesis
    using coordinateInPlace_floored [OF assms refl, of Q spec hpas workload usage now "fst st" "snd st"] writes by force
qed

lemma pass_writes_owned:
  assumes "pass_writes Q spec ws h h'" "owned h ws"
  shows "owned h' ws \<and> (\<forall>w \<in> set ws. containersOf h' w = containersOf h w) \<and> (\<forall>a. a \<notin> footprint h ws \<longrightarrow> cell h' a = cell h a)"
  using assms
proof (induction rule: pass_writes.induct)
  case (coordinate h h1 w hpas workload usage now state h2)
  then have own: "owned h1 ws" and cs: "\<forall>w \<in> set ws. containersOf h1 w = containersOf h w"
    and out: "\<forall>a. a \<notin> footprint h ws \<longrightarrow> cell h1 a = cell h a" by blast+
  obtain F where f: "floored F (sharedTargets (containersOf h1 w)) h1 h2"
    using coordinate_outcome [OF own coordinate.hyps(2), of Q spec hpas workload usage now] coordinate.hyps(3) by fastforce
  have "cell h2 a = cell h1 a" if "a \<notin> footprint h ws" for a
    using that cs coordinate.hyps(2) by (intro floored_footprint [OF f]) (auto simp: footprint_def)
  then show ?case using floored_owned(2,3) [OF own coordinate.hyps(2) f] cs out by simp
qed simp

lemma marked_footprint:
  assumes "owned h' ws" "\<forall>w \<in> set ws. containersOf h' w = containersOf h w" "a \<notin> footprint h ws"
  shows "cell (markAppliedInPlace byWorkload ws h') a = cell h' a"
proof -
  have "distinct (map mContainers ws)" "\<forall>w \<in> set ws. mContainers w \<noteq> None" using assms(1) by (auto simp: owned_def)
  moreover have "\<not> marks byWorkload ws a" using assms(3) by (auto simp: marks_def footprint_def)
  ultimately show ?thesis using markAppliedInPlace_cells [of ws byWorkload h' a] by simp
qed

context library
begin

lemma good_resource:
  assumes "pointer_inside theResource (resource_inside V) h 0 (free h) (Some p)" "complete h (recommendationsOf h p)"
  shows "ref_good True theResource (\<lambda>h r. meta_inside V h 0 (free h) (mObjectMeta r) \<and> spec_inside V h 0 (free h) (mSpec r)
       \<and> status_good V h (mStatus r)) h (Some p)"
proof -
  let ?st = "mStatus (theResource (cell h p))"
  have st: "p < free h" "meta_inside V h 0 (free h) (mObjectMeta (theResource (cell h p)))"
    "spec_inside V h 0 (free h) (mSpec (theResource (cell h p)))" "status_inside V h 0 (free h) ?st"
    using assms(1) by (simp_all add: pointer_inside_def resource_inside_def)
  have c: "container_good V h c" if "container_rec_inside V h 0 (free h) c" "mTarget c \<noteq> None" for c
    using that by (auto simp: container_good_def ref_good_def container_rec_inside_def table_inside_def pointer_inside_def split: option.splits)
  have w: "workload_good V h w"
    if "workload_rec_inside V h 0 (free h) w" "mContainers w \<noteq> None" "list_all (\<lambda>c. mTarget c \<noteq> None) (containersOf h w)" for w
    using that c by (auto simp: workload_good_def ref_good_def workload_rec_inside_def elements_inside_def pointer_inside_def containersOf_def
        list_all_iff split: option.splits)
  have "status_good V h ?st"
    using st(4) assms(2) w by (auto simp: status_good_def status_inside_def ref_good_def elements_inside_def pointer_inside_def
        recommendationsOf_def complete_def list_all_iff split: option.splits)
  then show ?thesis using st by (simp add: ref_good_def)
qed

lemma copied_recommendations:
  assumes p: "pointer_inside theResource (resource_inside V) h 0 (free h) (Some p)" "complete h (recommendationsOf h p)"
    and run: "run_state (DynamicResource_DeepCopy L (Some p)) h = (Some q, h1)" and later: "grown h1 h2"
  shows "owned h2 (recommendationsOf h2 q)" "footprint h2 (recommendationsOf h2 q) \<subseteq> {free h..<free h1}"
proof -
  from maker.makes [OF resource_maker good_resource [OF p] run] obtain r l where q: "free h \<le> q" "q < free h1"
    "cell h1 q = ResourceCell r" "Suc q \<le> l" "status_made h1 l (free h1) (mStatus r)"
    by (auto simp: ref_made_def)
  then obtain lo hi where m: "l \<le> lo" "hi \<le> free h1"
    "ref_made True WorkloadRecsCell (\<lambda>h lo hi ws. tiled workload_made h lo ws hi) h1 lo hi (mRecommendations (mStatus r))"
    by (auto simp: status_made_def)
  from maker.made_grown [OF recs_maker m(3,2) later]
  have m2: "ref_made True WorkloadRecsCell (\<lambda>h lo hi ws. tiled workload_made h lo ws hi) h2 lo hi (mRecommendations (mStatus r))" .
  have c: "cell h2 q = ResourceCell r" using later q(2,3) by (simp add: grown_def)
  have "\<exists>k \<ge> free h. \<exists>n \<le> free h1. tiled workload_made h2 k (recommendationsOf h2 q) n"
  proof (cases "mRecommendations (mStatus r)")
    case None
    then show ?thesis using c q(1,2) by (auto simp: recommendationsOf_def intro!: exI [of _ "free h"] exI [of _ "free h1"])
  next
    case (Some a)
    then have "lo \<le> a" "tiled workload_made h2 (Suc a) (recommendationsOf h2 q) hi"
      using c m2 by (auto simp: recommendationsOf_def ref_made_def)
    moreover have "free h \<le> Suc a" if "lo \<le> a" using that m(1) q(1,4) by simp
    ultimately show ?thesis using m(2) by blast
  qed
  then obtain k n where k: "free h \<le> k" "n \<le> free h1" "tiled workload_made h2 k (recommendationsOf h2 q) n" by blast
  from tiled_owned [OF k(3)] k(1,2) show "owned h2 (recommendationsOf h2 q)" "footprint h2 (recommendationsOf h2 q) \<subseteq> {free h..<free h1}"
    by auto
qed

end

section \<open>Properties\<close>

text \<open>C21. A pass writes to nothing but its own object: let a reconcile read a DynamicResource from the cache, which
  hands out a deep copy, and take the base of its status patch with \<open>DeepCopy\<close>. The recommendations of what it
  read own their lists, so that raising the HPA floors of any workloads, in any order, never writes to a nil
  map, and after these writes, and after marking what was applied, the cached object and the base of the
  patch still mean what was read. The cached recommendations are assumed to be complete, as published.\<close>

theorem cache_and_base_untouched:
  assumes lib: "library L V" and cached: "pointer_inside theResource (resource_inside V) h 0 (free h) (Some p)"
    and full: "complete h (recommendationsOf h p)"
    and read: "run_state (DynamicResource_DeepCopy L (Some p)) h = (Some dr, h1)"
    and base: "run_state (DynamicResource_DeepCopy L (Some dr)) h1 = (Some orig, h2)"
    and pass: "pass_writes Q spec (recommendationsOf h2 dr) h2 h3" and marked: "h4 = markAppliedInPlace byWorkload (recommendationsOf h2 dr) h3"
  shows "owned h3 (recommendationsOf h2 dr)
    \<and> (\<forall>w \<in> set (recommendationsOf h2 dr).
         coordinateInPlace Q spec hpas workload (sharedTargets (containersOf h3 w)) usage now h3 \<noteq> None)
    \<and> resource_view V h4 (theResource (cell h4 p)) = resource_view V h (theResource (cell h p))
    \<and> resource_view V h4 (theResource (cell h4 orig)) = resource_view V h (theResource (cell h p))"
proof -
  note copier = library.resource_copier [OF lib]
  let ?ws = "recommendationsOf h2 dr"
  from copier.copies [OF copier cached read] have c1: "grown h h1"
    "pointer_inside theResource (resource_inside V) h1 (free h) (free h1) (Some dr)"
    "pointee theResource (resource_view V) h1 (Some dr) = pointee theResource (resource_view V) h (Some p)" by blast+
  have i1: "pointer_inside theResource (resource_inside V) h1 0 (free h1) (Some dr)"
    using region.mono [OF copier.axioms(1) [OF copier] c1(2)] by blast
  from copier.copies [OF copier i1 base] have c2: "grown h1 h2" by blast
  note recs = library.copied_recommendations [OF lib cached full read c2]
  note writes = pass_writes_owned [OF pass recs(1)]
  have other: "cell h4 a = cell h2 a" if "a \<notin> footprint h2 ?ws" for a
    using marked_footprint [of h3 ?ws h2 a byWorkload] writes that marked by simp
  have cs: "coordinateInPlace Q spec hpas workload (sharedTargets (containersOf h3 w)) usage now h3 \<noteq> None" if "w \<in> set ?ws" for w
    using coordinate_outcome [OF conjunct1 [OF writes] that, of Q spec hpas workload usage now] by fastforce
  have same: "cell h4 a = cell h2 a" if "a < free h \<or> free h1 \<le> a" for a using other that recs(2) by fastforce
  have "cell h2 a = cell h1 a" if "a < free h" for a using c2 grown_free [OF c1(1)] that by (simp add: grown_def)
  then have "agree 0 (free h) h1 h4" "agree (free h1) (free h2) h2 h4" using same by (simp_all add: agree_def)
  then show ?thesis
    using copier.isolated(2) [OF copier cached read, of h4] copier.isolated(3) [OF copier i1 base, of h4] c1(3) writes cs
    by (simp add: pointee_def)
qed

lemma ex_complete: "complete ex_mem (recommendationsOf ex_mem 0)"
  by (simp add: complete_def recommendationsOf_def containersOf_def ex_mem_def ex_cells_def)

lemma ex_rec_view: "workload_rec_view ex_lib_view h w = workloadRec h w"
  by (auto simp: workload_rec_view_def workloadRec_def elements_def pointee_def containersOf_def container_rec_view_def containerRec_def
      table_def entries_view_def readList_def ex_lib_view_def split: option.split)

lemma ex_recommendations:
  "Recommendations (o_Status (resource_view ex_lib_view h (theResource (cell h p)))) = map (workloadRec h) (recommendationsOf h p)"
  by (auto simp: resource_view_def status_view_def elements_def pointee_def recommendationsOf_def ex_rec_view split: option.split)

theorem cache_and_base_untouched_witness:
  "\<exists>dr h1 orig h2 w h3. run_state (DynamicResource_DeepCopy ex_lib (Some 0)) ex_mem = (Some dr, h1)
     \<and> run_state (DynamicResource_DeepCopy ex_lib (Some dr)) h1 = (Some orig, h2)
     \<and> w \<in> set (recommendationsOf h2 dr)
     \<and> coordinateInPlace exact_api ex_spec (Inr [ex_hpa]) ''web'' (sharedTargets (containersOf h2 w)) (ex_usage 350) 0 h2 =
         Some (Inr (HPAStateIdle, h3))
     \<and> (let h4 = markAppliedInPlace [(''web'', 0)] (recommendationsOf h2 dr) h3
        in resource_view ex_lib_view h4 (theResource (cell h4 orig)) = resource_view ex_lib_view ex_mem (theResource (cell ex_mem 0)))"
proof -
  note copier = ex_library.resource_copier
  obtain r h1 where r: "run_state (DynamicResource_DeepCopy ex_lib (Some 0)) ex_mem = (r, h1)" by fastforce
  from copier.copies [OF copier ex_allocated r] have c1: "grown ex_mem h1"
    "pointer_inside theResource (resource_inside ex_lib_view) h1 (free ex_mem) (free h1) r"
    "pointee theResource (resource_view ex_lib_view) h1 r = pointee theResource (resource_view ex_lib_view) ex_mem (Some 0)" by blast+
  then obtain dr where dr: "r = Some dr" by (auto simp: pointee_def)
  obtain r' h2 where r': "run_state (DynamicResource_DeepCopy ex_lib (Some dr)) h1 = (r', h2)" by fastforce
  have i1: "pointer_inside theResource (resource_inside ex_lib_view) h1 0 (free h1) (Some dr)"
    using region.mono [OF copier.axioms(1) [OF copier] c1(2)] dr by blast
  from copier.copies [OF copier i1 r'] have c2: "grown h1 h2"
    "pointee theResource (resource_view ex_lib_view) h2 r' = pointee theResource (resource_view ex_lib_view) h1 (Some dr)" by blast+
  then obtain orig where orig: "r' = Some orig" by (auto simp: pointee_def)
  have "pointee theResource (resource_view ex_lib_view) h2 (Some dr) = pointee theResource (resource_view ex_lib_view) ex_mem (Some 0)"
    using region.keep(2) [OF copier.axioms(1) [OF copier] i1 c2(1)] c1(3) dr by simp
  then have "map (workloadRec h2) (recommendationsOf h2 dr) = map (workloadRec ex_mem) (recommendationsOf ex_mem 0)"
    unfolding ex_recommendations [symmetric] by (simp add: pointee_def)
  moreover have recs: "recommendationsOf ex_mem 0 = ex_recs" by (simp add: recommendationsOf_def ex_recs_def ex_mem_def ex_cells_def)
  ultimately obtain w where w: "w \<in> set (recommendationsOf h2 dr)" "workloadRec h2 w = workloadRec ex_mem (hd ex_recs)"
    by (auto simp: ex_recs_eq)
  have own: "owned h2 (recommendationsOf h2 dr)"
    using ex_library.copied_recommendations(1) [OF ex_allocated ex_complete r [unfolded dr] c2(1)] .
  have "ex_rec_cells ex_mem" "hd ex_recs \<in> set ex_recs" by (simp_all add: ex_rec_cells_def ex_recs_eq)
  note model = ex_coordinate [folded ex_shared [OF this, folded w(2)]]
  obtain h3 where h3: "coordinateInPlace exact_api ex_spec (Inr [ex_hpa]) ''web'' (sharedTargets (containersOf h2 w)) (ex_usage 350) 0 h2 =
      Some (Inr (HPAStateIdle, h3))"
    using coordinateInPlace_floored [OF own w(1) refl model] by blast
  have "pass_writes exact_api ex_spec (recommendationsOf h2 dr) h2 h3"
    by (rule pass_writes.coordinate [OF pass_writes.none w(1) h3])
  from cache_and_base_untouched [OF ex_library.library_axioms ex_allocated ex_complete r [unfolded dr] r' [unfolded orig] this refl,
      of "Inr [ex_hpa]" "''web''" "ex_usage 350" 0 "[(''web'', 0)]"]
  show ?thesis using r r' w(1) h3 dr orig unfolding Let_def by blast
qed

end
