(* ===== verification/Watches.thy ===== *)
theory Watches
  imports ReconcilePass ReconcileTheorems
begin

text \<open>
  When a DynamicResource is reconciled: \<open>SetupWithManager\<close>, the watches with the maps from watched objects to
  requests, and the requeue a reconcile asks for. Controller-runtime turns a created or deleted object
  into the requests of the object, an update into those of the old and of the new one, and runs a
  reconcile that failed again; that much of it is modelled.
\<close>

section \<open>The watches\<close>

datatype watched =
    WatchedDynamicResource string string  \<comment> \<open>namespace and name\<close>
  | WatchedDeployment string labels
  | WatchedHPA string

datatype watch_event = Created watched | Updated watched watched | Deleted watched

definition SetupWithManager :: "('q, 'ls, 'sel) reconciler \<Rightarrow> 'q trace \<Rightarrow> watched \<Rightarrow> (string \<times> string) list" where
  \<comment> \<open>\<open>For\<close> and \<open>Watches\<close>: the requests for an object of each kind\<close>
  "SetupWithManager R tr obj =
     (case obj of
        WatchedDynamicResource ns name \<Rightarrow> [(ns, name)]
      | WatchedDeployment ns ls \<Rightarrow> mapDeploymentToDynamicResources R tr ns ls
      | WatchedHPA ns \<Rightarrow> mapNamespaceToDynamicResources R tr ns)"

definition enqueued :: "('q, 'ls, 'sel) reconciler \<Rightarrow> 'q trace \<Rightarrow> watch_event \<Rightarrow> (string \<times> string) list" where
  "enqueued R tr ev =
     (case ev of
        Created obj \<Rightarrow> SetupWithManager R tr obj
      | Updated old new \<Rightarrow> SetupWithManager R tr old @ SetupWithManager R tr new
      | Deleted obj \<Rightarrow> SetupWithManager R tr obj)"

definition manages :: "('q, 'ls, 'sel) reconciler \<Rightarrow> 'q trace \<Rightarrow> ('q, 'ls) dynamic_resource \<Rightarrow> 'ls deployment \<Rightarrow> bool" where
  \<comment> \<open>a reconcile resolves the selector to this Deployment, among others\<close>
  "manages R tr dr d \<longleftrightarrow> (\<exists>matched. resolveSelector R tr dr = Inr matched \<and> d \<in> set matched)"

definition serves :: "('q, 'ls, 'sel) reconciler \<Rightarrow> 'q trace \<Rightarrow> string \<Rightarrow> 'ls deployment list \<Rightarrow> bool" where
  \<comment> \<open>the API server lists the Deployments a selector matches\<close>
  "serves R tr ns ds \<longleftrightarrow> (\<forall>sel. r_listDeployments R tr ns sel = Inr (filter (\<lambda>d. r_selMatches R sel (d_Labels d)) ds))"

lemma manages_selects:
  assumes "serves R tr ns ds" "d \<in> set ds" "dr_Namespace dr = ns"
  shows "manages R tr dr d \<longleftrightarrow> selects R dr (d_Labels d)"
  using assms by (auto simp: manages_def selects_def serves_def resolveSelector_def split: sum.split)

lemma mapDeployment_selects:
  assumes "r_listDynamicResources R tr ns = Inr items" "dr \<in> set items" "list_all (\<lambda>x. dr_Namespace x = ns) items" "distinct (map dr_Name items)"
  shows "(ns, dr_Name dr) \<in> set (mapDeploymentToDynamicResources R tr ns ls) \<longleftrightarrow> selects R dr ls"
  using assms by (force simp: mapDeploymentToDynamicResources_def list_all_iff distinct_map inj_on_def)

section \<open>The requeue\<close>

definition stalled :: "'q quantity_api \<Rightarrow> ('q, 'ls, 'sel) reconciler \<Rightarrow> 'q trace \<Rightarrow> ('q, 'ls) dynamic_resource \<Rightarrow> bool" where
  \<comment> \<open>invalid bounds, no selector that resolves, workloads of an older DynamicResource, or a missing provider\<close>
  "stalled Q R tr dr \<longleftrightarrow>
     validateBounds Q (r_quantityString R) (Spec dr) \<noteq> None
     \<or> (case resolveSelector R tr dr of
          Inl _ \<Rightarrow> True
        | Inr matched \<Rightarrow>
            (case conflictedWorkloads R tr dr matched of
               Inl _ \<Rightarrow> False
             | Inr conflicted \<Rightarrow> conflicted \<noteq> []
                 \<or> matched \<noteq> [] \<and> vpaConflicts R tr (dr_Namespace dr) matched = Inr []
                   \<and> (case MetricsCfg (Spec dr) of
                        Some m \<Rightarrow> Provider m = MetricsProviderPrometheus \<and> PrometheusMetrics R = None
                      | None \<Rightarrow> False)))"

lemma pollingInterval_pos: "0 < pollingInterval dr"
  by (auto simp: pollingInterval_def const_defs split: option.split)

lemma finish_requeue: "fst (finish R orig dr d s) = Inr d' \<Longrightarrow> d' = d"
  by (auto simp: finish_def patchStatus_def Let_def split: if_splits option.splits)

lemma finish_pair: "finish R orig dr d s = (Inr d', s') \<Longrightarrow> d' = d"
  using finish_requeue [of R orig dr d s d'] by simp

lemma pollingInterval_simps [simp]:
  "pollingInterval (setCondition R dr t st r m) = pollingInterval dr" "pollingInterval (dr\<lparr>Status := x\<rparr>) = pollingInterval dr"
  by (simp_all add: pollingInterval_def setCondition_def)

lemma reconcileReady_requeue: "fst (reconcileReady R orig dr n s) = Inr d \<Longrightarrow> d = pollingInterval dr"
  by (auto simp: reconcileReady_def Let_def dest!: finish_requeue split: if_splits)

lemma pollingInterval_spec: "Spec a = Spec b \<Longrightarrow> pollingInterval a = pollingInterval b"
  by (simp add: pollingInterval_def)

lemma actuate_Spec [simp]: "pollingInterval (ao_dr (actuate Q E wh dr matched usage now cds tr)) = pollingInterval dr"
  by (auto simp: actuate_def Let_def pollingInterval_def split: prod.split option.splits)

lemma resizeCondition_requeue [simp]: "pollingInterval (resizeCondition R result dr) = pollingInterval dr"
  by (simp add: resizeCondition_def)

lemma reconcileActuate_requeue:
  assumes "fst (reconcileActuate Q R orig dr matched usage now s) = Inr d"
  shows "d = pollingInterval dr"
proof -
  let ?act = "actuate Q (r_env R) (WebhookEnabled R) dr matched usage now (rs_Cooldowns s) (rs_trace s)"
  let ?s = "s\<lparr>rs_Cooldowns := ao_cooldowns ?act, rs_trace := ao_trace ?act\<rparr>"
  show ?thesis
  proof (cases "UpdateMode (Spec dr) \<noteq> UpdateModeOff \<and> UpdateMode (Spec dr) \<noteq> UpdateModeUnset \<and> ResizeSupported R")
    case True
    show ?thesis
    proof (cases "ao_err ?act")
      case (Some err)
      obtain err' where "fst (finishError R orig (ao_dr ?act) err ?s) = Inl err'" using finishError_Inl by blast
      then show ?thesis using assms True Some by (simp add: reconcileActuate_def Let_def)
    next
      case None
      then show ?thesis using assms True by (auto simp: reconcileActuate_def Let_def dest!: reconcileReady_requeue)
    qed
  next
    case False
    then show ?thesis using assms by (auto simp: reconcileActuate_def dest!: reconcileReady_requeue split: if_splits)
  qed
qed

lemma publish_requeue: "publish Q R dr recs s = (dr', s') \<Longrightarrow> pollingInterval dr' = pollingInterval dr"
  by (auto simp: publish_def Let_def split: if_splits)

lemma reconcileRecommend_requeue:
  assumes "reconcileRecommend L Q R orig dr matched now s = Some (Inr d, s')"
  shows "d = (if (case MetricsCfg (Spec dr) of Some m \<Rightarrow> Provider m = MetricsProviderPrometheus \<and> PrometheusMetrics R = None
      | None \<Rightarrow> False) then 0 else pollingInterval dr)"
proof (cases "case MetricsCfg (Spec dr) of Some m \<Rightarrow> Provider m = MetricsProviderPrometheus \<and> PrometheusMetrics R = None
      | None \<Rightarrow> False")
  case True
  then show ?thesis
    using assms by (simp add: reconcileRecommend_def finish_pair)
next
  case False
  then obtain result r where c: "computeRecommendations L Q (e_asSelector (r_env R))
      (providerFor (Spec dr) (PrometheusMetrics R) (Metrics R)) (dr_Namespace dr) (Spec dr) matched (rs_Recommender s) = Some (result, r)"
    using assms by (auto simp: reconcileRecommend_def split: option.splits)
  note a = assms [unfolded reconcileRecommend_def if_not_P [OF False] c option.case prod.case]
  show ?thesis
  proof (cases result)
    case (Inl err)
    obtain err' where "fst (finishError R orig (setCondition R dr ConditionReady ConditionFalse ''MetricsUnavailable'' err)
        (ErrOther err) (s\<lparr>rs_Recommender := r\<rparr>)) = Inl err'" using finishError_Inl by blast
    then show ?thesis using a by (simp add: Inl)
  next
    case (Inr ru)
    obtain recs usage where ru: "ru = (recs, usage)" by (cases ru)
    obtain dr1 s1 where p: "publish Q R dr recs (s\<lparr>rs_Recommender := r\<rparr>) = (dr1, s1)" by fastforce
    then have "fst (reconcileActuate Q R orig dr1 matched usage now s1) = Inr d"
      using a by (simp add: Inr ru)
    from reconcileActuate_requeue [OF this] show ?thesis using publish_requeue [OF p] False by simp
  qed
qed

section \<open>Properties\<close>

text \<open>C10. Nothing is left waiting: a reconcile that returns without error asks to be run again after the polling
  interval, a positive time, except for exactly the stalled ones: the DynamicResource is gone, its bounds
  are invalid, its selector does not resolve, an older DynamicResource owns a workload of it, or its
  metrics provider is not configured. Those wait for the next watch event.\<close>

theorem reconcile_requeues:
  assumes r: "Reconcile L Q R namespace name now s = Some (Inr d, s')"
  shows "case r_get R (rs_trace s) namespace name of
      Inl _ \<Rightarrow> False
    | Inr None \<Rightarrow> d = 0
    | Inr (Some dr) \<Rightarrow> d = (if stalled Q R (rs_trace s) dr then 0 else pollingInterval dr) \<and> 0 < pollingInterval dr"
proof (cases "\<exists>dr. r_get R (rs_trace s) namespace name = Inr (Some dr)")
  case False
  then show ?thesis using r by (auto simp: Reconcile_def split: sum.splits option.splits)
next
  case True
  then obtain dr where dr: "r_get R (rs_trace s) namespace name = Inr (Some dr)" by blast
  have rr: "reconcileResource L Q R dr now s = Some (Inr d, s')" using r dr by (simp add: Reconcile_def)
  have "d = (if stalled Q R (rs_trace s) dr then 0 else pollingInterval dr)"
  proof (cases "validateBounds Q (r_quantityString R) (Spec dr)")
    case (Some err)
    then show ?thesis using rr by (simp add: reconcileResource_def stalled_def Let_def finish_pair)
  next
    case v: None
    show ?thesis
    proof (cases "resolveSelector R (rs_trace s) dr")
      case (Inl err)
      then show ?thesis using rr v by (simp add: reconcileResource_def stalled_def Let_def finish_pair)
    next
      case m: (Inr matched)
      show ?thesis
      proof (cases "conflictedWorkloads R (rs_trace s) dr matched")
        case (Inl err)
        then show ?thesis using rr v m by (simp add: reconcileResource_def Let_def)
      next
        case c: (Inr conflicted)
        show ?thesis
        proof (cases "conflicted = [] \<and> vpaConflicts R (rs_trace s) (dr_Namespace dr) matched = Inr [] \<and> matched \<noteq> []")
          case False
          then show ?thesis using rr v m c
            by (auto simp: reconcileResource_def stalled_def Let_def dest!: finish_pair split: sum.splits if_splits)
        next
          case True
          then show ?thesis using rr v m c
            by (auto simp: reconcileResource_def stalled_def Let_def setCondition_def dest!: reconcileRecommend_requeue split: option.splits if_splits)
        qed
      qed
    qed
  qed
  then show ?thesis using dr pollingInterval_pos by simp
qed

theorem reconcile_requeues_witness:
  "\<exists>s'. Reconcile ex_libm exact_api ex_reconciler ''prod'' ''rival'' hour ex_state = Some (Inr 0, s')
     \<and> stalled exact_api ex_reconciler [] ex_rival"
proof -
  have g: "r_get ex_reconciler (rs_trace ex_state) ''prod'' ''rival'' = Inr (Some ex_rival)"
    by (simp add: ex_reconciler_def ex_state_def ex_dr_def ex_rival_def)
  have "(0::duration) = (if stalled exact_api ex_reconciler (rs_trace ex_state) ex_rival then 0 else pollingInterval ex_rival)
      \<and> 0 < pollingInterval ex_rival"
    using reconcile_requeues [OF ex_Reconcile_rival] unfolding g sum.case option.case .
  then have "stalled exact_api ex_reconciler (rs_trace ex_state) ex_rival" by (auto split: if_splits)
  then show ?thesis using ex_Reconcile_rival by (simp add: ex_state_def)
qed

text \<open>C25. The watch on Deployments wakes exactly the right DynamicResources: a change of a Deployment enqueues a
  DynamicResource of its namespace if and only if a reconcile resolved its selector to the Deployment
  before the change, or resolves it to the Deployment now. The API server is assumed to list the
  Deployments a selector matches; the labels are matched once by the server and once by the map.\<close>

theorem deployment_change_wakes:
  assumes items: "r_listDynamicResources R tr ns = Inr items" "list_all (\<lambda>x. dr_Namespace x = ns) items" "distinct (map dr_Name items)"
    and dr: "dr \<in> set items"
    and before: "serves R tr0 ns ds0" "d0 \<in> set ds0" and now: "serves R tr ns ds" "d \<in> set ds"
  shows "(ns, dr_Name dr) \<in> set (enqueued R tr (Updated (WatchedDeployment ns (d_Labels d0)) (WatchedDeployment ns (d_Labels d))))
    \<longleftrightarrow> manages R tr0 dr d0 \<or> manages R tr dr d"
proof -
  have "dr_Namespace dr = ns" using items(2) dr by (simp add: list_all_iff)
  then show ?thesis
    using mapDeployment_selects [OF items(1) dr items(2,3)] manages_selects [OF before] manages_selects [OF now]
    by (simp add: enqueued_def SetupWithManager_def)
qed

lemma ex_serves: "serves ex_reconciler tr ''prod'' [ex_deploy, ex_db]"
  by (auto simp: serves_def ex_reconciler_def ex_deploy_def ex_db_def)

theorem deployment_change_wakes_witness:
  "(''prod'', ''rival'') \<in> set (enqueued ex_reconciler [] (Updated (WatchedDeployment ''prod'' (d_Labels ex_deploy))
     (WatchedDeployment ''prod'' (d_Labels ex_db))))"
proof -
  have rival: "ex_rival \<in> set [ex_dr, ex_rival, ex_other]" "dr_Name ex_rival = ''rival''" by (simp_all add: ex_rival_def)
  have items: "r_listDynamicResources ex_reconciler [] ''prod'' = Inr [ex_dr, ex_rival, ex_other]"
    "list_all (\<lambda>x. dr_Namespace x = ''prod'') [ex_dr, ex_rival, ex_other]" "distinct (map dr_Name [ex_dr, ex_rival, ex_other])"
    by (simp add: ex_reconciler_def) (code_simp, code_simp)
  have "resolveSelector ex_reconciler [] ex_rival = Inr [ex_deploy]" by code_simp
  then have "manages ex_reconciler [] ex_rival ex_deploy" by (simp add: manages_def)
  then show ?thesis
    using deployment_change_wakes [OF items rival(1) ex_serves _ ex_serves, of ex_deploy ex_db "[]"] rival(2) by simp
qed

section \<open>What is missed\<close>

lemma conflict_not_rechecked:
  \<comment> \<open>while an older DynamicResource owns a workload, the younger one asks for no requeue, and no event of the
      older one, its deletion included, enqueues the younger: after the owner is gone the workload stays
      unmanaged until a Deployment or an HPA of the namespace changes\<close>
  "resolveSelector R tr dr = Inr matched \<Longrightarrow> conflictedWorkloads R tr dr matched = Inr conflicted \<Longrightarrow> conflicted \<noteq> [] \<Longrightarrow> stalled Q R tr dr"
  "(ns, name) \<in> set (enqueued R tr (Deleted (WatchedDynamicResource ns' owner))) \<longleftrightarrow> ns = ns' \<and> name = owner"
  by (simp_all add: stalled_def enqueued_def SetupWithManager_def)

lemma list_error_not_retried:
  \<comment> \<open>an error of listing the Deployments is reported as an invalid selector, and not retried\<close>
  assumes "r_get R (rs_trace s) namespace name = Inr (Some dr)" "validateBounds Q (r_quantityString R) (Spec dr) = None"
    and "e_asSelector (r_env R) (Selector (Spec dr)) = Inr sel" "\<not> r_selEmpty R sel"
    and "r_listDeployments R (rs_trace s) (dr_Namespace dr) sel = Inl err"
  shows "stalled Q R (rs_trace s) dr"
    "Reconcile L Q R namespace name now s = Some (finish R dr
       (setCondition R (dr\<lparr>Status := (Status dr)\<lparr>ObservedGeneration := dr_Generation dr\<rparr>\<rparr>) ConditionReady ConditionFalse ''InvalidSelector'' err) 0 s)"
proof -
  have "resolveSelector R (rs_trace s) dr = Inl err" using assms by (simp add: resolveSelector_def)
  then show "stalled Q R (rs_trace s) dr" "Reconcile L Q R namespace name now s = Some (finish R dr
       (setCondition R (dr\<lparr>Status := (Status dr)\<lparr>ObservedGeneration := dr_Generation dr\<rparr>\<rparr>) ConditionReady ConditionFalse ''InvalidSelector'' err) 0 s)"
    using assms(1,2) by (simp_all add: stalled_def Reconcile_def reconcileResource_def Let_def)
qed

end
