(* ===== verification/Rest.thy ===== *)
theory Rest
  imports Convergence ReconcilePass ReconcileTheorems
begin

text \<open>
  The closed loop of the whole operator. The locale \<open>calm_operator\<close> adds to a calm cluster what a reconcile
  needs to reach its actuation pass: a valid DynamicResource that owns its workloads. Over unchanged metrics
  every reconcile then publishes the same targets and moves every Pod by one planning step, so the
  reconciles come to rest, and they keep asking for the next one.
\<close>

section \<open>Quiet effects around a pass\<close>

lemma quiet_no_patch: "quiet es \<Longrightarrow> \<not> list_ex is_patch es" "quiet es \<Longrightarrow> \<not> list_ex is_evict es"
  by (auto simp: quiet_def list_all_iff list_ex_iff is_write_def)

lemma moved_quiet_before: "quiet pre \<Longrightarrow> moved Q p ns work ext \<Longrightarrow> moved Q p ns work (pre @ ext)"
proof (induction pre)
  case (Cons e pre)
  then have "\<not> is_patch e" "\<not> is_evict e" "quiet pre" by (simp_all add: quiet_def is_write_def)
  then show ?case using Cons moved_emit(1) by (metis append_Cons)
qed simp

lemma moved_quiet_after: "quiet post \<Longrightarrow> moved Q p ns work ext \<Longrightarrow> moved Q p ns work (ext @ post)"
proof (induction post rule: rev_induct)
  case (snoc e post)
  then have "\<not> is_patch e" "\<not> is_evict e" "quiet post" by (simp_all add: quiet_def is_write_def)
  then show ?case using snoc moved_emit(2) by (metis append_assoc)
qed simp

lemma finish_result: "(\<And>tr n st. r_patchStatus R tr ns n st = None) \<Longrightarrow> dr_Namespace dr = ns \<Longrightarrow> fst (finish R orig dr d s) = Inr d"
  by (simp add: finish_def patchStatus_def Let_def split: prod.split)

lemma reconcileReady_result:
  assumes "\<And>tr n st. r_patchStatus R tr ns n st = None" "dr_Namespace dr = ns"
  shows "fst (reconcileReady R orig dr n s) = Inr (pollingInterval dr)"
  using assms(2) by (simp add: reconcileReady_def Let_def setCondition_def finish_result [OF assms(1)] pollingInterval_def)

lemma publish_Recommender: "publish Q R dr recs s = (dr', s') \<Longrightarrow> rs_Recommender s' = rs_Recommender s"
  by (auto simp: publish_def emit_def Let_def split: if_splits)

section \<open>One reconcile\<close>

locale calm_operator = calm_cluster "r_env R" ns spec matched pods
  for R :: "('q, 'ls, 'sel) reconciler" and ns :: string and spec :: "('q, 'ls) dr_spec"
    and matched :: "'ls deployment list" and pods :: "string \<Rightarrow> 'q pod list" +
  fixes Q :: "'q quantity_api" and name :: string and object :: "'q trace \<Rightarrow> ('q, 'ls) dynamic_resource"
  assumes get: "r_get R tr ns name = Inr (Some (object tr))"
    and object: "dr_Namespace (object tr) = ns" "Spec (object tr) = spec"
    and valid: "validateBounds Q (r_quantityString R) spec = None"
    and resolves: "resolveSelector R tr (object tr) = Inr matched"
    and owns: "conflictedWorkloads R tr (object tr) matched = Inr []"
    and no_vpa: "vpaConflicts R tr ns matched = Inr []"
    and some_workload: "matched \<noteq> []"
    and supported: "ResizeSupported R"
    and provider: "\<not> (case MetricsCfg spec of Some m \<Rightarrow> Provider m = MetricsProviderPrometheus \<and> PrometheusMetrics R = None
      | None \<Rightarrow> False)"
    and status_kept: "r_patchStatus R tr ns n st = None"
begin

lemma work_quiet: "quiet pre \<Longrightarrow> work T (tr @ pre) ds = work T tr ds"
  by (simp add: work_def after_no_patch quiet_no_patch)

lemma reconcile_step:
  assumes c: "computeRecommendations L Q (e_asSelector (r_env R)) (providerFor spec (PrometheusMetrics R) (Metrics R)) ns spec matched
      (rs_Recommender s) = Some (Inr (recs, usage), r)"
    and T: "targetsOf (published R (Recommendations (Status (object (rs_trace s)))) recs) = T"
    and cool: "cooled (rs_Cooldowns s) ns spec (map d_Name matched) now"
  shows "\<exists>s' d ext stamps. Reconcile L Q R ns name now s = Some (Inr d, s') \<and> 0 < d \<and> rs_Recommender s' = r
    \<and> rs_trace s' = rs_trace s @ ext \<and> moved Q (DefaultPolicy spec) ns (work T (rs_trace s) matched) ext
    \<and> rs_Cooldowns s' = cdt.rec_all (rs_Cooldowns s) stamps \<and> (\<forall>x \<in> set stamps. snd (snd x) = now)"
proof -
  let ?orig = "object (rs_trace s)"
  let ?dr = "?orig\<lparr>Status := (Status ?orig)\<lparr>ObservedGeneration := dr_Generation ?orig\<rparr>\<rparr>"
  let ?drm = "?dr\<lparr>Status := (Status ?dr)\<lparr>MatchedWorkloads := workloadRefs matched\<rparr>\<rparr>"
  let ?drc = "setCondition R ?drm ConditionConflicted ConditionFalse ''NoConflict'' ''no overlapping DynamicResource or VPA''"
  obtain dr1 s1 where p: "publish Q R ?drc recs (s\<lparr>rs_Recommender := r\<rparr>) = (dr1, s1)" by fastforce
  let ?o = "reconcileActuate Q R ?orig dr1 matched usage now s1"
  have drc: "Spec ?drc = spec" "dr_Namespace ?drc = ns" "Recommendations (Status ?drc) = Recommendations (Status ?orig)"
    by (simp_all add: setCondition_def object)
  have rr: "Reconcile L Q R ns name now s = reconcileRecommend L Q R ?orig ?drc matched now s"
    using some_workload by (simp add: Reconcile_def get reconcileResource_def Let_def object valid resolves owns no_vpa)
  have o: "Reconcile L Q R ns name now s = Some ?o"
    unfolding rr reconcileRecommend_def drc(1,2) if_not_P [OF provider] c option.case prod.case sum.case by (simp only: p Let_def prod.case)
  note dr1 = publish_dr [OF p, unfolded drc]
  obtain pre where pre: "rs_Cooldowns s1 = rs_Cooldowns s" "rs_trace s1 = rs_trace s @ pre" "quiet pre"
    using quietly_publish [OF p] by (auto simp: quietly_def)
  let ?act = "actuate Q (r_env R) (WebhookEnabled R) dr1 matched usage now (rs_Cooldowns s1) (rs_trace s1)"
  have "cooled (rs_Cooldowns s1) ns spec (map d_Name matched) now" using cool by (simp add: pre(1))
  from actuate_moved [OF dr1(2,1) this] obtain ext stamps where a: "ao_err ?act = None" "ao_trace ?act = rs_trace s1 @ ext"
    "moved Q (DefaultPolicy spec) ns (work (targetsOf (Recommendations (Status dr1))) (rs_trace s1) matched) ext"
    "ao_cooldowns ?act = cdt.rec_all (rs_Cooldowns s1) stamps" "\<forall>x \<in> set stamps. snd (snd x) = now" by blast
  have may: "may_resize R dr1" by (simp add: may_resize_def dr1 in_place supported)
  let ?s2 = "s1\<lparr>rs_Cooldowns := ao_cooldowns ?act, rs_trace := ao_trace ?act\<rparr>"
  let ?drr = "resizeCondition R (ao_res ?act) (ao_dr ?act)"
  have oo: "?o = reconcileReady R ?orig ?drr (length matched) ?s2"
    using may a(1) by (auto simp: reconcileActuate_def may_resize_def Let_def)
  obtain post where post: "rs_Cooldowns (snd ?o) = ao_cooldowns ?act" "rs_trace (snd ?o) = ao_trace ?act @ post" "quiet post"
    using quietly_reconcileReady [of ?s2 R ?orig ?drr "length matched"] unfolding oo [symmetric] by (auto simp: quietly_def)
  have "dr_Namespace ?drr = ns" using dr1(2) by (simp add: resizeCondition_def setCondition_def actuate_def Let_def split: prod.split option.split)
  then have "fst ?o = Inr (pollingInterval ?drr)" unfolding oo by (rule reconcileReady_result [OF status_kept])
  moreover have "moved Q (DefaultPolicy spec) ns (work T (rs_trace s) matched) (pre @ ext @ post)"
    using a(3) moved_quiet_before [OF pre(3)] moved_quiet_after [OF post(3)] by (simp add: dr1(4) T pre(2) work_quiet [OF pre(3)])
  moreover have "0 < pollingInterval ?drr" by (auto simp: pollingInterval_def const_defs split: option.split)
  moreover have "rs_Recommender (snd ?o) = r" using publish_Recommender [OF p] by simp
  ultimately show ?thesis
    using o post(1,2) a(2,4,5) pre(1,2)
    by (intro exI [of _ "snd ?o"] exI [of _ "pollingInterval ?drr"] exI [of _ "pre @ ext @ post"] exI [of _ stamps]) (simp add: prod_eq_iff)
qed

end

section \<open>Many reconciles\<close>

fun reconciles ::
  "libm \<Rightarrow> 'q quantity_api \<Rightarrow> ('q, 'ls, 'sel) reconciler \<Rightarrow> string \<Rightarrow> string \<Rightarrow> time list \<Rightarrow> 'q rec_state \<Rightarrow> 'q rec_state option" where
  \<comment> \<open>reconciles of one DynamicResource, one after the other\<close>
  "reconciles L Q R ns name [] s = Some s"
| "reconciles L Q R ns name (t # ts) s =
     (case Reconcile L Q R ns name t s of None \<Rightarrow> None | Some (_, s) \<Rightarrow> reconciles L Q R ns name ts s)"

lemma reconciles_append:
  "reconciles L Q R ns name (ts @ us) s = (case reconciles L Q R ns name ts s of None \<Rightarrow> None | Some s \<Rightarrow> reconciles L Q R ns name us s)"
  by (induction ts arbitrary: s) (auto split: option.split prod.split)

lemma compute_again:
  assumes "distinct (map d_Name ds)" "computeRecommendations L Q asSelector provider ns spec ds r = Some (Inr res, r')"
  shows "computeRecommendations L Q asSelector provider ns spec ds r' = Some (Inr res, r')"
proof -
  obtain out usage where l: "computeLoop L Q asSelector provider ns spec ds r [] [] = Some (Inr (out, usage), r')"
    "res = (sort_key Workload out, usage)"
    using assms(2) by (auto simp: computeRecommendations_def split: option.splits sum.splits)
  then show ?thesis using computeLoop_again [OF l(1) assms(1)] by (simp add: computeRecommendations_def)
qed

context calm_operator
begin

lemma reconciles_moved:
  assumes c: "computeRecommendations L Q (e_asSelector (r_env R)) (providerFor spec (PrometheusMetrics R) (Metrics R)) ns spec matched
      (rs_Recommender s0) = Some (Inr (recs, usage), r)"
    and s0: "rs_Cooldowns s0 = NewCooldownTracker" "rs_trace s0 = []"
    and T: "\<And>tr. targetsOf (published R (Recommendations (Status (object tr))) recs) = T"
    and spec: "cooldowns_ok spec"
  shows "successively (apart spec) (ts @ [t]) \<Longrightarrow> \<exists>s r'. reconciles L Q R ns name ts s0 = Some s
    \<and> computeRecommendations L Q (e_asSelector (r_env R)) (providerFor spec (PrometheusMetrics R) (Metrics R)) ns spec matched
        (rs_Recommender s) = Some (Inr (recs, usage), r')
    \<and> cooled (rs_Cooldowns s) ns spec (map d_Name matched) t
    \<and> (\<forall>deploy \<in> set matched. \<forall>pod \<in> set (pods (d_Name deploy)).
         after ns (rs_trace s) pod = pod_passes (length ts) Q (T (d_Name deploy)) (DefaultPolicy spec) pod)"
proof (induction ts arbitrary: t rule: rev_induct)
  case Nil
  then show ?case using c s0 by auto
next
  case (snoc u ts)
  have u: "successively (apart spec) (ts @ [u])" "apart spec u t" using snoc.prems by (simp_all add: successively_append_iff)
  obtain s r' where s: "reconciles L Q R ns name ts s0 = Some s"
    "computeRecommendations L Q (e_asSelector (r_env R)) (providerFor spec (PrometheusMetrics R) (Metrics R)) ns spec matched
        (rs_Recommender s) = Some (Inr (recs, usage), r')"
    "cooled (rs_Cooldowns s) ns spec (map d_Name matched) u"
    "\<forall>deploy \<in> set matched. \<forall>pod \<in> set (pods (d_Name deploy)).
         after ns (rs_trace s) pod = pod_passes (length ts) Q (T (d_Name deploy)) (DefaultPolicy spec) pod"
    using snoc.IH [OF u(1)] by blast
  obtain s' d ext stamps where s': "Reconcile L Q R ns name u s = Some (Inr d, s')" "rs_Recommender s' = r'"
    "rs_trace s' = rs_trace s @ ext" "moved Q (DefaultPolicy spec) ns (work T (rs_trace s) matched) ext"
    "rs_Cooldowns s' = cdt.rec_all (rs_Cooldowns s) stamps" "\<forall>x \<in> set stamps. snd (snd x) = u"
    using reconcile_step [OF s(2) T s(3)] by blast
  have "reconciles L Q R ns name (ts @ [u]) s0 = Some s'" by (simp add: reconciles_append s(1) s'(1))
  moreover have "cooled (rs_Cooldowns s') ns spec (map d_Name matched) t"
    unfolding s'(5) by (rule cooled_later [OF s(3) s'(6) u(2) spec])
  moreover have "after ns (rs_trace s') pod = pod_passes (length (ts @ [u])) Q (T (d_Name deploy)) (DefaultPolicy spec) pod"
    if d: "deploy \<in> set matched" "pod \<in> set (pods (d_Name deploy))" for deploy pod
  proof -
    have "after ns ext (after ns (rs_trace s) pod) = pod_pass Q (T (d_Name deploy)) (DefaultPolicy spec) (after ns (rs_trace s) pod)"
      using s'(4) work_pod [OF d, of T "rs_trace s"] unfolding moved_def by blast
    then show ?thesis using s(4) d by (simp add: s'(3) pod_passes_Suc del: pod_passes.simps)
  qed
  ultimately show ?case using compute_again [OF workloads s(2)] s'(2) by blast
qed

end

section \<open>Properties\<close>

text \<open>C8. The operator comes to rest: take a DynamicResource that passes every guard in a calm cluster, metrics that
  do not change, and reconciles at least the cooldowns apart. After as many of them as the largest distance
  of a Pod from its published targets, every further reconcile still succeeds and asks for the next one, but
  patches and evicts nothing, and no Pod has a planning step left.\<close>

theorem reconciles_come_to_rest:
  assumes Q: "quantity_laws Q qv" and calm: "calm_operator R ns spec matched pods Q name object"
    and c: "computeRecommendations L Q (e_asSelector (r_env R)) (providerFor spec (PrometheusMetrics R) (Metrics R)) ns spec matched
      (rs_Recommender s0) = Some (Inr (recs, usage), r)"
    and s0: "rs_Cooldowns s0 = NewCooldownTracker" "rs_trace s0 = []"
    and T: "\<And>tr. targetsOf (published R (Recommendations (Status (object tr))) recs) = T"
    and spec: "cooldowns_ok spec" "policy_ok (DefaultPolicy spec)"
    and pods: "\<And>deploy pod. deploy \<in> set matched \<Longrightarrow> pod \<in> set (pods (d_Name deploy)) \<Longrightarrow> pod_ok qv pod \<and> QOSClass pod \<noteq> QOSUnset
      \<and> targets_ok qv (T (d_Name deploy)) \<and> pod_gap Q (T (d_Name deploy)) pod \<le> length ts"
    and ts: "successively (apart spec) (ts @ [t])"
  shows "\<exists>s s' d ext. reconciles L Q R ns name ts s0 = Some s \<and> Reconcile L Q R ns name t s = Some (Inr d, s') \<and> 0 < d
    \<and> rs_trace s' = rs_trace s @ ext \<and> \<not> list_ex is_patch ext \<and> \<not> list_ex is_evict ext
    \<and> (\<forall>deploy \<in> set matched. \<forall>pod \<in> set (pods (d_Name deploy)).
         PlanPod Q (after ns (rs_trace s) pod) (T (d_Name deploy)) (DefaultPolicy spec) = None)"
proof -
  have cluster: "calm_cluster (r_env R) ns spec matched pods" using calm by (simp add: calm_operator_def)
  obtain s r' where s: "reconciles L Q R ns name ts s0 = Some s"
    "computeRecommendations L Q (e_asSelector (r_env R)) (providerFor spec (PrometheusMetrics R) (Metrics R)) ns spec matched
        (rs_Recommender s) = Some (Inr (recs, usage), r')"
    "cooled (rs_Cooldowns s) ns spec (map d_Name matched) t"
    "\<forall>deploy \<in> set matched. \<forall>pod \<in> set (pods (d_Name deploy)).
         after ns (rs_trace s) pod = pod_passes (length ts) Q (T (d_Name deploy)) (DefaultPolicy spec) pod"
    using calm_operator.reconciles_moved [OF calm c s0 T spec(1) ts] by blast
  have rest: "PlanPod Q (after ns (rs_trace s) pod) (T (d_Name deploy)) (DefaultPolicy spec) = None"
    if d: "deploy \<in> set matched" "pod \<in> set (pods (d_Name deploy))" for deploy pod
  proof -
    have "pod_steady Q qv (DefaultPolicy spec) pod"
      using pods [OF d] quantity_laws.container_ok_steady [OF Q] by (auto simp: pod_steady_def pod_ok_def list_all_iff)
    then have "PlanPod Q (pod_passes (length ts) Q (T (d_Name deploy)) (DefaultPolicy spec) pod) (T (d_Name deploy)) (DefaultPolicy spec) = None"
      using quantity_laws.passes_quiesce [OF Q] pods [OF d] spec(2) by blast
    then show ?thesis using s(4) d by simp
  qed
  obtain s' d ext where s': "Reconcile L Q R ns name t s = Some (Inr d, s')" "0 < d" "rs_trace s' = rs_trace s @ ext"
    "moved Q (DefaultPolicy spec) ns (calm_cluster.work ns pods T (rs_trace s) matched) ext"
    using calm_operator.reconcile_step [OF calm s(2) T s(3)] by blast
  have "\<forall>(targets, pod) \<in> set (calm_cluster.work ns pods T (rs_trace s) matched). PlanPod Q pod targets (DefaultPolicy spec) = None"
    using rest by (auto simp: calm_cluster.work_def [OF cluster])
  then have "\<not> list_ex is_patch ext \<and> \<not> list_ex is_evict ext" using s'(4) unfolding moved_def by blast
  then show ?thesis using s(1) s'(1-3) rest by blast
qed

section \<open>A calm operator\<close>

definition ex_calm_dr :: "(exact_q, string) dynamic_resource" where
  "ex_calm_dr = ex_dr\<lparr>Spec := ex_inplace\<rparr>"

definition ex_calm_reconciler :: "(exact_q, string, string) reconciler" where
  "ex_calm_reconciler = ex_reconciler\<lparr>r_env := ex_calm_env, r_get := (\<lambda>_ _ _. Inr (Some ex_calm_dr)),
     r_listDynamicResources := (\<lambda>_ _. Inr [ex_calm_dr])\<rparr>"

lemma ex_calm_env_simps: "e_asSelector ex_calm_env = Inr"
  by (simp add: ex_calm_env_def ex_env_def)

interpretation ex_operator: calm_operator ex_calm_reconciler "''prod''" ex_inplace "[ex_deploy]" "\<lambda>_. [ex_pod]" exact_api "''dr''" "\<lambda>_. ex_calm_dr"
proof (rule calm_operator.intro)
  show "calm_cluster (r_env ex_calm_reconciler) ''prod'' ex_inplace [ex_deploy] (\<lambda>_. [ex_pod])"
    using ex_calm.calm_cluster_axioms by (simp add: ex_calm_reconciler_def)
  show "calm_operator_axioms ex_calm_reconciler ''prod'' ex_inplace [ex_deploy] exact_api ''dr'' (\<lambda>_. ex_calm_dr)"
  proof
    show "validateBounds exact_api (r_quantityString ex_calm_reconciler) ex_inplace = None" by code_simp
    fix tr
    show "resolveSelector ex_calm_reconciler tr ex_calm_dr = Inr [ex_deploy]"
      by (simp add: resolveSelector_def ex_calm_reconciler_def ex_reconciler_def ex_calm_env_simps ex_calm_dr_def ex_inplace_def ex_spec_def
        ex_deploy_def ex_db_def)
    show "conflictedWorkloads ex_calm_reconciler tr ex_calm_dr [ex_deploy] = Inr []"
      by (simp add: conflictedWorkloads_def ex_calm_reconciler_def)
  qed (auto simp: ex_calm_reconciler_def ex_reconciler_def ex_calm_dr_def ex_dr_def ex_inplace_def ex_spec_def vpaConflicts_def)
qed

lemma ex_calm_compute:
  "\<exists>usage r. computeRecommendations ex_libm exact_api (e_asSelector (r_env ex_calm_reconciler))
     (providerFor ex_inplace (PrometheusMetrics ex_calm_reconciler) (Metrics ex_calm_reconciler)) ''prod'' ex_inplace [ex_deploy] New
   = Some (Inr ([], usage), r)" (is "\<exists>usage r. ?c = Some (Inr ([], usage), r)")
proof -
  have "case ?c of Some (Inr (recs, usage), r) \<Rightarrow> recs = [] | _ \<Rightarrow> False" by code_simp
  then show ?thesis by (auto split: option.splits prod.splits sum.splits)
qed

theorem reconciles_come_to_rest_witness:
  "\<exists>n s. reconciles ex_libm exact_api ex_calm_reconciler ''prod'' ''dr'' (map (\<lambda>i. int i * hour) [0..<n]) ex_state = Some s
     \<and> PlanPod exact_api (after ''prod'' (rs_trace s) ex_pod) ex_targets ex_policy = None"
proof -
  let ?n = "pod_gap exact_api ex_targets ex_pod" and ?T = "targetsOf (Recommendations ex_status)"
  let ?ts = "map (\<lambda>i. int i * hour) [0..<?n]"
  obtain usage r where c: "computeRecommendations ex_libm exact_api (e_asSelector (r_env ex_calm_reconciler))
      (providerFor ex_inplace (PrometheusMetrics ex_calm_reconciler) (Metrics ex_calm_reconciler)) ''prod'' ex_inplace [ex_deploy]
      (rs_Recommender ex_state) = Some (Inr ([], usage), r)"
    using ex_calm_compute by (auto simp: ex_state_def)
  have s0: "rs_Cooldowns ex_state = NewCooldownTracker" "rs_trace ex_state = []" by (simp_all add: ex_state_def)
  have T: "targetsOf (published ex_calm_reconciler (Recommendations (Status ex_calm_dr)) []) = ?T"
    by (simp add: published_def Let_def ex_calm_reconciler_def ex_reconciler_def ex_calm_dr_def ex_dr_def)
  have ts: "successively (apart ex_inplace) (?ts @ [int ?n * hour])" using ex_apart [of "Suc ?n"] by simp
  have spec: "cooldowns_ok ex_inplace" "policy_ok (DefaultPolicy ex_inplace)"
    using ex_ok(4) by (simp_all add: ex_inplace_policy)
      (simp add: cooldowns_ok_def ex_inplace_def ex_spec_def cooldownFor_def const_defs)
  have pod: "pod_ok fst ex_pod \<and> QOSClass ex_pod \<noteq> QOSUnset \<and> targets_ok fst (?T (d_Name ex_deploy))
      \<and> pod_gap exact_api (?T (d_Name ex_deploy)) ex_pod \<le> length ?ts"
    using ex_ok(1,3) by (simp add: ex_published ex_deploy_def) (simp add: ex_pod_def)
  obtain s where s: "reconciles ex_libm exact_api ex_calm_reconciler ''prod'' ''dr'' ?ts ex_state = Some s"
    "\<forall>deploy \<in> set [ex_deploy]. \<forall>pod \<in> set [ex_pod].
      PlanPod exact_api (after ''prod'' (rs_trace s) pod) (?T (d_Name deploy)) (DefaultPolicy ex_inplace) = None"
    using reconciles_come_to_rest [OF exq.quantity_laws_axioms ex_operator.calm_operator_axioms c s0 T spec _ ts] pod by auto
  then have "PlanPod exact_api (after ''prod'' (rs_trace s) ex_pod) ex_targets ex_policy = None"
    by (simp add: ex_published ex_deploy_def ex_inplace_policy)
  then show ?thesis using s(1) by blast
qed

end
