(* ===== verification/Spec2Isabelle.thy ===== *)
theory Spec2Isabelle
  imports PlanTheorems OomTheorems Resizer Coordination RecommendationTheorems ActuationTheorems
    ReconcileTheorems WebhookTheorems PrometheusTheorems OperatorTheorems Convergence Plugin FakeProvider Ownership
    Watches Rest
begin

text \<open>
  KubeRA: a Kubernetes operator that resizes the Pods of Deployments in place.

  The program. A DynamicResource selects Deployments of its namespace and bounds the CPU and memory of
  their containers. The operator reconciles each DynamicResource periodically: it checks the bounds and
  the ownership of the workloads, reads usage samples of their Pods from a metrics provider, feeds them
  to decaying histograms, publishes percentiles with a safety margin as recommendations in the status,
  and, when the update mode says so, moves the requests and limits of running Pods step by step towards
  them, in place or, where the kubelet cannot, by evicting a Pod. A mutating webhook gives new Pods the
  current recommendation.

  The theories and the code they model, in the order of their imports:

  \<^item> \<open>Prelude\<close>, \<open>F64\<close>, \<open>GoTime\<close>, \<open>Quantity\<close>: the language and library underneath. An \<open>int64\<close> is an
    \<open>int\<close> with \<open>wrap64\<close> after each operation, a Go map is an association list, a Go error the left of a
    sum. \<open>F64\<close> defines binary64 arithmetic on rationals (round to nearest even, subnormals,
    overflow to infinity, NaN), executable, with its error bounds. A quantity of apimachinery is a
    parameter with laws (locale \<open>quantity_laws\<close>), interpreted on exact rationals.
  \<^item> \<open>Api\<close>: \<open>api/v1alpha1/dynamicresource_types.go\<close>, and the Kubernetes objects as far as they are read.
  \<^item> \<open>Plan\<close>, \<open>PlanLemmas\<close>, \<open>PlanProps\<close>, \<open>PlanPasses\<close>, \<open>PlanExamples\<close>, \<open>PlanTheorems\<close>:
    \<open>internal/actuator/plan.go\<close>. \<open>PlanPod\<close> decides one step of a Pod; \<open>apply_plan\<close> is what the API server
    makes of the patch; \<open>pod_passes\<close> iterates the two. Shown: limits, QoS and step bounds of every
    patch, the exact tolerance band, and that passes come to rest.
  \<^item> \<open>Oom\<close>, \<open>OomTheorems\<close>: \<open>oom.go\<close>, the memory bump after an OOMKill; exact effect, safety, liveness
    up to the cap.
  \<^item> \<open>Cooldown\<close>, \<open>Resizer\<close>: \<open>resizer.go\<close> and \<open>recreate.go\<close>: the writes to the cluster as effects on a
    trace, the version test, and the cooldown tracker with its contract (locale \<open>cooldown_store\<close>).
  \<^item> \<open>Coordination\<close>: \<open>internal/coordination/hpa.go\<close>; \<open>RequestFloor\<close> is the least request that keeps an
    HPA below its target.
  \<^item> \<open>Histogram\<close>, \<open>Recommender\<close>: \<open>internal/recommender\<close>. Index panics are \<open>None\<close>; \<open>hist_ok\<close> and
    \<open>rec_ok\<close> are the invariants that exclude them. The transcendental functions of Go's \<open>math\<close> are
    a parameter (locale \<open>libm_laws\<close>).
  \<^item> \<open>Metrics\<close>: the provider interface and the Metrics Server provider. \<open>Prometheus\<close>, \<open>PrometheusProps\<close>,
    \<open>PrometheusTheorems\<close>: \<open>internal/metrics/prometheus.go\<close>, the queries, which read back as built, and
    the usage made of the answers, with the parts of Go's \<open>fmt\<close>, \<open>net/url\<close> and \<open>strconv\<close> it uses.
    \<open>FakeProvider\<close>: \<open>internal/metrics/fake.go\<close>, the provider of the tests.
  \<^item> \<open>Recommendation\<close>, \<open>RecommendationProps\<close>, \<open>RecommendationTheorems\<close>: \<open>controller/recommendation.go\<close>, a
    pass over the matched workloads; its result is characterised by the samples it was fed, sorted,
    inside the bounds, and does not change when the pass is repeated.
  \<^item> \<open>Actuation\<close>, \<open>ActuationProps\<close>, \<open>ActuationTheorems\<close>: \<open>controller/actuation.go\<close> and \<open>prommetrics.go\<close>,
    from the recommendations to the writes. The inductive predicate \<open>justified\<close> is the abstract
    specification of a write; every write of a pass satisfies it. Cooldowns space the passes.
  \<^item> \<open>Convergence\<close>: the closed loop. \<open>after\<close> is what the accepted patches of a trace make of a Pod; in a
    \<open>calm_cluster\<close> (a locale, interpreted on a small cluster) each pass moves every Pod by one planning
    step, so the passes come to rest.
  \<^item> \<open>Reconcile\<close>, \<open>ReconcileProps\<close>, \<open>ReconcileTheorems\<close>: \<open>dynamicresource_controller.go\<close> and \<open>vpa.go\<close>.
    One reconcile composes the two passes behind its guards. The locale \<open>status_policy\<close> walks every
    path once; it is interpreted for the trivial policy and, through the contract of
    \<open>SetStatusCondition\<close> (locale \<open>condition_store\<close>), for the consistency of the conditions. Shown:
    writes only behind all guards, disjoint ownership, that every reconcile returns.
  \<^item> \<open>Webhook\<close>, \<open>WebhookProps\<close>, \<open>WebhookTheorems\<close>: \<open>internal/webhook/pod_webhook.go\<close>. What a new Pod is
    given, on whose authority, and that the planner then leaves it alone.
  \<^item> \<open>ReconcilePass\<close>: a reconcile seen from outside is either quiet or exactly one actuation pass behind all
    its guards. \<open>Limiter\<close>: the locales \<open>pass_policy\<close> and \<open>reconcile_policy\<close> follow the effects of a pass and
    of a reconcile once for any policy; they are interpreted for the rate limiter (\<open>metered\<close>), for the
    workloads that may be resized (\<open>in_scope\<close>) and for the counter of resizes (\<open>balanced\<close>). \<open>Gauges\<close>: the
    collectors of \<open>prommetrics.go\<close>, what a scrape reads after a trace.
  \<^item> \<open>Startup\<close>: \<open>cmd/main.go\<close>. \<open>main\<close> goes from the parsed flags to the wiring of a started operator, with
    every exit on the way; \<open>newReconciler\<close> composes the wiring and the clients of a \<open>platform\<close> into the
    \<open>reconciler\<close>, with the modelled metrics providers.
  \<^item> \<open>Operator\<close>, \<open>OperatorProps\<close>, \<open>OperatorTheorems\<close>: the operator over its whole life. The inductive
    relation \<open>op_step\<close> has one rule for a reconcile and one for a restart, \<open>op_run\<close> is its closure. Shown by
    induction over runs: every write has a reason, is granted by the limiter and is counted, cooldowns
    space the reconciles of a process, a workload has one writer, and no run gets stuck.
  \<^item> \<open>Memory\<close>, \<open>DeepCopy\<close>, \<open>DeepCopyProps\<close>, \<open>DeepCopyTheorems\<close>: the generated deep copies of
    \<open>zz_generated.deepcopy.go\<close>, over an explicit Go memory. The locale \<open>copier\<close> is the contract of a copy
    (equal, fresh, nothing else written); it passes from the types of apimachinery (locale \<open>library\<close>,
    interpreted on a small library) through pointers, slices and maps to every type of the API.
  \<^item> \<open>InPlace\<close>, \<open>InPlaceTheorems\<close>, \<open>Ownership\<close>: the parts of \<open>actuation.go\<close> that write through shared resource
    lists, on that memory. They refine the value model of \<open>Actuation\<close>; by the locale \<open>maker\<close>, which
    follows where a copy puts its parts, they reach neither the object in the cache nor the copy against
    which the status patch is computed.
  \<^item> \<open>Watches\<close>: \<open>SetupWithManager\<close> and the requeues: which change of which object wakes which
    DynamicResource, and when a reconcile asks to be run again.
  \<^item> \<open>Rest\<close>: the convergence of \<open>Convergence\<close> for whole reconciles, guards, metrics and status included
    (locale \<open>calm_operator\<close>).
  \<^item> \<open>Plugin\<close>: \<open>cmd/kubectl-kubera/main.go\<close>: the command line, the default kubeconfig, the clients, the rows of
    \<open>kubectl kubera diff\<close> and the table as it is printed.

  State and effects. The reconcilers share the recommender, the cooldown tracker and the cluster;
  controller-runtime runs them one at a time, so the state is passed explicitly (\<open>rec_state\<close>). What a
  pass writes (patches, evictions, events, gauges, status) is appended to a trace, and the answers of
  the API server may depend on the trace so far. In a run each event brings its own platform, so that the
  cluster may change in any way between two reconciles. Safety is stated on traces.

  Parameters. The API server and its caches, label selectors, \<open>SetStatusCondition\<close>, semantic
  equality, \<open>resource.Quantity\<close>, the metrics backends, the iteration order of maps and Go's \<open>math\<close> library are code outside the
  repository or its hardware: they are arguments of the definitions, with documented behaviour as the
  assumptions of locales, each interpreted on a concrete instance.

  Bounds. Sizes up to \<open>2^52\<close> millicores and bytes keep the arithmetic of the planner exact (\<open>2^51\<close> for
  the OOM bump, \<open>2^38\<close> for HPA usage); a histogram stays well-formed for fewer than \<open>2^53\<close> samples
  of one process;
  the limits scaled by the webhook stay below \<open>2^62\<close> thousandths. No definition uses fuel: every loop of
  the code runs over a list.

  Not modelled. The registration of the API group with a scheme and the helpers of the end-to-end tests;
  the parsing of the operator's flags; the work queue of controller-runtime, beyond what an event and a result
  ask of it; the token bucket behind the rate limiter, which is a library (its arguments and the use of its answers
  are modelled); log output, mutexes, contexts and time-outs.
  Strings that are quoted, sanitised or aligned are ASCII, as the names and labels of Kubernetes objects
  are. Conversions of out-of-range floats to \<open>int64\<close>, which Go leaves open,
  follow amd64.
\<close>

end
